theory Spec2Isabelle
  imports Main "HOL-Library.Sublist"
begin

section \<open>Dynamically typed values\<close>

text \<open>
  The classifier returns whatever \<^verbatim>\<open>JSON.parse\<close> yields, typed \<^verbatim>\<open>any\<close>; the
  orchestrator reads its properties and tests them with \<^verbatim>\<open>!\<close> and \<^verbatim>\<open>===\<close>.
  Numbers are kept as integers: only their truthiness is ever read.
\<close>

datatype jsval =
    JUndefined
  | JNull
  | JBool bool
  | JNum int
  | JStr string
  | JArr "jsval list"
  | JObj "(string \<times> jsval) list"

text \<open>Truthiness, as \<^verbatim>\<open>!v\<close> reads it.\<close>

fun truthy :: "jsval \<Rightarrow> bool" where
  "truthy JUndefined = False"
| "truthy JNull = False"
| "truthy (JBool b) = b"
| "truthy (JNum n) = (n \<noteq> 0)"
| "truthy (JStr s) = (s \<noteq> [])"
| "truthy (JArr _) = True"
| "truthy (JObj _) = True"

text \<open>A property read \<^verbatim>\<open>v.k\<close> on a value that is not null or undefined.\<close>

fun get_prop :: "jsval \<Rightarrow> string \<Rightarrow> jsval" where
  "get_prop (JObj kvs) k = (case map_of kvs k of Some v \<Rightarrow> v | None \<Rightarrow> JUndefined)"
| "get_prop _ k = JUndefined"

text \<open>An optional string field of a remote payload, read as a value.\<close>

definition opt_str :: "string option \<Rightarrow> jsval" where
  "opt_str s = (case s of None \<Rightarrow> JUndefined | Some t \<Rightarrow> JStr t)"

text \<open>\<^verbatim>\<open>s || d\<close> on an optional string: absent and empty are both falsy.\<close>

definition or_default :: "string option \<Rightarrow> string \<Rightarrow> string" where
  "or_default s d = (case s of None \<Rightarrow> d | Some t \<Rightarrow> if t = [] then d else t)"

definition str_truthy :: "string option \<Rightarrow> bool" where
  "str_truthy s = (case s of None \<Rightarrow> False | Some t \<Rightarrow> t \<noteq> [])"

text \<open>\<^verbatim>\<open>a || b\<close> on two optional strings.\<close>

definition or_else :: "string option \<Rightarrow> string option \<Rightarrow> string option" where
  "or_else a b = (if str_truthy a then a else b)"

text \<open>An optional string inside a template literal.\<close>

definition template_str :: "string option \<Rightarrow> string" where
  "template_str s = (case s of None \<Rightarrow> ''undefined'' | Some t \<Rightarrow> t)"

datatype error =
    RemoteFailure string
  | GraphApiError nat string
  | ValidationFailure
  | TypeError
  | SyntaxError
  | DatabaseError string

section \<open>The classifier's response parsing\<close>

text \<open>
  \<^verbatim>\<open>text.match(/\{[\s\S]*\}/)\<close>: the leftmost position where the pattern matches, and
  there the longest match. After the opening brace, the greedy star takes as many
  characters as it can and gives them back one by one until a closing brace follows.
  \<open>greedy_close r\<close> is the longest prefix of \<open>r\<close> that ends in a closing brace.
\<close>

fun greedy_close :: "string \<Rightarrow> string option" where
  "greedy_close [] = None"
| "greedy_close (c # cs) =
     (case greedy_close cs of
        Some m \<Rightarrow> Some (c # m)
      | None \<Rightarrow> if c = CHR ''}'' then Some [c] else None)"

fun jsonMatch :: "string \<Rightarrow> string option" where
  "jsonMatch [] = None"
| "jsonMatch (c # cs) =
     (if c = CHR ''{'' then
        (case greedy_close cs of
           Some m \<Rightarrow> Some (c # m)
         | None \<Rightarrow> jsonMatch cs)
      else jsonMatch cs)"

text \<open>
  The specification's wording, for comparison with \<open>jsonMatch\<close>: the first balanced
  brace-delimited substring. \<open>spec_close_from d cs\<close> scans \<open>cs\<close> at nesting depth
  \<open>d\<close> and returns the text up to the brace that closes depth 1.
\<close>

fun spec_close_from :: "nat \<Rightarrow> string \<Rightarrow> string option" where
  "spec_close_from d [] = None"
| "spec_close_from d (c # cs) =
     (if c = CHR ''}'' then
        (if d \<le> 1 then Some [c] else map_option ((#) c) (spec_close_from (d - 1) cs))
      else if c = CHR ''{'' then map_option ((#) c) (spec_close_from (Suc d) cs)
      else map_option ((#) c) (spec_close_from d cs))"

fun spec_first_balanced :: "string \<Rightarrow> string option" where
  "spec_first_balanced [] = None"
| "spec_first_balanced (c # cs) =
     (if c = CHR ''{'' then
        (case spec_close_from 1 cs of
           Some m \<Rightarrow> Some (c # m)
         | None \<Rightarrow> spec_first_balanced cs)
      else spec_first_balanced cs)"

text \<open>
  \<^verbatim>\<open>JSON.parse\<close> is a parameter: \<open>None\<close> when it throws a SyntaxError.
  \<^verbatim>\<open>model.generateContent(prompt)\<close> followed by \<^verbatim>\<open>response.text()\<close> is a parameter
  too; the prompt is a fixed template around the subject, the sender and the snippet, so
  the generator is a function of these three. It returns \<open>Inl\<close> when the call throws,
  and \<open>Inr None\<close> when the service's reply carries no text (\<^verbatim>\<open>text.match\<close> then raises
  a TypeError).
\<close>

type_synonym json_parser = "string \<Rightarrow> jsval option"
type_synonym generator = "string \<Rightarrow> string \<Rightarrow> string \<Rightarrow> error + string option"

definition fallback :: jsval where
  "fallback = JObj [(''isWork'', JBool True), (''priority'', JStr ''medium'')]"

text \<open>The body of the \<^verbatim>\<open>try\<close> block of \<^verbatim>\<open>classifyAndPrioritizeEmail\<close>.\<close>

definition classify_try :: "json_parser \<Rightarrow> generator \<Rightarrow> string \<Rightarrow> string \<Rightarrow> string \<Rightarrow> error + jsval" where
  "classify_try JSON_parse generateContent subject sender snippet =
     (case generateContent subject sender snippet of
        Inl e \<Rightarrow> Inl e
      | Inr None \<Rightarrow> Inl TypeError
      | Inr (Some text) \<Rightarrow>
          (case jsonMatch text of
             Some m \<Rightarrow>
               (case JSON_parse m of
                  None \<Rightarrow> Inl SyntaxError
                | Some v \<Rightarrow> Inr v)
           | None \<Rightarrow> Inr fallback))"

text \<open>The whole function: the \<^verbatim>\<open>catch\<close> turns every error into the fallback.\<close>

definition classify :: "json_parser \<Rightarrow> generator \<Rightarrow> string \<Rightarrow> string \<Rightarrow> string \<Rightarrow> jsval" where
  "classify JSON_parse generateContent subject sender snippet =
     (case classify_try JSON_parse generateContent subject sender snippet of
        Inl e \<Rightarrow> fallback
      | Inr v \<Rightarrow> v)"

section \<open>The stored data\<close>

text \<open>
  A \<^verbatim>\<open>Date\<close> built from a remote string is kept by the string it was built from
  (\<^verbatim>\<open>new Date(s)\<close>, \<^verbatim>\<open>new Date(parseInt(s))\<close>); \<^verbatim>\<open>new Date()\<close> is a reading of the
  clock.
\<close>

datatype js_date =
    DateOfString string
  | DateOfMillis "string option"
  | DateOfClock nat

datatype item_type = Email | Calendar | Task | Message

text \<open>
  The metadata bag of a work item: the two provider-native identifiers the
  deduplication reads, and the other entries.
\<close>

record metadata =
  googleId :: "string option"
  microsoftId :: "string option"
  extra :: "(string \<times> jsval) list"

record item_input =
  i_userId :: string
  i_type :: item_type
  i_title :: string
  i_source :: string
  i_timestamp :: js_date
  i_preview :: string
  i_isRead :: bool
  i_priority :: jsval
  i_threadId :: nat
  i_metadata :: metadata

record work_item =
  item_id :: nat
  item_data :: item_input

record work_thread =
  t_id :: nat
  t_userId :: string
  t_title :: string
  t_description :: string
  t_priority :: string
  t_progress :: nat
  t_lastActivity :: nat
  t_itemIds :: "nat list"

record integration =
  accessToken :: "string option"
  refreshToken :: "string option"
  lastSync :: "nat option"
  connected :: bool

record integrations =
  google :: "integration option"
  microsoft :: "integration option"

record user =
  user_id :: string
  u_integrations :: "integrations option"

datatype id_field = GoogleId | MicrosoftId

text \<open>
  What a sync cycle asks of the outside: the requests to the remote services, with the
  credentials they carry, and the deduplication lookups.
\<close>

datatype event =
    GmailMessagesList string "string option"
  | GmailMessagesGet string "string option" "string option"
  | GenerateContent string string string
  | CalendarEventsList string "string option" nat
  | TasklistsList string "string option"
  | TasksList string "string option" "string option"
  | GraphChats string
  | FindOneWorkItem string id_field "string option"

fun is_remote :: "event \<Rightarrow> bool" where
  "is_remote (FindOneWorkItem _ _ _) = False"
| "is_remote _ = True"

text \<open>
  The three collections of the database, the clock, the next fresh document id and the
  trace of requests.
\<close>

record world =
  users :: "user list"
  items :: "work_item list"
  threads :: "work_thread list"
  clock :: nat
  next_id :: nat
  trace :: "event list"

definition log_event :: "event \<Rightarrow> world \<Rightarrow> world" where
  "log_event e w = w\<lparr>trace := trace w @ [e]\<rparr>"

text \<open>\<^verbatim>\<open>new Date()\<close>: reads the clock, which then moves on.\<close>

definition new_Date :: "world \<Rightarrow> nat \<times> world" where
  "new_Date w = (clock w, w\<lparr>clock := Suc (clock w)\<rparr>)"

text \<open>
  \<^verbatim>\<open>UserModel.findById(userId)\<close> returns a promise. \<open>UserModel_findById\<close> is the value that
  promise resolves to: the stored user with that id, or \<^verbatim>\<open>null\<close>. The promise can also reject
  (the database is unreachable, the id cannot be cast): \<open>UserModel_findById_await\<close> is the
  awaited call with that outcome, where \<open>fault\<close> is the rejection of the database, if any,
  a parameter like the answers of the remote services.
\<close>

definition UserModel_findById :: "string \<Rightarrow> world \<Rightarrow> user option" where
  "UserModel_findById userId w = find (\<lambda>u. user_id u = userId) (users w)"

definition UserModel_findById_await :: "error option \<Rightarrow> string \<Rightarrow> world \<Rightarrow> error + user option" where
  "UserModel_findById_await fault userId w =
     (case fault of Some e \<Rightarrow> Inl e | None \<Rightarrow> Inr (UserModel_findById userId w))"

definition md_key :: "id_field \<Rightarrow> work_item \<Rightarrow> string option" where
  "md_key f i =
     (case f of
        GoogleId \<Rightarrow> googleId (i_metadata (item_data i))
      | MicrosoftId \<Rightarrow> microsoftId (i_metadata (item_data i)))"

text \<open>
  Modelled from the spec: \<^verbatim>\<open>WorkItemModel.findOne({ userId, 'metadata.<field>': key })\<close>
  (the model \<^verbatim>\<open>models/WorkItem\<close> is not among the sources): the point lookup of the
  dedup gate by \<open>(userId, metadata.<provider>Id)\<close>. An absent key is looked up as such:
  it finds an item of the user that has no value under the field.
\<close>

definition WorkItemModel_findOne ::
  "string \<Rightarrow> id_field \<Rightarrow> string option \<Rightarrow> world \<Rightarrow> work_item option \<times> world" where
  "WorkItemModel_findOne userId f key w =
     (find (\<lambda>i. i_userId (item_data i) = userId \<and> md_key f i = key) (items w),
      log_event (FindOneWorkItem userId f key) w)"

definition getOrCreateExternalThread :: "string \<Rightarrow> world \<Rightarrow> nat \<times> world" where
  "getOrCreateExternalThread userId w =
     (case find (\<lambda>t. t_userId t = userId \<and> t_title t = ''External Imports'') (threads w) of
        Some thread \<Rightarrow> (t_id thread, w)
      | None \<Rightarrow>
          (case new_Date w of
             (now, w1) \<Rightarrow>
               (next_id w1,
                w1\<lparr>threads := threads w1 @
                      [\<lparr>t_id = next_id w1,
                        t_userId = userId,
                        t_title = ''External Imports'',
                        t_description =
                          ''Automatically imported items from Google Workspace and other integrations.'',
                        t_priority = ''medium'',
                        t_progress = 0,
                        t_lastActivity = now,
                        t_itemIds = []\<rparr>],
                    next_id := Suc (next_id w1)\<rparr>)))"

text \<open>
  Modelled from the spec: \<^verbatim>\<open>WorkItemService.createItem\<close>
  (\<^verbatim>\<open>services/workitem.service\<close> is not among the sources): it materializes the work
  item under a fresh id and returns it. The schema's validation is the parameter
  \<open>valid\<close>; a record it rejects raises and stores nothing.
\<close>

type_synonym validator = "item_input \<Rightarrow> bool"

definition createItem :: "validator \<Rightarrow> item_input \<Rightarrow> world \<Rightarrow> (error + work_item) \<times> world" where
  "createItem valid inp w =
     (if valid inp then
        (Inr \<lparr>item_id = next_id w, item_data = inp\<rparr>,
         w\<lparr>items := items w @ [\<lparr>item_id = next_id w, item_data = inp\<rparr>],
           next_id := Suc (next_id w)\<rparr>)
      else (Inl ValidationFailure, w))"

fun update_first :: "('a \<Rightarrow> bool) \<Rightarrow> ('a \<Rightarrow> 'a) \<Rightarrow> 'a list \<Rightarrow> 'a list" where
  "update_first p f [] = []"
| "update_first p f (x # xs) = (if p x then f x # xs else x # update_first p f xs)"

text \<open>
  The update document of \<^verbatim>\<open>WorkThreadModel.findByIdAndUpdate\<close>: the id for
  \<^verbatim>\<open>$addToSet\<close>, the new \<^verbatim>\<open>lastActivity\<close>, and the priority when the spread adds one.
\<close>

record thread_update =
  addToSet_itemIds :: nat
  set_lastActivity :: nat
  set_priority :: "string option"

definition apply_update :: "thread_update \<Rightarrow> work_thread \<Rightarrow> work_thread" where
  "apply_update upd th =
     th\<lparr>t_itemIds :=
          (if addToSet_itemIds upd \<in> set (t_itemIds th) then t_itemIds th
           else t_itemIds th @ [addToSet_itemIds upd]),
        t_lastActivity := set_lastActivity upd,
        t_priority := (case set_priority upd of None \<Rightarrow> t_priority th | Some p \<Rightarrow> p)\<rparr>"

definition WorkThreadModel_findByIdAndUpdate :: "nat \<Rightarrow> thread_update \<Rightarrow> world \<Rightarrow> world" where
  "WorkThreadModel_findByIdAndUpdate tid upd w =
     w\<lparr>threads := update_first (\<lambda>t. t_id t = tid) (apply_update upd) (threads w)\<rparr>"

definition WorkThreadModel_findById :: "nat \<Rightarrow> world \<Rightarrow> work_thread option" where
  "WorkThreadModel_findById tid w = find (\<lambda>t. t_id t = tid) (threads w)"

text \<open>Writing \<^verbatim>\<open>lastSync\<close> of one provider on the stored user.\<close>

definition stamp_google :: "nat \<Rightarrow> user \<Rightarrow> user" where
  "stamp_google now u =
     u\<lparr>u_integrations :=
         map_option (\<lambda>i. i\<lparr>google := map_option (\<lambda>g. g\<lparr>lastSync := Some now\<rparr>) (google i)\<rparr>)
           (u_integrations u)\<rparr>"

definition stamp_microsoft :: "nat \<Rightarrow> user \<Rightarrow> user" where
  "stamp_microsoft now u =
     u\<lparr>u_integrations :=
         map_option (\<lambda>i. i\<lparr>microsoft := map_option (\<lambda>g. g\<lparr>lastSync := Some now\<rparr>) (microsoft i)\<rparr>)
           (u_integrations u)\<rparr>"

definition update_user :: "string \<Rightarrow> (user \<Rightarrow> user) \<Rightarrow> world \<Rightarrow> world" where
  "update_user userId f w = w\<lparr>users := update_first (\<lambda>u. user_id u = userId) f (users w)\<rparr>"

definition google_of :: "user \<Rightarrow> integration option" where
  "google_of u = (case u_integrations u of None \<Rightarrow> None | Some i \<Rightarrow> google i)"

definition microsoft_of :: "user \<Rightarrow> integration option" where
  "microsoft_of u = (case u_integrations u of None \<Rightarrow> None | Some i \<Rightarrow> microsoft i)"

definition token_of :: "integration option \<Rightarrow> (integration \<Rightarrow> string option) \<Rightarrow> string option" where
  "token_of i sel = (case i of None \<Rightarrow> None | Some g \<Rightarrow> sel g)"

section \<open>The sync orchestrator\<close>

text \<open>
  A \<^verbatim>\<open>for (const c of cs) { ... }\<close> loop inside a \<^verbatim>\<open>try\<close>: the body receives the
  counter and returns it (\<^verbatim>\<open>continue\<close> leaves it as it is, \<^verbatim>\<open>count++\<close> adds one); an
  error ends the loop with the world as it is at that moment.
\<close>

fun for_of ::
  "('c \<Rightarrow> nat \<Rightarrow> world \<Rightarrow> (error + nat) \<times> world) \<Rightarrow> 'c list \<Rightarrow> nat \<Rightarrow> world \<Rightarrow> (error + nat) \<times> world" where
  "for_of body [] count w = (Inr count, w)"
| "for_of body (c # cs) count w =
     (case body c count w of
        (Inl e, w1) \<Rightarrow> (Inl e, w1)
      | (Inr count1, w1) \<Rightarrow> for_of body cs count1 w1)"

text \<open>
  The statements that end the body of each of the four loops: resolve the import thread,
  create the item, update the thread, count. \<open>ts = None\<close> stands for a \<^verbatim>\<open>new Date()\<close>
  among the arguments of \<^verbatim>\<open>createItem\<close>; \<open>escalate\<close> is the condition of the spread
  \<^verbatim>\<open>...(analysis.priority === 'high' ? { priority: 'high' } : {})\<close>, false where the update
  has no such spread.
\<close>

definition materialize ::
  "validator \<Rightarrow> string \<Rightarrow> js_date option \<Rightarrow> (nat \<Rightarrow> js_date \<Rightarrow> item_input) \<Rightarrow> bool \<Rightarrow>
     nat \<Rightarrow> world \<Rightarrow> (error + nat) \<times> world" where
  "materialize valid userId ts mk escalate count w =
     (case getOrCreateExternalThread userId w of
        (externalThreadId, w1) \<Rightarrow>
          (case (case ts of Some d \<Rightarrow> (d, w1)
                 | None \<Rightarrow> (case new_Date w1 of (now, w2) \<Rightarrow> (DateOfClock now, w2))) of
             (timestamp, w2) \<Rightarrow>
               (case createItem valid (mk externalThreadId timestamp) w2 of
                  (Inl e, w3) \<Rightarrow> (Inl e, w3)
                | (Inr newItem, w3) \<Rightarrow>
                    (case new_Date w3 of
                       (now, w4) \<Rightarrow>
                         (Inr (Suc count),
                          WorkThreadModel_findByIdAndUpdate externalThreadId
                            \<lparr>addToSet_itemIds = item_id newItem,
                             set_lastActivity = now,
                             set_priority = (if escalate then Some ''high'' else None)\<rparr>
                            w4)))))"

subsection \<open>Gmail\<close>

record gmail_details =
  d_headers :: "(string \<times> string) list option"
  d_internalDate :: "string option"
  d_snippet :: "string option"
  d_threadId :: "string option"

text \<open>
  The Gmail service as the cycle sees it: the answer to \<^verbatim>\<open>messages.list\<close> (the ids of
  the messages, or none) and the answer to \<^verbatim>\<open>messages.get\<close> for an id; \<open>Inl\<close> when the
  call rejects.
\<close>

record gmail_remote =
  messages_list :: "error + string option list option"
  messages_get :: "string option \<Rightarrow> error + gmail_details"

definition header_value :: "(string \<times> string) list option \<Rightarrow> string \<Rightarrow> string option" where
  "header_value hs name = (case hs of None \<Rightarrow> None | Some l \<Rightarrow> map_of l name)"

definition gmail_body ::
  "validator \<Rightarrow> json_parser \<Rightarrow> generator \<Rightarrow> gmail_remote \<Rightarrow> string \<times> string option \<Rightarrow> string \<Rightarrow>
     string option \<Rightarrow> nat \<Rightarrow> world \<Rightarrow> (error + nat) \<times> world" where
  "gmail_body valid JSON_parse generateContent gmail auth userId msg count w =
     (case messages_get gmail msg of
        Inl e \<Rightarrow> (Inl e, log_event (GmailMessagesGet (fst auth) (snd auth) msg) w)
      | Inr details \<Rightarrow>
          (let w1 = log_event (GmailMessagesGet (fst auth) (snd auth) msg) w;
               subject = or_default (header_value (d_headers details) ''Subject'') ''No Subject'';
               sender = or_default (header_value (d_headers details) ''From'') ''Unknown'';
               date = DateOfMillis (d_internalDate details);
               snippet = or_default (d_snippet details) []
           in case WorkItemModel_findOne userId GoogleId msg w1 of
                (Some existing, w2) \<Rightarrow> (Inr count, w2)
              | (None, w2) \<Rightarrow>
                  (let analysis = classify JSON_parse generateContent subject sender snippet;
                       w3 = log_event (GenerateContent subject sender snippet) w2
                   in if \<not> truthy analysis \<or> \<not> truthy (get_prop analysis ''isWork'')
                      then (Inr count, w3)
                      else materialize valid userId (Some date)
                             (\<lambda>externalThreadId timestamp.
                                \<lparr>i_userId = userId,
                                 i_type = Email,
                                 i_title = subject,
                                 i_source = ''Gmail: '' @ sender,
                                 i_timestamp = timestamp,
                                 i_preview = snippet,
                                 i_isRead = False,
                                 i_priority = get_prop analysis ''priority'',
                                 i_threadId = externalThreadId,
                                 i_metadata =
                                   \<lparr>googleId = msg,
                                    microsoftId = None,
                                    extra = [(''threadId'', opt_str (d_threadId details)),
                                             (''aiReason'', get_prop analysis ''reason'')]\<rparr>\<rparr>)
                             (get_prop analysis ''priority'' = JStr ''high'')
                             count w3)))"

text \<open>The body of the \<^verbatim>\<open>try\<close> block of \<^verbatim>\<open>syncGmail\<close>.\<close>

definition syncGmail_try ::
  "validator \<Rightarrow> json_parser \<Rightarrow> generator \<Rightarrow> gmail_remote \<Rightarrow> string \<times> string option \<Rightarrow> string \<Rightarrow>
     user \<Rightarrow> world \<Rightarrow> (error + nat) \<times> world" where
  "syncGmail_try valid JSON_parse generateContent gmail auth userId u w =
     (case messages_list gmail of
        Inl e \<Rightarrow> (Inl e, log_event (GmailMessagesList (fst auth) (snd auth)) w)
      | Inr res \<Rightarrow>
          (case for_of (gmail_body valid JSON_parse generateContent gmail auth userId)
                  (case res of None \<Rightarrow> [] | Some messages \<Rightarrow> messages) 0
                  (log_event (GmailMessagesList (fst auth) (snd auth)) w) of
             (Inl e, w1) \<Rightarrow> (Inl e, w1)
           | (Inr count, w1) \<Rightarrow>
               (case google_of u of
                  Some g \<Rightarrow>
                    (case new_Date w1 of
                       (now, w2) \<Rightarrow> (Inr count, update_user userId (stamp_google now) w2))
                | None \<Rightarrow> (Inr count, w1))))"

definition syncGmail ::
  "validator \<Rightarrow> json_parser \<Rightarrow> generator \<Rightarrow> gmail_remote \<Rightarrow> string \<Rightarrow> string option \<Rightarrow>
     world \<Rightarrow> nat \<times> world" where
  "syncGmail valid JSON_parse generateContent gmail userId overrideAccessToken w =
     (case UserModel_findById userId w of
        None \<Rightarrow> (0, w)
      | Some u \<Rightarrow>
          (case or_else overrideAccessToken (token_of (google_of u) accessToken) of
             None \<Rightarrow> (0, w)
           | Some tok \<Rightarrow>
               if tok = [] then (0, w)
               else
                 (case syncGmail_try valid JSON_parse generateContent gmail
                         (tok, token_of (google_of u) refreshToken) userId u w of
                    (Inl e, w1) \<Rightarrow> (0, w1)
                  | (Inr count, w1) \<Rightarrow> (count, w1))))"

subsection \<open>Calendar\<close>

record event_start =
  dateTime :: "string option"
  date :: "string option"

record calendar_event =
  e_id :: "string option"
  e_summary :: "string option"
  e_description :: "string option"
  e_status :: "string option"
  e_location :: "string option"
  e_start :: "event_start option"

text \<open>
  The answer to \<^verbatim>\<open>events.list\<close>: the events, or none; \<open>Inl\<close> when the call rejects.
  The request carries \<^verbatim>\<open>timeMin\<close>, a reading of the clock.
\<close>

type_synonym calendar_remote = "error + calendar_event list option"

definition start_string :: "calendar_event \<Rightarrow> string" where
  "start_string ev =
     or_default
       (or_else (case e_start ev of None \<Rightarrow> None | Some s \<Rightarrow> dateTime s)
                (case e_start ev of None \<Rightarrow> None | Some s \<Rightarrow> date s)) []"

definition calendar_body ::
  "validator \<Rightarrow> string \<Rightarrow> calendar_event \<Rightarrow> nat \<Rightarrow> world \<Rightarrow> (error + nat) \<times> world" where
  "calendar_body valid userId ev count w =
     (case WorkItemModel_findOne userId GoogleId (e_id ev) w of
        (Some existing, w1) \<Rightarrow> (Inr count, w1)
      | (None, w1) \<Rightarrow>
          materialize valid userId (Some (DateOfString (start_string ev)))
            (\<lambda>externalThreadId timestamp.
               \<lparr>i_userId = userId,
                i_type = Calendar,
                i_title = or_default (e_summary ev) ''Meeting'',
                i_source = ''Google Calendar'',
                i_timestamp = timestamp,
                i_preview = or_default (e_description ev) [],
                i_isRead = False,
                i_priority = JStr ''medium'',
                i_threadId = externalThreadId,
                i_metadata =
                  \<lparr>googleId = e_id ev,
                   microsoftId = None,
                   extra = [(''status'', opt_str (e_status ev)),
                            (''location'', opt_str (e_location ev))]\<rparr>\<rparr>)
            False count w1)"

definition syncCalendar_try ::
  "validator \<Rightarrow> calendar_remote \<Rightarrow> string \<times> string option \<Rightarrow> string \<Rightarrow> world \<Rightarrow> (error + nat) \<times> world" where
  "syncCalendar_try valid calendar auth userId w =
     (case new_Date w of
        (timeMin, w0) \<Rightarrow>
          (case calendar of
             Inl e \<Rightarrow> (Inl e, log_event (CalendarEventsList (fst auth) (snd auth) timeMin) w0)
           | Inr res \<Rightarrow>
               for_of (calendar_body valid userId)
                 (case res of None \<Rightarrow> [] | Some events \<Rightarrow> events) 0
                 (log_event (CalendarEventsList (fst auth) (snd auth) timeMin) w0)))"

definition syncCalendar ::
  "validator \<Rightarrow> calendar_remote \<Rightarrow> string \<Rightarrow> string option \<Rightarrow> world \<Rightarrow> nat \<times> world" where
  "syncCalendar valid calendar userId overrideAccessToken w =
     (case UserModel_findById userId w of
        None \<Rightarrow> (0, w)
      | Some u \<Rightarrow>
          (case or_else overrideAccessToken (token_of (google_of u) accessToken) of
             None \<Rightarrow> (0, w)
           | Some tok \<Rightarrow>
               if tok = [] then (0, w)
               else
                 (case syncCalendar_try valid calendar
                         (tok, token_of (google_of u) refreshToken) userId w of
                    (Inl e, w1) \<Rightarrow> (0, w1)
                  | (Inr count, w1) \<Rightarrow> (count, w1))))"

subsection \<open>Tasks\<close>

record task_list =
  l_id :: "string option"
  l_title :: "string option"

record task =
  k_id :: "string option"
  k_title :: "string option"
  k_due :: "string option"
  k_notes :: "string option"
  k_status :: "string option"

text \<open>
  The answers to \<^verbatim>\<open>tasklists.list\<close> and, for the id of a list, to \<^verbatim>\<open>tasks.list\<close>.
\<close>

record tasks_remote =
  tasklists_list :: "error + task_list list option"
  tasks_list :: "string option \<Rightarrow> error + task list option"

definition task_body ::
  "validator \<Rightarrow> string \<Rightarrow> task_list \<Rightarrow> task \<Rightarrow> nat \<Rightarrow> world \<Rightarrow> (error + nat) \<times> world" where
  "task_body valid userId lst tk count w =
     (case WorkItemModel_findOne userId GoogleId (k_id tk) w of
        (Some existing, w1) \<Rightarrow> (Inr count, w1)
      | (None, w1) \<Rightarrow>
          materialize valid userId
            (if str_truthy (k_due tk) then Some (DateOfString (the (k_due tk))) else None)
            (\<lambda>externalThreadId timestamp.
               \<lparr>i_userId = userId,
                i_type = Task,
                i_title = or_default (k_title tk) ''Untitled Task'',
                i_source = ''Google Tasks: '' @ template_str (l_title lst),
                i_timestamp = timestamp,
                i_preview = or_default (k_notes tk) [],
                i_isRead = False,
                i_priority = JStr ''medium'',
                i_threadId = externalThreadId,
                i_metadata =
                  \<lparr>googleId = k_id tk,
                   microsoftId = None,
                   extra = [(''listId'', opt_str (l_id lst)),
                            (''status'', opt_str (k_status tk))]\<rparr>\<rparr>)
            False count w1)"

definition tasklist_body ::
  "validator \<Rightarrow> tasks_remote \<Rightarrow> string \<times> string option \<Rightarrow> string \<Rightarrow> task_list \<Rightarrow> nat \<Rightarrow> world \<Rightarrow>
     (error + nat) \<times> world" where
  "tasklist_body valid tasks auth userId lst count w =
     (case tasks_list tasks (l_id lst) of
        Inl e \<Rightarrow> (Inl e, log_event (TasksList (fst auth) (snd auth) (l_id lst)) w)
      | Inr res \<Rightarrow>
          for_of (task_body valid userId lst)
            (case res of None \<Rightarrow> [] | Some taskItems \<Rightarrow> taskItems) count
            (log_event (TasksList (fst auth) (snd auth) (l_id lst)) w))"

definition syncTasks_try ::
  "validator \<Rightarrow> tasks_remote \<Rightarrow> string \<times> string option \<Rightarrow> string \<Rightarrow> world \<Rightarrow> (error + nat) \<times> world" where
  "syncTasks_try valid tasks auth userId w =
     (case tasklists_list tasks of
        Inl e \<Rightarrow> (Inl e, log_event (TasklistsList (fst auth) (snd auth)) w)
      | Inr res \<Rightarrow>
          for_of (tasklist_body valid tasks auth userId)
            (case res of None \<Rightarrow> [] | Some taskLists \<Rightarrow> taskLists) 0
            (log_event (TasklistsList (fst auth) (snd auth)) w))"

definition syncTasks ::
  "validator \<Rightarrow> tasks_remote \<Rightarrow> string \<Rightarrow> string option \<Rightarrow> world \<Rightarrow> nat \<times> world" where
  "syncTasks valid tasks userId overrideAccessToken w =
     (case UserModel_findById userId w of
        None \<Rightarrow> (0, w)
      | Some u \<Rightarrow>
          (case or_else overrideAccessToken (token_of (google_of u) accessToken) of
             None \<Rightarrow> (0, w)
           | Some tok \<Rightarrow>
               if tok = [] then (0, w)
               else
                 (case syncTasks_try valid tasks
                         (tok, token_of (google_of u) refreshToken) userId w of
                    (Inl e, w1) \<Rightarrow> (0, w1)
                  | (Inr count, w1) \<Rightarrow> (count, w1))))"

subsection \<open>Teams\<close>

record message_body =
  content :: "string option"

record message_preview =
  p_id :: "string option"
  p_body :: "message_body option"
  p_displayName :: "string option"
  p_createdDateTime :: "string option"

record chat =
  c_id :: "string option"
  c_topic :: "string option"
  c_chatType :: "string option"
  c_webUrl :: "string option"
  c_lastMessagePreview :: "message_preview option"

text \<open>
  The answer of \<^verbatim>\<open>fetch\<close>: \<^verbatim>\<open>ok\<close>, \<^verbatim>\<open>status\<close>, the body as \<^verbatim>\<open>text()\<close> gives it and
  the \<^verbatim>\<open>value\<close> of the body as \<^verbatim>\<open>json()\<close> gives it (\<open>Inl\<close> when that raises).
  \<open>p_displayName\<close> is \<^verbatim>\<open>from?.user?.displayName\<close>.
\<close>

record http_response =
  r_ok :: bool
  r_status :: nat
  r_text :: string
  r_json :: "error + chat list option"

type_synonym teams_remote = "error + http_response"

definition chat_title :: "chat \<Rightarrow> message_preview \<Rightarrow> string" where
  "chat_title ch lastMessage =
     (if \<not> str_truthy (c_topic ch) \<and> c_chatType ch = Some ''oneOnOne''
      then or_default (p_displayName lastMessage) ''Teams Chat''
      else if \<not> str_truthy (c_topic ch) then ''Group Chat''
      else the (c_topic ch))"

definition teams_body ::
  "validator \<Rightarrow> string \<Rightarrow> chat \<Rightarrow> nat \<Rightarrow> world \<Rightarrow> (error + nat) \<times> world" where
  "teams_body valid userId ch count w =
     (case c_lastMessagePreview ch of
        None \<Rightarrow> (Inr count, w)
      | Some lastMessage \<Rightarrow>
          (case p_body lastMessage of
             None \<Rightarrow> (Inr count, w)
           | Some body \<Rightarrow>
               if \<not> str_truthy (content body) then (Inr count, w)
               else
                 (case WorkItemModel_findOne userId MicrosoftId (p_id lastMessage) w of
                    (Some existing, w1) \<Rightarrow> (Inr count, w1)
                  | (None, w1) \<Rightarrow>
                      materialize valid userId
                        (if str_truthy (p_createdDateTime lastMessage)
                         then Some (DateOfString (the (p_createdDateTime lastMessage)))
                         else None)
                        (\<lambda>externalThreadId timestamp.
                           \<lparr>i_userId = userId,
                            i_type = Message,
                            i_title = chat_title ch lastMessage,
                            i_source = ''Microsoft Teams'',
                            i_timestamp = timestamp,
                            i_preview = the (content body),
                            i_isRead = False,
                            i_priority = JStr ''medium'',
                            i_threadId = externalThreadId,
                            i_metadata =
                              \<lparr>googleId = None,
                               microsoftId = p_id lastMessage,
                               extra = [(''chatId'', opt_str (c_id ch)),
                                        (''webUrl'', opt_str (c_webUrl ch))]\<rparr>\<rparr>)
                        False count w1)))"

text \<open>
  The body of the \<^verbatim>\<open>try\<close> block of \<^verbatim>\<open>syncTeams\<close>. The status 401 returns 0 from
  inside the block (\<open>Inr 0\<close> here); any other non-success status throws.
\<close>

definition syncTeams_try ::
  "validator \<Rightarrow> teams_remote \<Rightarrow> string \<Rightarrow> string \<Rightarrow> user \<Rightarrow> world \<Rightarrow> (error + nat) \<times> world" where
  "syncTeams_try valid teams accessTok userId u w =
     (case teams of
        Inl e \<Rightarrow> (Inl e, log_event (GraphChats accessTok) w)
      | Inr response \<Rightarrow>
          if \<not> r_ok response then
            (if r_status response = 401 then (Inr 0, log_event (GraphChats accessTok) w)
             else (Inl (GraphApiError (r_status response) (r_text response)),
                   log_event (GraphChats accessTok) w))
          else
            (case r_json response of
               Inl e \<Rightarrow> (Inl e, log_event (GraphChats accessTok) w)
             | Inr data \<Rightarrow>
                 (case for_of (teams_body valid userId)
                         (case data of None \<Rightarrow> [] | Some chats \<Rightarrow> chats) 0
                         (log_event (GraphChats accessTok) w) of
                    (Inl e, w1) \<Rightarrow> (Inl e, w1)
                  | (Inr count, w1) \<Rightarrow>
                      (case microsoft_of u of
                         Some m \<Rightarrow>
                           (case new_Date w1 of
                              (now, w2) \<Rightarrow> (Inr count, update_user userId (stamp_microsoft now) w2))
                       | None \<Rightarrow> (Inr count, w1)))))"

definition syncTeams ::
  "validator \<Rightarrow> teams_remote \<Rightarrow> string \<Rightarrow> string option \<Rightarrow> world \<Rightarrow> nat \<times> world" where
  "syncTeams valid teams userId overrideAccessToken w =
     (case UserModel_findById userId w of
        None \<Rightarrow> (0, w)
      | Some u \<Rightarrow>
          (case or_else overrideAccessToken (token_of (microsoft_of u) accessToken) of
             None \<Rightarrow> (0, w)
           | Some tok \<Rightarrow>
               if tok = [] then (0, w)
               else
                 (case syncTeams_try valid teams tok userId u w of
                    (Inl e, w1) \<Rightarrow> (0, w1)
                  | (Inr count, w1) \<Rightarrow> (count, w1))))"

section \<open>The entry points as their caller sees them\<close>

text \<open>
  In each of the four entry points the statement \<^verbatim>\<open>const user = await UserModel.findById(userId)\<close>
  (lines 79, 178, 248 and 320) stands before the \<^verbatim>\<open>try\<close> block (lines 94, 190, 260 and 331),
  so nothing catches its rejection: the promise returned by the entry point rejects with the
  same error, and nothing has been written. Once the lookup has resolved, the call goes on as
  \<open>syncGmail\<close>, \<open>syncCalendar\<close>, \<open>syncTasks\<close> and \<open>syncTeams\<close> above, which work on the
  resolved user and whose \<^verbatim>\<open>catch\<close> turns every error of the \<^verbatim>\<open>try\<close> block into the return
  value 0. The result of a call is \<open>Inl\<close> of the error when the call rejects and \<open>Inr\<close> of
  the returned count otherwise.
\<close>

definition syncGmail_call :: "error option \<Rightarrow> validator \<Rightarrow> json_parser \<Rightarrow> generator \<Rightarrow> gmail_remote \<Rightarrow>
    string \<Rightarrow> string option \<Rightarrow> world \<Rightarrow> (error + nat) \<times> world" where
  "syncGmail_call fault valid JSON_parse generateContent gmail userId overrideAccessToken w =
     (case UserModel_findById_await fault userId w of
        Inl e \<Rightarrow> (Inl e, w)
      | Inr found \<Rightarrow>
          (case syncGmail valid JSON_parse generateContent gmail userId overrideAccessToken w of
             (count, w1) \<Rightarrow> (Inr count, w1)))"

definition syncCalendar_call :: "error option \<Rightarrow> validator \<Rightarrow> calendar_remote \<Rightarrow>
    string \<Rightarrow> string option \<Rightarrow> world \<Rightarrow> (error + nat) \<times> world" where
  "syncCalendar_call fault valid calendar userId overrideAccessToken w =
     (case UserModel_findById_await fault userId w of
        Inl e \<Rightarrow> (Inl e, w)
      | Inr found \<Rightarrow>
          (case syncCalendar valid calendar userId overrideAccessToken w of
             (count, w1) \<Rightarrow> (Inr count, w1)))"

definition syncTasks_call :: "error option \<Rightarrow> validator \<Rightarrow> tasks_remote \<Rightarrow>
    string \<Rightarrow> string option \<Rightarrow> world \<Rightarrow> (error + nat) \<times> world" where
  "syncTasks_call fault valid tasks userId overrideAccessToken w =
     (case UserModel_findById_await fault userId w of
        Inl e \<Rightarrow> (Inl e, w)
      | Inr found \<Rightarrow>
          (case syncTasks valid tasks userId overrideAccessToken w of
             (count, w1) \<Rightarrow> (Inr count, w1)))"

definition syncTeams_call :: "error option \<Rightarrow> validator \<Rightarrow> teams_remote \<Rightarrow>
    string \<Rightarrow> string option \<Rightarrow> world \<Rightarrow> (error + nat) \<times> world" where
  "syncTeams_call fault valid teams userId overrideAccessToken w =
     (case UserModel_findById_await fault userId w of
        Inl e \<Rightarrow> (Inl e, w)
      | Inr found \<Rightarrow>
          (case syncTeams valid teams userId overrideAccessToken w of
             (count, w1) \<Rightarrow> (Inr count, w1)))"

section \<open>Properties of worlds\<close>

text \<open>
  The pairs \<open>(userId, provider-native id)\<close> of the stored items that carry an id under
  the field, in the order of the items.
\<close>

definition key_pairs :: "id_field \<Rightarrow> world \<Rightarrow> (string \<times> string) list" where
  "key_pairs f w =
     List.map_filter (\<lambda>i. map_option (Pair (i_userId (item_data i))) (md_key f i)) (items w)"

definition unique_ids :: "world \<Rightarrow> bool" where
  "unique_ids w = (distinct (key_pairs GoogleId w) \<and> distinct (key_pairs MicrosoftId w))"

text \<open>
  Document ids are fresh: thread ids are distinct, and every id in use is below the next
  id the database hands out.
\<close>

definition well_formed :: "world \<Rightarrow> bool" where
  "well_formed w =
     (distinct (map t_id (threads w)) \<and>
      list_all (\<lambda>t. t_id t < next_id w \<and> list_all (\<lambda>i. i < next_id w) (t_itemIds t)) (threads w) \<and>
      list_all (\<lambda>i. item_id i < next_id w) (items w))"

text \<open>Two worlds hold the same items and threads.\<close>

definition same_db :: "world \<Rightarrow> world \<Rightarrow> bool" where
  "same_db w w' = (items w' = items w \<and> threads w' = threads w)"

text \<open>
  The thread and the timestamp the common tail of the loop bodies passes to
  \<^verbatim>\<open>createItem\<close> in a world.
\<close>

definition import_thread :: "string \<Rightarrow> world \<Rightarrow> nat" where
  "import_thread userId w = fst (getOrCreateExternalThread userId w)"

definition import_date :: "string \<Rightarrow> js_date option \<Rightarrow> world \<Rightarrow> js_date" where
  "import_date userId ts w =
     (case ts of Some d \<Rightarrow> d
      | None \<Rightarrow> DateOfClock (clock (snd (getOrCreateExternalThread userId w))))"

section \<open>Sample data\<close>

text \<open>Concrete users, worlds and remote answers on which the theorems are instantiated.\<close>

definition user_without_tokens :: user where
  "user_without_tokens =
     \<lparr>user_id = ''u1'',
      u_integrations = Some \<lparr>google = Some \<lparr>accessToken = None, refreshToken = Some ''r'',
                                             lastSync = None, connected = False\<rparr>,
                             microsoft = None\<rparr>\<rparr>"

definition world_without_tokens :: world where
  "world_without_tokens =
     \<lparr>users = [user_without_tokens], items = [], threads = [], clock = 0, next_id = 0, trace = []\<rparr>"

definition alice :: user where
  "alice =
     \<lparr>user_id = ''alice'',
      u_integrations =
        Some \<lparr>google = Some \<lparr>accessToken = Some ''g-token'', refreshToken = Some ''g-refresh'',
                             lastSync = Some 5, connected = True\<rparr>,
              microsoft = Some \<lparr>accessToken = Some ''m-token'', refreshToken = None,
                                lastSync = Some 6, connected = True\<rparr>\<rparr>\<rparr>"

definition alice_world :: world where
  "alice_world =
     \<lparr>users = [alice], items = [], threads = [], clock = 10, next_id = 100, trace = []\<rparr>"

definition accept_all :: validator where
  "accept_all inp = True"

definition standup :: calendar_event where
  "standup =
     \<lparr>e_id = Some ''ev-1'', e_summary = Some ''Standup'', e_description = None,
      e_status = Some ''confirmed'', e_location = None,
      e_start = Some \<lparr>dateTime = Some ''2026-01-05T09:00:00Z'', date = None\<rparr>\<rparr>"

definition inbox_list :: task_list where
  "inbox_list = \<lparr>l_id = Some ''list-1'', l_title = Some ''Inbox''\<rparr>"

definition write_report :: task where
  "write_report =
     \<lparr>k_id = Some ''task-1'', k_title = Some ''Write report'', k_due = None, k_notes = None,
      k_status = Some ''needsAction''\<rparr>"

definition one_list_tasks :: tasks_remote where
  "one_list_tasks =
     \<lparr>tasklists_list = Inr (Some [inbox_list]), tasks_list = (\<lambda>i. Inr (Some [write_report]))\<rparr>"

definition empty_gmail :: gmail_remote where
  "empty_gmail = \<lparr>messages_list = Inr (Some []), messages_get = (\<lambda>i. Inl (RemoteFailure ''not found''))\<rparr>"

definition no_chats :: teams_remote where
  "no_chats = Inr \<lparr>r_ok = True, r_status = 200, r_text = [], r_json = Inr (Some [])\<rparr>"

definition google_lastSyncs :: "world \<Rightarrow> nat option list" where
  "google_lastSyncs w = map (\<lambda>u. case google_of u of None \<Rightarrow> None | Some g \<Rightarrow> lastSync g) (users w)"

definition microsoft_lastSyncs :: "world \<Rightarrow> nat option list" where
  "microsoft_lastSyncs w = map (\<lambda>u. case microsoft_of u of None \<Rightarrow> None | Some g \<Rightarrow> lastSync g) (users w)"

definition silent_chat :: chat where
  "silent_chat =
     \<lparr>c_id = Some ''chat-0'', c_topic = Some ''Lunch'', c_chatType = Some ''group'',
      c_webUrl = None, c_lastMessagePreview = None\<rparr>"

definition hello_chat :: chat where
  "hello_chat =
     \<lparr>c_id = Some ''chat-1'', c_topic = None, c_chatType = Some ''oneOnOne'',
      c_webUrl = None,
      c_lastMessagePreview =
        Some \<lparr>p_id = Some ''msg-1'', p_body = Some \<lparr>content = Some ''hello''\<rparr>,
               p_displayName = Some ''Bob'', p_createdDateTime = Some ''2026-01-05T10:00:00Z''\<rparr>\<rparr>"

definition chats_response :: "chat list \<Rightarrow> http_response" where
  "chats_response chats = \<lparr>r_ok = True, r_status = 200, r_text = [], r_json = Inr (Some chats)\<rparr>"

text \<open>
  The counter of a loop and the stored items move together: from counter \<open>k\<close> in
  world \<open>w\<close> to counter \<open>k'\<close> in world \<open>w'\<close>, as many items were added as the
  counter grew.
\<close>

definition counted :: "nat \<Rightarrow> world \<Rightarrow> nat \<Rightarrow> world \<Rightarrow> bool" where
  "counted k w k' w' = (k \<le> k' \<and> length (items w') = length (items w) + (k' - k))"

text \<open>
  A schema in the manner of the item model: the priority is one of the three levels, the
  timestamp is not a date built from nothing, the preview has at most twenty characters.
\<close>

definition schema_valid :: validator where
  "schema_valid inp =
     ((i_priority inp = JStr ''high'' \<or> i_priority inp = JStr ''medium'' \<or> i_priority inp = JStr ''low'') \<and>
      i_timestamp inp \<noteq> DateOfString [] \<and> i_timestamp inp \<noteq> DateOfMillis None \<and>
      length (i_preview inp) \<le> 20)"

definition undated :: calendar_event where
  "undated =
     \<lparr>e_id = Some ''ev-2'', e_summary = Some ''Someday'', e_description = None,
      e_status = None, e_location = None, e_start = None\<rparr>"

definition urgent_mail :: gmail_details where
  "urgent_mail =
     \<lparr>d_headers = Some [(''From'', ''carol@example.com''), (''Subject'', ''Server down'')],
      d_internalDate = Some ''1767600000000'', d_snippet = Some ''Please look'',
      d_threadId = Some ''t-1''\<rparr>"

definition flaky_gmail :: gmail_remote where
  "flaky_gmail =
     \<lparr>messages_list = Inr (Some [Some ''m-1'', Some ''m-2'']),
      messages_get = (\<lambda>i. if i = Some ''m-1'' then Inr urgent_mail else Inl (RemoteFailure ''503''))\<rparr>"

definition work_high :: jsval where
  "work_high = JObj [(''isWork'', JBool True), (''priority'', JStr ''high''), (''reason'', JStr ''outage'')]"

definition sample_parse :: json_parser where
  "sample_parse s = (if s = ''{work}'' then Some work_high
                     else if s = ''{}'' then Some (JObj []) else None)"

definition always_work :: generator where
  "always_work subject sender snippet = Inr (Some ''Sure: {work}'')"

definition broken_list :: task_list where
  "broken_list = \<lparr>l_id = Some ''list-2'', l_title = Some ''Archive''\<rparr>"

definition flaky_tasks :: tasks_remote where
  "flaky_tasks =
     \<lparr>tasklists_list = Inr (Some [inbox_list, broken_list]),
      tasks_list = (\<lambda>i. if i = Some ''list-1'' then Inr (Some [write_report])
                         else Inl (RemoteFailure ''503''))\<rparr>"

definition long_chat :: chat where
  "long_chat =
     \<lparr>c_id = Some ''chat-2'', c_topic = Some ''Release'', c_chatType = Some ''group'',
      c_webUrl = None,
      c_lastMessagePreview =
        Some \<lparr>p_id = Some ''msg-2'',
               p_body = Some \<lparr>content = Some ''a message of more than twenty characters''\<rparr>,
               p_displayName = None, p_createdDateTime = None\<rparr>\<rparr>"

text \<open>
  From world \<open>w\<close> to world \<open>w'\<close> the stored items were only added to, every thread
  of \<open>w\<close> is still at its place with its id, and its priority is the same or
  \<^verbatim>\<open>high\<close>; in the second case an added item has priority \<^verbatim>\<open>high\<close>.
\<close>

definition priority_raised_only :: "world \<Rightarrow> world \<Rightarrow> bool" where
  "priority_raised_only w w' =
     (prefix (items w) (items w') \<and>
      length (threads w) \<le> length (threads w') \<and>
      list_all2
        (\<lambda>t t'. t_id t' = t_id t \<and>
           (t_priority t' = t_priority t \<or>
            t_priority t' = ''high'' \<and>
            list_ex (\<lambda>it. i_priority (item_data it) = JStr ''high'')
              (drop (length (items w)) (items w'))))
        (threads w) (take (length (threads w)) (threads w')))"

definition imports_thread :: work_thread where
  "imports_thread =
     \<lparr>t_id = 1, t_userId = ''alice'', t_title = ''External Imports'', t_description = [],
      t_priority = ''low'', t_progress = 0, t_lastActivity = 3, t_itemIds = []\<rparr>"

definition roadmap_thread :: work_thread where
  "roadmap_thread =
     \<lparr>t_id = 2, t_userId = ''alice'', t_title = ''Roadmap'', t_description = [],
      t_priority = ''medium'', t_progress = 40, t_lastActivity = 4, t_itemIds = []\<rparr>"

definition busy_world :: world where
  "busy_world =
     \<lparr>users = [alice], items = [], threads = [imports_thread, roadmap_thread], clock = 10,
      next_id = 100, trace = []\<rparr>"

definition one_mail_gmail :: gmail_remote where
  "one_mail_gmail =
     \<lparr>messages_list = Inr (Some [Some ''m-1'']), messages_get = (\<lambda>i. Inr urgent_mail)\<rparr>"

text \<open>
  From world \<open>w\<close> to world \<open>w'\<close> exactly one item was added; it belongs to the
  user, and the thread its \<^verbatim>\<open>threadId\<close> names is stored, is the user's External Imports
  thread, lists the item's id exactly once, and has a \<^verbatim>\<open>lastActivity\<close> read from the
  clock between the two worlds.
\<close>

definition item_filed :: "string \<Rightarrow> world \<Rightarrow> world \<Rightarrow> bool" where
  "item_filed userId w w' =
     (case drop (length (items w)) (items w') of
        [newItem] \<Rightarrow>
          take (length (items w)) (items w') = items w \<and>
          i_userId (item_data newItem) = userId \<and>
          (case WorkThreadModel_findById (i_threadId (item_data newItem)) w' of
             None \<Rightarrow> False
           | Some th \<Rightarrow>
               t_userId th = userId \<and> t_title th = ''External Imports'' \<and>
               count_list (t_itemIds th) (item_id newItem) = 1 \<and>
               clock w \<le> t_lastActivity th \<and> t_lastActivity th < clock w')
      | _ \<Rightarrow> False)"

text \<open>
  A call of one of the four entry points with its arguments and the answers of the remote
  services, and a sequence of such calls, each started in the world the one before left.
\<close>

datatype invocation =
    SyncGmail validator json_parser generator gmail_remote string "string option"
  | SyncCalendar validator calendar_remote string "string option"
  | SyncTasks validator tasks_remote string "string option"
  | SyncTeams validator teams_remote string "string option"

fun run :: "invocation \<Rightarrow> world \<Rightarrow> nat \<times> world" where
  "run (SyncGmail valid JSON_parse generateContent gmail userId ov) w =
     syncGmail valid JSON_parse generateContent gmail userId ov w"
| "run (SyncCalendar valid calendar userId ov) w = syncCalendar valid calendar userId ov w"
| "run (SyncTasks valid tasks userId ov) w = syncTasks valid tasks userId ov w"
| "run (SyncTeams valid teams userId ov) w = syncTeams valid teams userId ov w"

fun run_all :: "invocation list \<Rightarrow> world \<Rightarrow> world" where
  "run_all [] w = w"
| "run_all (i # rest) w = run_all rest (snd (run i w))"

subsection \<open>Notions for a repeated cycle\<close>




section \<open>Properties of the response parsing\<close>

lemma greedy_close_None: "greedy_close r = None \<longleftrightarrow> CHR ''}'' \<notin> set r"
  by (induction r) (auto split: option.splits)

lemma greedy_close_Some:
  "greedy_close r = Some m \<longleftrightarrow>
     (\<exists>body post. r = body @ CHR ''}'' # post \<and> CHR ''}'' \<notin> set post \<and> m = body @ [CHR ''}''])"
proof (induction r arbitrary: m)
  case Nil
  then show ?case by simp
next
  case (Cons c cs)
  show ?case
  proof (cases "greedy_close cs")
    case None
    then have no: "CHR ''}'' \<notin> set cs" by (simp add: greedy_close_None)
    show ?thesis
    proof (cases "c = CHR ''}''")
      case True
      have "(\<exists>body post. c # cs = body @ CHR ''}'' # post \<and> CHR ''}'' \<notin> set post \<and> m = body @ [CHR ''}''])
              \<longleftrightarrow> m = [CHR ''}'']"
      proof
        assume "\<exists>body post. c # cs = body @ CHR ''}'' # post \<and> CHR ''}'' \<notin> set post \<and> m = body @ [CHR ''}'']"
        then obtain body post where
          e: "c # cs = body @ CHR ''}'' # post" and m: "m = body @ [CHR ''}'']" by blast
        have "body = []"
        proof (cases body)
          case Nil then show ?thesis .
        next
          case (Cons b bs)
          with e have "cs = bs @ CHR ''}'' # post" by simp
          with no show ?thesis by simp
        qed
        with m show "m = [CHR ''}'']" by simp
      next
        assume "m = [CHR ''}'']"
        with True no show "\<exists>body post. c # cs = body @ CHR ''}'' # post \<and> CHR ''}'' \<notin> set post \<and> m = body @ [CHR ''}'']"
          by (intro exI[of _ "[]"] exI[of _ cs]) simp
      qed
      with None True show ?thesis by auto
    next
      case False
      have "\<not> (\<exists>body post. c # cs = body @ CHR ''}'' # post \<and> CHR ''}'' \<notin> set post \<and> m = body @ [CHR ''}''])"
      proof
        assume "\<exists>body post. c # cs = body @ CHR ''}'' # post \<and> CHR ''}'' \<notin> set post \<and> m = body @ [CHR ''}'']"
        then obtain body post where e: "c # cs = body @ CHR ''}'' # post" by blast
        then have "CHR ''}'' \<in> set (c # cs)" by simp
        with False no show False by simp
      qed
      with None False show ?thesis by simp
    qed
  next
    case (Some m')
    with Cons.IH[of m'] obtain body post where
      cs: "cs = body @ CHR ''}'' # post" and post: "CHR ''}'' \<notin> set post"
      and m': "m' = body @ [CHR ''}'']" by auto
    have "(\<exists>b p. c # cs = b @ CHR ''}'' # p \<and> CHR ''}'' \<notin> set p \<and> m = b @ [CHR ''}''])
            \<longleftrightarrow> m = c # m'"
    proof
      assume "\<exists>b p. c # cs = b @ CHR ''}'' # p \<and> CHR ''}'' \<notin> set p \<and> m = b @ [CHR ''}'']"
      then obtain b p where e: "c # cs = b @ CHR ''}'' # p" and p: "CHR ''}'' \<notin> set p"
        and m: "m = b @ [CHR ''}'']" by blast
      show "m = c # m'"
      proof (cases b)
        case Nil
        with e have "cs = p" by simp
        with p cs show ?thesis by simp
      next
        case (Cons x b')
        with e have c: "x = c" and "cs = b' @ CHR ''}'' # p" by simp_all
        then have "greedy_close cs = Some (b' @ [CHR ''}''])"
          using Cons.IH[of "b' @ [CHR ''}'']"] p by blast
        with Some have "m' = b' @ [CHR ''}'']" by simp
        with m Cons c show ?thesis by simp
      qed
    next
      assume "m = c # m'"
      with cs post m' show "\<exists>b p. c # cs = b @ CHR ''}'' # p \<and> CHR ''}'' \<notin> set p \<and> m = b @ [CHR ''}'']"
        by (intro exI[of _ "c # body"] exI[of _ post]) simp
    qed
    with Some show ?thesis by auto
  qed
qed

lemma jsonMatch_Some:
  assumes "CHR ''{'' \<notin> set pre" and "CHR ''}'' \<notin> set post"
  shows "jsonMatch (pre @ CHR ''{'' # body @ CHR ''}'' # post) = Some (CHR ''{'' # body @ [CHR ''}''])"
  using assms(1)
proof (induction pre)
  case Nil
  have "greedy_close (body @ CHR ''}'' # post) = Some (body @ [CHR ''}''])"
    using assms(2) greedy_close_Some by blast
  then show ?case by simp
next
  case (Cons c pre)
  then have "c \<noteq> CHR ''{''" by auto
  with Cons show ?case by simp
qed

lemma jsonMatch_Cons_None: "jsonMatch (c # cs) = None \<Longrightarrow> jsonMatch cs = None"
  by (simp split: if_splits option.splits)

lemma jsonMatch_None:
  "jsonMatch t = None \<longleftrightarrow> \<not> (\<exists>a b c. t = a @ CHR ''{'' # b @ CHR ''}'' # c)"
proof (induction t)
  case Nil
  then show ?case by simp
next
  case (Cons x xs)
  show ?case
  proof
    assume none: "jsonMatch (x # xs) = None"
    show "\<not> (\<exists>a b c. x # xs = a @ CHR ''{'' # b @ CHR ''}'' # c)"
    proof
      assume "\<exists>a b c. x # xs = a @ CHR ''{'' # b @ CHR ''}'' # c"
      then obtain a b c where e: "x # xs = a @ CHR ''{'' # b @ CHR ''}'' # c" by blast
      show False
      proof (cases a)
        case Nil
        with e have x: "x = CHR ''{''" and xs: "xs = b @ CHR ''}'' # c" by simp_all
        from xs have "CHR ''}'' \<in> set xs" by simp
        then have "greedy_close xs \<noteq> None" by (simp add: greedy_close_None)
        with x none show False by (auto split: option.splits)
      next
        case (Cons y a')
        with e have "xs = a' @ CHR ''{'' # b @ CHR ''}'' # c" by simp
        with Cons.IH have "jsonMatch xs \<noteq> None" by blast
        with jsonMatch_Cons_None[OF none] show False by simp
      qed
    qed
  next
    assume no: "\<not> (\<exists>a b c. x # xs = a @ CHR ''{'' # b @ CHR ''}'' # c)"
    have tail: "jsonMatch xs = None"
    proof -
      have "\<not> (\<exists>a b c. xs = a @ CHR ''{'' # b @ CHR ''}'' # c)"
      proof
        assume "\<exists>a b c. xs = a @ CHR ''{'' # b @ CHR ''}'' # c"
        then obtain a b c where "xs = a @ CHR ''{'' # b @ CHR ''}'' # c" by blast
        then have "x # xs = (x # a) @ CHR ''{'' # b @ CHR ''}'' # c" by simp
        with no show False by blast
      qed
      with Cons.IH show ?thesis by simp
    qed
    show "jsonMatch (x # xs) = None"
    proof (cases "x = CHR ''{''")
      case False
      with tail show ?thesis by simp
    next
      case True
      have "greedy_close xs = None"
      proof (rule ccontr)
        assume "greedy_close xs \<noteq> None"
        then obtain m where "greedy_close xs = Some m" by blast
        then obtain b p where "xs = b @ CHR ''}'' # p"
          using greedy_close_Some by blast
        with True have "x # xs = [] @ CHR ''{'' # b @ CHR ''}'' # p" by simp
        with no show False by blast
      qed
      with True tail show ?thesis by simp
    qed
  qed
qed

text \<open>
  C4. \<^verbatim>\<open>classifyAndPrioritizeEmail\<close> never raises: its result is a value for every
  generator and decoder, and it is exactly the fallback judgment
  \<^verbatim>\<open>{isWork: true, priority: 'medium'}\<close> when the text-generation call throws, when the
  reply carries no text, when the response text has no opening brace followed later by a
  closing brace, and when the extracted substring fails to decode.
\<close>

theorem classify_fallback_on_failure:
  "(generateContent subject sender snippet = Inl e \<longrightarrow>
      classify JSON_parse generateContent subject sender snippet = fallback) \<and>
   (generateContent subject sender snippet = Inr None \<longrightarrow>
      classify JSON_parse generateContent subject sender snippet = fallback) \<and>
   (generateContent subject sender snippet = Inr (Some text) \<and>
      \<not> (\<exists>a b c. text = a @ CHR ''{'' # b @ CHR ''}'' # c) \<longrightarrow>
      classify JSON_parse generateContent subject sender snippet = fallback) \<and>
   (generateContent subject sender snippet = Inr (Some text) \<and>
      jsonMatch text = Some m \<and> JSON_parse m = None \<longrightarrow>
      classify JSON_parse generateContent subject sender snippet = fallback)"
proof (intro conjI impI)
  assume "generateContent subject sender snippet = Inl e"
  then show "classify JSON_parse generateContent subject sender snippet = fallback"
    by (simp add: classify_def classify_try_def)
next
  assume "generateContent subject sender snippet = Inr None"
  then show "classify JSON_parse generateContent subject sender snippet = fallback"
    by (simp add: classify_def classify_try_def)
next
  assume a: "generateContent subject sender snippet = Inr (Some text) \<and>
      \<not> (\<exists>a b c. text = a @ CHR ''{'' # b @ CHR ''}'' # c)"
  then have "jsonMatch text = None" using jsonMatch_None by blast
  with a show "classify JSON_parse generateContent subject sender snippet = fallback"
    by (simp add: classify_def classify_try_def)
next
  assume "generateContent subject sender snippet = Inr (Some text) \<and>
      jsonMatch text = Some m \<and> JSON_parse m = None"
  then show "classify JSON_parse generateContent subject sender snippet = fallback"
    by (simp add: classify_def classify_try_def)
qed

theorem classify_fallback_on_failure_witness:
  "classify (\<lambda>s. None) (\<lambda>a b c. Inl (RemoteFailure ''timeout'')) ''s'' ''f'' ''p'' = fallback \<and>
   classify (\<lambda>s. None) (\<lambda>a b c. Inr None) ''s'' ''f'' ''p'' = fallback \<and>
   classify (\<lambda>s. Some JNull) (\<lambda>a b c. Inr (Some ''not json'')) ''s'' ''f'' ''p'' = fallback \<and>
   jsonMatch ''{oops}'' = Some ''{oops}'' \<and>
   classify (\<lambda>s. None) (\<lambda>a b c. Inr (Some ''{oops}'')) ''s'' ''f'' ''p'' = fallback"
proof -
  have n: "\<not> (\<exists>a b c. ''not json'' = a @ CHR ''{'' # b @ CHR ''}'' # c)"
  proof
    assume "\<exists>a b c. ''not json'' = a @ CHR ''{'' # b @ CHR ''}'' # c"
    then obtain a b c where "''not json'' = a @ CHR ''{'' # b @ CHR ''}'' # c" by blast
    then have "CHR ''{'' \<in> set ''not json''" by (metis in_set_conv_decomp)
    then show False by simp
  qed
  have m: "jsonMatch ''{oops}'' = Some ''{oops}''" by simp
  show ?thesis
    using classify_fallback_on_failure
        [of "\<lambda>a b c. Inl (RemoteFailure ''timeout'')" "''s''" "''f''" "''p''"
            "RemoteFailure ''timeout''" "\<lambda>s. None"]
      classify_fallback_on_failure
        [of "\<lambda>a b c. Inr None" "''s''" "''f''" "''p''" _ "\<lambda>s. None"]
      classify_fallback_on_failure
        [of "\<lambda>a b c. Inr (Some ''not json'')" "''s''" "''f''" "''p''" _ "\<lambda>s. Some JNull" "''not json''"]
      classify_fallback_on_failure
        [of "\<lambda>a b c. Inr (Some ''{oops}'')" "''s''" "''f''" "''p''" _ "\<lambda>s. None" "''{oops}''" "''{oops}''"]
      n m
    by simp
qed

text \<open>
  C6, as the code has it. The classifier decodes the substring that runs from the first
  opening brace of the response text to its last closing brace; text before that opening
  brace and after that closing brace does not affect the result. A failed decoding gives
  the fallback judgment.
\<close>

theorem classify_decodes_first_open_to_last_close:
  assumes "generateContent subject sender snippet = Inr (Some (pre @ CHR ''{'' # body @ CHR ''}'' # post))"
    and "CHR ''{'' \<notin> set pre" and "CHR ''}'' \<notin> set post"
  shows "classify JSON_parse generateContent subject sender snippet =
           (case JSON_parse (CHR ''{'' # body @ [CHR ''}'']) of
              Some v \<Rightarrow> v
            | None \<Rightarrow> fallback)"
  using assms jsonMatch_Some[of pre post body]
  by (simp add: classify_def classify_try_def split: option.splits)

theorem classify_decodes_first_open_to_last_close_witness:
  "classify (\<lambda>s. if s = ''{} {}'' then Some (JStr ''whole'') else None)
       (\<lambda>a b c. Inr (Some ''ok {} {} bye'')) ''s'' ''f'' ''p'' = JStr ''whole''"
  using classify_decodes_first_open_to_last_close
    [of "\<lambda>a b c. Inr (Some ''ok {} {} bye'')" "''s''" "''f''" "''p''" "''ok ''" "''} {''" "'' bye''"
        "\<lambda>s. if s = ''{} {}'' then Some (JStr ''whole'') else None"]
  by simp

text \<open>
  C6, as the specification words it, fails: on the response \<^verbatim>\<open>{} {}\<close> the first
  balanced substring is \<^verbatim>\<open>{}\<close>, but the pattern extracts the whole of \<^verbatim>\<open>{} {}\<close>.
  With a decoder that accepts \<^verbatim>\<open>{}\<close> as the empty object and rejects \<^verbatim>\<open>{} {}\<close>, as
  \<^verbatim>\<open>JSON.parse\<close> does, the classifier answers the fallback judgment on \<^verbatim>\<open>{} {}\<close> and
  the empty object on \<^verbatim>\<open>{}\<close>: the text after the first balanced object changed the
  result.
\<close>

theorem classify_first_balanced_counterexample:
  "spec_first_balanced ''{} {}'' = Some ''{}'' \<and>
   jsonMatch ''{} {}'' = Some ''{} {}'' \<and>
   classify (\<lambda>s. if s = ''{}'' then Some (JObj []) else None)
       (\<lambda>a b c. Inr (Some ''{} {}'')) ''s'' ''f'' ''p'' = fallback \<and>
   classify (\<lambda>s. if s = ''{}'' then Some (JObj []) else None)
       (\<lambda>a b c. Inr (Some ''{}'')) ''s'' ''f'' ''p'' = JObj [] \<and>
   fallback \<noteq> JObj []"
  by (simp add: classify_def classify_try_def fallback_def)

section \<open>The loop and the common tail of its bodies\<close>

lemma for_of_rel:
  assumes refl: "\<And>w. R w w"
    and trans: "\<And>a b c. R a b \<Longrightarrow> R b c \<Longrightarrow> R a c"
    and step: "\<forall>c\<in>set cs. \<forall>k w r w'. body c k w = (r, w') \<longrightarrow> R w w'"
    and run: "for_of body cs k w = (r, w')"
  shows "R w w'"
  using step run
proof (induction cs arbitrary: k w)
  case Nil
  then show ?case using refl by simp
next
  case (Cons c cs)
  obtain r1 w1 where b: "body c k w = (r1, w1)" by (cases "body c k w")
  have s: "R w w1" using Cons.prems(1) b by simp
  have rest: "\<forall>c\<in>set cs. \<forall>k w r w'. body c k w = (r, w') \<longrightarrow> R w w'"
    using Cons.prems(1) by simp
  show ?case
  proof (cases r1)
    case (Inl e)
    with b Cons.prems(2) have "w' = w1" by simp
    with s show ?thesis by simp
  next
    case (Inr k1)
    with b Cons.prems(2) have "for_of body cs k1 w1 = (r, w')" by simp
    then have "R w1 w'" using Cons.IH[OF rest] by simp
    with s show ?thesis using trans by blast
  qed
qed

lemma for_of_count:
  assumes refl: "\<And>k w. P k w k w"
    and trans: "\<And>a u b v c x. P a u b v \<Longrightarrow> P b v c x \<Longrightarrow> P a u c x"
    and step: "\<forall>c\<in>set cs. \<forall>k w k' w'. body c k w = (Inr k', w') \<longrightarrow> P k w k' w'"
    and run: "for_of body cs k w = (Inr k', w')"
  shows "P k w k' w'"
  using step run
proof (induction cs arbitrary: k w)
  case Nil
  then show ?case using refl by simp
next
  case (Cons c cs)
  obtain r1 w1 where b: "body c k w = (r1, w1)" by (cases "body c k w")
  have rest: "\<forall>c\<in>set cs. \<forall>k w k' w'. body c k w = (Inr k', w') \<longrightarrow> P k w k' w'"
    using Cons.prems(1) by simp
  show ?case
  proof (cases r1)
    case (Inl e)
    with b Cons.prems(2) show ?thesis by simp
  next
    case (Inr k1)
    with b Cons.prems(2) have run: "for_of body cs k1 w1 = (Inr k', w')" by simp
    have "P k w k1 w1" using Cons.prems(1) b Inr by simp
    moreover have "P k1 w1 k' w'" using Cons.IH[OF rest run] .
    ultimately show ?thesis using trans by blast
  qed
qed

lemma for_of_append:
  "for_of body (xs @ ys) k w =
     (case for_of body xs k w of (Inl e, w1) \<Rightarrow> (Inl e, w1) | (Inr k1, w1) \<Rightarrow> for_of body ys k1 w1)"
  by (induction xs arbitrary: k w) (auto split: prod.splits sum.splits)

lemmas prim_defs = log_event_def new_Date_def WorkItemModel_findOne_def
  getOrCreateExternalThread_def createItem_def WorkThreadModel_findByIdAndUpdate_def
  update_user_def


lemma materialize_Inl:
  "materialize valid userId ts mk esc count w = (Inl e, w') \<Longrightarrow> items w' = items w"
  by (auto simp: materialize_def prim_defs split: prod.splits option.splits sum.splits if_splits)

lemma materialize_Inr:
  "materialize valid userId ts mk esc count w = (Inr k, w') \<Longrightarrow>
     k = Suc count \<and> valid (mk (import_thread userId w) (import_date userId ts w)) \<and>
     Suc (next_id (snd (getOrCreateExternalThread userId w))) = next_id w' \<and>
     items w' = items w @ [\<lparr>item_id = next_id (snd (getOrCreateExternalThread userId w)),
                             item_data = mk (import_thread userId w) (import_date userId ts w)\<rparr>]"
  by (auto simp: materialize_def prim_defs import_thread_def import_date_def
      split: prod.splits option.splits sum.splits if_splits)


lemma materialize_prefix:
  "materialize valid userId ts mk esc count w = (r, w') \<Longrightarrow> prefix (items w) (items w')"
  by (cases r) (auto dest: materialize_Inl materialize_Inr)

lemma materialize_same_threads_Inl:
  "materialize valid userId ts mk esc count w = (Inl e, w') \<Longrightarrow>
     threads w' = threads (snd (getOrCreateExternalThread userId w))"
  by (auto simp: materialize_def prim_defs
      split: prod.splits option.splits sum.splits if_splits)

lemma find_app:
  "find P (xs @ ys) = (case find P xs of None \<Rightarrow> find P ys | Some x \<Rightarrow> Some x)"
  by (induction xs) auto


lemmas sync_defs = syncGmail_def syncCalendar_def syncTasks_def syncTeams_def

lemma or_else_falsy:
  "\<not> str_truthy a \<Longrightarrow> \<not> str_truthy b \<Longrightarrow> or_else a b = None \<or> or_else a b = Some []"
  by (auto simp: or_else_def str_truthy_def split: option.splits)

section \<open>Credentials\<close>

text \<open>
  C7. When no access token is available for the provider, neither an override token passed
  by the caller nor a stored one (absent and empty both count as none, as \<^verbatim>\<open>!accessToken\<close>
  reads them), every sync entry point returns 0 and leaves the world as it is: in
  particular the trace gains no request to a remote service.
\<close>

theorem no_token_no_request:
  assumes "\<not> str_truthy overrideAccessToken"
  shows "((\<forall>u. UserModel_findById userId w = Some u \<longrightarrow>
             \<not> str_truthy (token_of (google_of u) accessToken)) \<longrightarrow>
          syncGmail valid JSON_parse generateContent gmail userId overrideAccessToken w = (0, w) \<and>
          syncCalendar valid calendar userId overrideAccessToken w = (0, w) \<and>
          syncTasks valid tasks userId overrideAccessToken w = (0, w)) \<and>
         ((\<forall>u. UserModel_findById userId w = Some u \<longrightarrow>
             \<not> str_truthy (token_of (microsoft_of u) accessToken)) \<longrightarrow>
          syncTeams valid teams userId overrideAccessToken w = (0, w))"
proof (intro conjI impI)
  assume a: "\<forall>u. UserModel_findById userId w = Some u \<longrightarrow>
             \<not> str_truthy (token_of (google_of u) accessToken)"
  show "syncGmail valid JSON_parse generateContent gmail userId overrideAccessToken w = (0, w)"
  proof (cases "UserModel_findById userId w")
    case None
    then show ?thesis by (simp add: syncGmail_def)
  next
    case (Some u)
    with a have "\<not> str_truthy (token_of (google_of u) accessToken)" by simp
    with or_else_falsy[OF assms this] Some show ?thesis
      by (auto simp: syncGmail_def)
  qed
  show "syncCalendar valid calendar userId overrideAccessToken w = (0, w)"
  proof (cases "UserModel_findById userId w")
    case None
    then show ?thesis by (simp add: syncCalendar_def)
  next
    case (Some u)
    with a have "\<not> str_truthy (token_of (google_of u) accessToken)" by simp
    with or_else_falsy[OF assms this] Some show ?thesis
      by (auto simp: syncCalendar_def)
  qed
  show "syncTasks valid tasks userId overrideAccessToken w = (0, w)"
  proof (cases "UserModel_findById userId w")
    case None
    then show ?thesis by (simp add: syncTasks_def)
  next
    case (Some u)
    with a have "\<not> str_truthy (token_of (google_of u) accessToken)" by simp
    with or_else_falsy[OF assms this] Some show ?thesis
      by (auto simp: syncTasks_def)
  qed
next
  assume a: "\<forall>u. UserModel_findById userId w = Some u \<longrightarrow>
             \<not> str_truthy (token_of (microsoft_of u) accessToken)"
  show "syncTeams valid teams userId overrideAccessToken w = (0, w)"
  proof (cases "UserModel_findById userId w")
    case None
    then show ?thesis by (simp add: syncTeams_def)
  next
    case (Some u)
    with a have "\<not> str_truthy (token_of (microsoft_of u) accessToken)" by simp
    with or_else_falsy[OF assms this] Some show ?thesis
      by (auto simp: syncTeams_def)
  qed
qed

theorem no_token_no_request_witness:
  "\<not> str_truthy (Some []) \<and>
   UserModel_findById ''u1'' world_without_tokens = Some user_without_tokens \<and>
   \<not> str_truthy (token_of (google_of user_without_tokens) accessToken) \<and>
   \<not> str_truthy (token_of (microsoft_of user_without_tokens) accessToken) \<and>
   syncGmail (\<lambda>i. True) (\<lambda>s. None) (\<lambda>a b c. Inr None)
     \<lparr>messages_list = Inr None, messages_get = (\<lambda>i. Inl (RemoteFailure ''x''))\<rparr>
     ''u1'' (Some []) world_without_tokens = (0, world_without_tokens) \<and>
   syncCalendar (\<lambda>i. True) (Inr None) ''u1'' (Some []) world_without_tokens = (0, world_without_tokens) \<and>
   syncTasks (\<lambda>i. True) \<lparr>tasklists_list = Inr None, tasks_list = (\<lambda>i. Inr None)\<rparr>
     ''u1'' (Some []) world_without_tokens = (0, world_without_tokens) \<and>
   syncTeams (\<lambda>i. True) (Inl (RemoteFailure ''x'')) ''u1'' (Some []) world_without_tokens
     = (0, world_without_tokens) \<and>
   trace (snd (syncTeams (\<lambda>i. True) (Inl (RemoteFailure ''x'')) ''u1'' (Some ''t'') world_without_tokens))
     = [GraphChats ''t'']"
proof -
  have h: "\<not> str_truthy (Some [])" by (simp add: str_truthy_def)
  have f: "UserModel_findById ''u1'' world_without_tokens = Some user_without_tokens"
    by (simp add: UserModel_findById_def world_without_tokens_def user_without_tokens_def)
  have g: "\<not> str_truthy (token_of (google_of user_without_tokens) accessToken)"
    by (simp add: str_truthy_def token_of_def google_of_def user_without_tokens_def)
  have m: "\<not> str_truthy (token_of (microsoft_of user_without_tokens) accessToken)"
    by (simp add: str_truthy_def token_of_def microsoft_of_def user_without_tokens_def)
  have t: "trace (snd (syncTeams (\<lambda>i. True) (Inl (RemoteFailure ''x'')) ''u1'' (Some ''t'') world_without_tokens))
     = [GraphChats ''t'']"
    by code_simp
  show ?thesis
    using no_token_no_request[OF h, of "''u1''" world_without_tokens "\<lambda>i. True" "\<lambda>s. None"
        "\<lambda>a b c. Inr None"
        "\<lparr>messages_list = Inr None, messages_get = (\<lambda>i. Inl (RemoteFailure ''x''))\<rparr>"
        "Inr None" "\<lparr>tasklists_list = Inr None, tasks_list = (\<lambda>i. Inr None)\<rparr>"
        "Inl (RemoteFailure ''x'')"]
      h f g m t
    by simp
qed

section \<open>The stored users\<close>









text \<open>
  C3. On a user whose Google integration holds a token and \<^verbatim>\<open>lastSync = 5\<close>, a Calendar
  cycle that creates one item and a Tasks cycle that creates one item both complete
  without error and leave the stored users as they are, \<^verbatim>\<open>lastSync\<close> included; the Gmail
  and Teams cycles on the same world stamp \<^verbatim>\<open>lastSync\<close> with the clock's reading.
\<close>

theorem calendar_and_tasks_leave_lastSync:
  "syncCalendar_try accept_all (Inr (Some [standup])) (''g-token'', Some ''g-refresh'') ''alice''
      alice_world
     = (Inr 1, snd (syncCalendar accept_all (Inr (Some [standup])) ''alice'' None alice_world)) \<and>
   fst (syncCalendar accept_all (Inr (Some [standup])) ''alice'' None alice_world) = 1 \<and>
   users (snd (syncCalendar accept_all (Inr (Some [standup])) ''alice'' None alice_world)) = [alice] \<and>
   google_lastSyncs (snd (syncCalendar accept_all (Inr (Some [standup])) ''alice'' None alice_world))
     = [Some 5] \<and>
   fst (syncTasks accept_all one_list_tasks ''alice'' None alice_world) = 1 \<and>
   users (snd (syncTasks accept_all one_list_tasks ''alice'' None alice_world)) = [alice] \<and>
   google_lastSyncs (snd (syncTasks accept_all one_list_tasks ''alice'' None alice_world)) = [Some 5] \<and>
   google_lastSyncs (snd (syncGmail accept_all (\<lambda>s. None) (\<lambda>a b c. Inr None) empty_gmail
                            ''alice'' None alice_world)) = [Some 10] \<and>
   microsoft_lastSyncs (snd (syncTeams accept_all no_chats ''alice'' None alice_world)) = [Some 10]"
  by code_simp

section \<open>Chats without a message\<close>

lemma teams_body_drop:
  assumes "c_lastMessagePreview ch = None \<or>
           (\<exists>lm. c_lastMessagePreview ch = Some lm \<and>
                 (p_body lm = None \<or> (\<exists>b. p_body lm = Some b \<and> content b = None)))"
  shows "teams_body valid userId ch count w = (Inr count, w)"
  using assms by (auto simp: teams_body_def str_truthy_def)

lemma for_of_skip:
  assumes "\<And>k w. body c k w = (Inr k, w)"
  shows "for_of body (pre @ c # post) count w = for_of body (pre @ post) count w"
  by (simp add: for_of_append assms split: prod.splits sum.splits)

text \<open>
  C10. A chat whose \<^verbatim>\<open>lastMessagePreview\<close> is absent, or whose preview has no
  \<^verbatim>\<open>body\<close>, or whose body has no \<^verbatim>\<open>content\<close>, is dropped by \<^verbatim>\<open>syncTeams\<close>: the
  loop body leaves the counter and the whole world as they are (so the trace gains no
  dedup lookup and no item is stored), and the loop and the whole cycle give the result
  they give on the answer without that chat.
\<close>

theorem teams_drops_chat_without_content:
  assumes "c_lastMessagePreview ch = None \<or>
           (\<exists>lm. c_lastMessagePreview ch = Some lm \<and>
                 (p_body lm = None \<or> (\<exists>b. p_body lm = Some b \<and> content b = None)))"
  shows "teams_body valid userId ch count w = (Inr count, w) \<and>
         for_of (teams_body valid userId) (pre @ ch # post) count w
           = for_of (teams_body valid userId) (pre @ post) count w \<and>
         syncTeams valid (Inr (response\<lparr>r_json := Inr (Some (pre @ ch # post))\<rparr>)) userId ov w
           = syncTeams valid (Inr (response\<lparr>r_json := Inr (Some (pre @ post))\<rparr>)) userId ov w"
proof -
  have drop: "\<And>k w. teams_body valid userId ch k w = (Inr k, w)"
    using teams_body_drop[OF assms] by simp
  have loop: "\<And>k w. for_of (teams_body valid userId) (pre @ ch # post) k w
           = for_of (teams_body valid userId) (pre @ post) k w"
    using for_of_skip[of "teams_body valid userId" ch, OF drop] by simp
  have tr: "\<And>tok u. syncTeams_try valid (Inr (response\<lparr>r_json := Inr (Some (pre @ ch # post))\<rparr>)) tok userId u w
           = syncTeams_try valid (Inr (response\<lparr>r_json := Inr (Some (pre @ post))\<rparr>)) tok userId u w"
    by (simp add: syncTeams_try_def loop)
  show ?thesis
    using drop loop by (simp add: syncTeams_def tr split: option.splits)
qed

theorem teams_drops_chat_without_content_witness:
  "c_lastMessagePreview silent_chat = None \<and>
   teams_body accept_all ''alice'' silent_chat 0 alice_world = (Inr 0, alice_world) \<and>
   syncTeams accept_all (Inr ((chats_response [])\<lparr>r_json := Inr (Some [silent_chat, hello_chat])\<rparr>))
       ''alice'' None alice_world
     = syncTeams accept_all (Inr ((chats_response [])\<lparr>r_json := Inr (Some [hello_chat])\<rparr>))
         ''alice'' None alice_world \<and>
   fst (syncTeams accept_all (Inr ((chats_response [])\<lparr>r_json := Inr (Some [hello_chat])\<rparr>))
          ''alice'' None alice_world) = 1"
proof -
  have h: "c_lastMessagePreview silent_chat = None" by (simp add: silent_chat_def)
  have c: "fst (syncTeams accept_all (Inr ((chats_response [])\<lparr>r_json := Inr (Some [hello_chat])\<rparr>))
          ''alice'' None alice_world) = 1"
    by code_simp
  have t: "teams_body accept_all ''alice'' silent_chat 0 alice_world = (Inr 0, alice_world) \<and>
         for_of (teams_body accept_all ''alice'') ([] @ silent_chat # [hello_chat]) 0 alice_world
           = for_of (teams_body accept_all ''alice'') ([] @ [hello_chat]) 0 alice_world \<and>
         syncTeams accept_all (Inr ((chats_response [])\<lparr>r_json := Inr (Some ([] @ silent_chat # [hello_chat]))\<rparr>)) ''alice'' None alice_world
           = syncTeams accept_all (Inr ((chats_response [])\<lparr>r_json := Inr (Some ([] @ [hello_chat]))\<rparr>)) ''alice'' None alice_world"
    using teams_drops_chat_without_content[of silent_chat accept_all "''alice''" 0 alice_world
        "[]" "[hello_chat]" "chats_response []" None] h by blast
  from t have "syncTeams accept_all (Inr ((chats_response [])\<lparr>r_json := Inr (Some [silent_chat, hello_chat])\<rparr>))
       ''alice'' None alice_world
     = syncTeams accept_all (Inr ((chats_response [])\<lparr>r_json := Inr (Some [hello_chat])\<rparr>))
         ''alice'' None alice_world" by simp
  with t h c show ?thesis by blast
qed

section \<open>Items are only added\<close>

lemma for_of_error_at:
  "for_of body pre k0 w0 = (Inr k, wa) \<Longrightarrow> body c k wa = (Inl e, wb) \<Longrightarrow>
     for_of body (pre @ c # post) k0 w0 = (Inl e, wb)"
  by (simp add: for_of_append)

lemma for_of_prefix:
  assumes "\<forall>c\<in>set cs. \<forall>k w r w'. body c k w = (r, w') \<longrightarrow> prefix (items w) (items w')"
    and "for_of body cs k w = (r, w')"
  shows "prefix (items w) (items w')"
  using for_of_rel[where R = "\<lambda>w w'. prefix (items w) (items w')", OF _ _ assms]
  by (meson prefix_order.order_refl prefix_order.order_trans)

lemma for_of_counted:
  assumes "\<forall>c\<in>set cs. \<forall>k w k' w'. body c k w = (Inr k', w') \<longrightarrow> counted k w k' w'"
    and "for_of body cs k w = (Inr k', w')"
  shows "counted k w k' w'"
  using for_of_count[where P = counted, OF _ _ assms]
  by (auto simp: counted_def)

lemma materialize_counted:
  "materialize valid userId ts mk esc count w = (Inr k, w') \<Longrightarrow> counted count w k w'"
  by (auto simp: counted_def dest: materialize_Inr)

lemma findOne_items [simp]: "items (snd (WorkItemModel_findOne u f key w)) = items w"
  by (simp add: WorkItemModel_findOne_def log_event_def)

lemma log_event_items [simp]: "items (log_event e w) = items w"
  by (simp add: log_event_def)

lemma calendar_body_prefix:
  "calendar_body valid userId ev count w = (r, w') \<Longrightarrow> prefix (items w) (items w')"
  by (auto simp: calendar_body_def WorkItemModel_findOne_def
      split: prod.splits option.splits dest: materialize_prefix)

lemma calendar_body_counted:
  "calendar_body valid userId ev count w = (Inr k, w') \<Longrightarrow> counted count w k w'"
  by (auto simp: calendar_body_def WorkItemModel_findOne_def counted_def
      split: prod.splits option.splits dest!: materialize_counted)

lemma task_body_prefix:
  "task_body valid userId lst tk count w = (r, w') \<Longrightarrow> prefix (items w) (items w')"
  by (auto simp: task_body_def WorkItemModel_findOne_def
      split: prod.splits option.splits dest: materialize_prefix)

lemma task_body_counted:
  "task_body valid userId lst tk count w = (Inr k, w') \<Longrightarrow> counted count w k w'"
  by (auto simp: task_body_def WorkItemModel_findOne_def counted_def
      split: prod.splits option.splits dest!: materialize_counted)

lemma teams_body_prefix:
  "teams_body valid userId ch count w = (r, w') \<Longrightarrow> prefix (items w) (items w')"
  by (auto simp: teams_body_def WorkItemModel_findOne_def
      split: prod.splits option.splits if_splits dest: materialize_prefix)

lemma teams_body_counted:
  "teams_body valid userId ch count w = (Inr k, w') \<Longrightarrow> counted count w k w'"
  by (auto simp: teams_body_def WorkItemModel_findOne_def counted_def
      split: prod.splits option.splits if_splits dest!: materialize_counted)

lemma gmail_body_prefix:
  "gmail_body valid P G gmail auth userId msg count w = (r, w') \<Longrightarrow> prefix (items w) (items w')"
  by (auto simp: gmail_body_def WorkItemModel_findOne_def Let_def
      split: prod.splits option.splits if_splits sum.splits dest: materialize_prefix)

lemma gmail_body_counted:
  "gmail_body valid P G gmail auth userId msg count w = (Inr k, w') \<Longrightarrow> counted count w k w'"
  by (auto simp: gmail_body_def WorkItemModel_findOne_def Let_def counted_def
      split: prod.splits option.splits if_splits sum.splits dest!: materialize_counted)

lemma tasklist_body_prefix:
  "tasklist_body valid tasks auth userId lst count w = (r, w') \<Longrightarrow> prefix (items w) (items w')"
  by (auto simp: tasklist_body_def split: sum.splits
      dest!: for_of_prefix[rotated] dest: task_body_prefix)

lemma tasklist_body_counted:
  "tasklist_body valid tasks auth userId lst count w = (Inr k, w') \<Longrightarrow> counted count w k w'"
  by (auto simp: tasklist_body_def counted_def split: sum.splits
      dest!: for_of_counted[rotated] dest: task_body_counted)

section \<open>Errors inside a cycle\<close>

lemma syncGmail_catch:
  assumes "UserModel_findById userId w = Some u"
    and "or_else ov (token_of (google_of u) accessToken) = Some tok" and "tok \<noteq> []"
  shows "syncGmail valid P G gmail userId ov w =
           (case syncGmail_try valid P G gmail (tok, token_of (google_of u) refreshToken) userId u w of
              (Inl e, w1) \<Rightarrow> (0, w1)
            | (Inr n, w1) \<Rightarrow> (n, w1))"
  using assms by (simp add: syncGmail_def)

lemma syncCalendar_catch:
  assumes "UserModel_findById userId w = Some u"
    and "or_else ov (token_of (google_of u) accessToken) = Some tok" and "tok \<noteq> []"
  shows "syncCalendar valid calendar userId ov w =
           (case syncCalendar_try valid calendar (tok, token_of (google_of u) refreshToken) userId w of
              (Inl e, w1) \<Rightarrow> (0, w1)
            | (Inr n, w1) \<Rightarrow> (n, w1))"
  using assms by (simp add: syncCalendar_def)

lemma syncTasks_catch:
  assumes "UserModel_findById userId w = Some u"
    and "or_else ov (token_of (google_of u) accessToken) = Some tok" and "tok \<noteq> []"
  shows "syncTasks valid tasks userId ov w =
           (case syncTasks_try valid tasks (tok, token_of (google_of u) refreshToken) userId w of
              (Inl e, w1) \<Rightarrow> (0, w1)
            | (Inr n, w1) \<Rightarrow> (n, w1))"
  using assms by (simp add: syncTasks_def)

lemma syncTeams_catch:
  assumes "UserModel_findById userId w = Some u"
    and "or_else ov (token_of (microsoft_of u) accessToken) = Some tok" and "tok \<noteq> []"
  shows "syncTeams valid teams userId ov w =
           (case syncTeams_try valid teams tok userId u w of
              (Inl e, w1) \<Rightarrow> (0, w1)
            | (Inr n, w1) \<Rightarrow> (n, w1))"
  using assms by (simp add: syncTeams_def)

lemma new_Date_items [simp]: "items (snd (new_Date w)) = items w"
  by (simp add: new_Date_def)

lemma update_user_items [simp]: "items (update_user userId f w) = items w"
  by (simp add: update_user_def)

lemma syncGmail_try_prefix:
  "syncGmail_try valid P G gmail auth userId u w = (r, w') \<Longrightarrow> prefix (items w) (items w')"
  by (auto simp: syncGmail_try_def new_Date_def split: sum.splits prod.splits option.splits
      dest!: for_of_prefix[rotated] dest: gmail_body_prefix)

lemma syncCalendar_try_prefix:
  "syncCalendar_try valid calendar auth userId w = (r, w') \<Longrightarrow> prefix (items w) (items w')"
  by (auto simp: syncCalendar_try_def new_Date_def split: sum.splits prod.splits option.splits
      dest!: for_of_prefix[rotated] dest: calendar_body_prefix)

lemma syncTasks_try_prefix:
  "syncTasks_try valid tasks auth userId w = (r, w') \<Longrightarrow> prefix (items w) (items w')"
  by (auto simp: syncTasks_try_def split: sum.splits prod.splits option.splits
      dest!: for_of_prefix[rotated] dest: tasklist_body_prefix)

lemma syncTeams_try_prefix:
  "syncTeams_try valid teams tok userId u w = (r, w') \<Longrightarrow> prefix (items w) (items w')"
  by (auto simp: syncTeams_try_def new_Date_def split: sum.splits prod.splits option.splits if_splits
      dest!: for_of_prefix[rotated] dest: teams_body_prefix)

lemma syncGmail_prefix: "prefix (items w) (items (snd (syncGmail valid P G gmail userId ov w)))"
  by (auto simp: syncGmail_def split: option.splits prod.splits sum.splits
      dest: syncGmail_try_prefix)

lemma syncCalendar_prefix: "prefix (items w) (items (snd (syncCalendar valid calendar userId ov w)))"
  by (auto simp: syncCalendar_def split: option.splits prod.splits sum.splits
      dest: syncCalendar_try_prefix)

lemma syncTasks_prefix: "prefix (items w) (items (snd (syncTasks valid tasks userId ov w)))"
  by (auto simp: syncTasks_def split: option.splits prod.splits sum.splits
      dest: syncTasks_try_prefix)

lemma syncTeams_prefix: "prefix (items w) (items (snd (syncTeams valid teams userId ov w)))"
  by (auto simp: syncTeams_def split: option.splits prod.splits sum.splits
      dest: syncTeams_try_prefix)

lemma loop_error_kept:
  assumes mono: "\<forall>c\<in>set (pre @ [bad]). \<forall>k w r w'. body c k w = (r, w') \<longrightarrow> prefix (items w) (items w')"
    and cnt: "\<forall>c\<in>set pre. \<forall>k w k' w'. body c k w = (Inr k', w') \<longrightarrow> counted k w k' w'"
    and pre: "for_of body pre 0 w0 = (Inr k, wa)"
    and bad: "body bad k wa = (Inl e, wb)"
  shows "for_of body (pre @ bad # post) 0 w0 = (Inl e, wb) \<and>
         prefix (items wa) (items wb) \<and> length (items wa) = length (items w0) + k"
proof -
  have "counted 0 w0 k wa" using for_of_counted[OF cnt pre] .
  moreover have "prefix (items wa) (items wb)" using mono bad by simp
  ultimately show ?thesis
    using for_of_error_at[OF pre bad] by (simp add: counted_def)
qed

lemma gmail_error_in_loop:
  assumes "UserModel_findById userId w = Some u"
    and "or_else ov (token_of (google_of u) accessToken) = Some tok" and "tok \<noteq> []"
    and "messages_list gmail = Inr (Some (pre @ m # post))"
    and "for_of (gmail_body valid P G gmail (tok, token_of (google_of u) refreshToken) userId) pre 0
           (log_event (GmailMessagesList tok (token_of (google_of u) refreshToken)) w) = (Inr k, wa)"
    and "gmail_body valid P G gmail (tok, token_of (google_of u) refreshToken) userId m k wa = (Inl e, wb)"
  shows "syncGmail valid P G gmail userId ov w = (0, wb) \<and>
         prefix (items wa) (items wb) \<and> length (items wa) = length (items w) + k"
proof -
  have mono: "\<forall>c\<in>set (pre @ [m]). \<forall>k w r w'. gmail_body valid P G gmail (tok, token_of (google_of u) refreshToken) userId c k w = (r, w') \<longrightarrow>
                prefix (items w) (items w')"
    using gmail_body_prefix by blast
  have cnt: "\<forall>c\<in>set pre. \<forall>k w k' w'. gmail_body valid P G gmail (tok, token_of (google_of u) refreshToken) userId c k w = (Inr k', w') \<longrightarrow> counted k w k' w'"
    using gmail_body_counted by blast
  have L: "for_of (gmail_body valid P G gmail (tok, token_of (google_of u) refreshToken) userId) (pre @ m # post) 0 (log_event (GmailMessagesList tok (token_of (google_of u) refreshToken)) w) = (Inl e, wb) \<and>
         prefix (items wa) (items wb) \<and> length (items wa) = length (items (log_event (GmailMessagesList tok (token_of (google_of u) refreshToken)) w)) + k"
    using loop_error_kept[OF mono cnt assms(5,6)] .
  show ?thesis
    using L assms by (simp add: syncGmail_catch syncGmail_try_def)
qed

lemma calendar_error_in_loop:
  assumes "UserModel_findById userId w = Some u"
    and "or_else ov (token_of (google_of u) accessToken) = Some tok" and "tok \<noteq> []"
    and "calendar = Inr (Some (pre @ ev # post))"
    and "for_of (calendar_body valid userId) pre 0
           (log_event (CalendarEventsList tok (token_of (google_of u) refreshToken) (fst (new_Date w)))
              (snd (new_Date w))) = (Inr k, wa)"
    and "calendar_body valid userId ev k wa = (Inl e, wb)"
  shows "syncCalendar valid calendar userId ov w = (0, wb) \<and>
         prefix (items wa) (items wb) \<and> length (items wa) = length (items w) + k"
proof -
  have mono: "\<forall>c\<in>set (pre @ [ev]). \<forall>k w r w'. calendar_body valid userId c k w = (r, w') \<longrightarrow>
                prefix (items w) (items w')"
    using calendar_body_prefix by blast
  have cnt: "\<forall>c\<in>set pre. \<forall>k w k' w'. calendar_body valid userId c k w = (Inr k', w') \<longrightarrow> counted k w k' w'"
    using calendar_body_counted by blast
  have L: "for_of (calendar_body valid userId) (pre @ ev # post) 0 (log_event (CalendarEventsList tok (token_of (google_of u) refreshToken) (fst (new_Date w))) (snd (new_Date w))) = (Inl e, wb) \<and>
         prefix (items wa) (items wb) \<and> length (items wa) = length (items (log_event (CalendarEventsList tok (token_of (google_of u) refreshToken) (fst (new_Date w))) (snd (new_Date w)))) + k"
    using loop_error_kept[OF mono cnt assms(5,6)] .
  show ?thesis
    using L assms by (simp add: syncCalendar_catch syncCalendar_try_def case_prod_unfold)
qed

lemma tasks_error_in_loop:
  assumes "UserModel_findById userId w = Some u"
    and "or_else ov (token_of (google_of u) accessToken) = Some tok" and "tok \<noteq> []"
    and "tasklists_list tasks = Inr (Some (pre @ lst # post))"
    and "for_of (tasklist_body valid tasks (tok, token_of (google_of u) refreshToken) userId) pre 0
           (log_event (TasklistsList tok (token_of (google_of u) refreshToken)) w) = (Inr k, wa)"
    and "tasklist_body valid tasks (tok, token_of (google_of u) refreshToken) userId lst k wa = (Inl e, wb)"
  shows "syncTasks valid tasks userId ov w = (0, wb) \<and>
         prefix (items wa) (items wb) \<and> length (items wa) = length (items w) + k"
proof -
  have mono: "\<forall>c\<in>set (pre @ [lst]). \<forall>k w r w'. tasklist_body valid tasks (tok, token_of (google_of u) refreshToken) userId c k w = (r, w') \<longrightarrow>
                prefix (items w) (items w')"
    using tasklist_body_prefix by blast
  have cnt: "\<forall>c\<in>set pre. \<forall>k w k' w'. tasklist_body valid tasks (tok, token_of (google_of u) refreshToken) userId c k w = (Inr k', w') \<longrightarrow> counted k w k' w'"
    using tasklist_body_counted by blast
  have L: "for_of (tasklist_body valid tasks (tok, token_of (google_of u) refreshToken) userId) (pre @ lst # post) 0 (log_event (TasklistsList tok (token_of (google_of u) refreshToken)) w) = (Inl e, wb) \<and>
         prefix (items wa) (items wb) \<and> length (items wa) = length (items (log_event (TasklistsList tok (token_of (google_of u) refreshToken)) w)) + k"
    using loop_error_kept[OF mono cnt assms(5,6)] .
  show ?thesis
    using L assms by (simp add: syncTasks_catch syncTasks_try_def)
qed

lemma teams_error_in_loop:
  assumes "UserModel_findById userId w = Some u"
    and "or_else ov (token_of (microsoft_of u) accessToken) = Some tok" and "tok \<noteq> []"
    and "teams = Inr response" and "r_ok response"
    and "r_json response = Inr (Some (pre @ ch # post))"
    and "for_of (teams_body valid userId) pre 0 (log_event (GraphChats tok) w) = (Inr k, wa)"
    and "teams_body valid userId ch k wa = (Inl e, wb)"
  shows "syncTeams valid teams userId ov w = (0, wb) \<and>
         prefix (items wa) (items wb) \<and> length (items wa) = length (items w) + k"
proof -
  have mono: "\<forall>c\<in>set (pre @ [ch]). \<forall>k w r w'. teams_body valid userId c k w = (r, w') \<longrightarrow>
                prefix (items w) (items w')"
    using teams_body_prefix by blast
  have cnt: "\<forall>c\<in>set pre. \<forall>k w k' w'. teams_body valid userId c k w = (Inr k', w') \<longrightarrow> counted k w k' w'"
    using teams_body_counted by blast
  have L: "for_of (teams_body valid userId) (pre @ ch # post) 0 (log_event (GraphChats tok) w) = (Inl e, wb) \<and>
         prefix (items wa) (items wb) \<and> length (items wa) = length (items (log_event (GraphChats tok) w)) + k"
    using loop_error_kept[OF mono cnt assms(7,8)] .
  show ?thesis
    using L assms by (simp add: syncTeams_catch syncTeams_try_def)
qed

lemma syncGmail_call_Some:
  "syncGmail_call (Some e) valid P G gmail userId ov w = (Inl e, w)"
  by (simp add: syncGmail_call_def UserModel_findById_await_def)

lemma syncCalendar_call_Some: "syncCalendar_call (Some e) valid calendar userId ov w = (Inl e, w)"
  by (simp add: syncCalendar_call_def UserModel_findById_await_def)

lemma syncTasks_call_Some: "syncTasks_call (Some e) valid tasks userId ov w = (Inl e, w)"
  by (simp add: syncTasks_call_def UserModel_findById_await_def)

lemma syncTeams_call_Some: "syncTeams_call (Some e) valid teams userId ov w = (Inl e, w)"
  by (simp add: syncTeams_call_def UserModel_findById_await_def)

lemma syncGmail_call_None:
  "syncGmail_call None valid P G gmail userId ov w
     = (Inr (fst (syncGmail valid P G gmail userId ov w)), snd (syncGmail valid P G gmail userId ov w))"
  by (simp add: syncGmail_call_def UserModel_findById_await_def case_prod_unfold)

lemma syncCalendar_call_None:
  "syncCalendar_call None valid calendar userId ov w
     = (Inr (fst (syncCalendar valid calendar userId ov w)), snd (syncCalendar valid calendar userId ov w))"
  by (simp add: syncCalendar_call_def UserModel_findById_await_def case_prod_unfold)

lemma syncTasks_call_None:
  "syncTasks_call None valid tasks userId ov w
     = (Inr (fst (syncTasks valid tasks userId ov w)), snd (syncTasks valid tasks userId ov w))"
  by (simp add: syncTasks_call_def UserModel_findById_await_def case_prod_unfold)

lemma syncTeams_call_None:
  "syncTeams_call None valid teams userId ov w
     = (Inr (fst (syncTeams valid teams userId ov w)), snd (syncTeams valid teams userId ov w))"
  by (simp add: syncTeams_call_def UserModel_findById_await_def case_prod_unfold)

lemma syncGmail_call_count:
  "fst (syncGmail_call None valid P G gmail userId ov w) = Inr (fst (syncGmail valid P G gmail userId ov w))"
  by (simp add: syncGmail_call_None)

lemma syncCalendar_call_count:
  "fst (syncCalendar_call None valid calendar userId ov w) = Inr (fst (syncCalendar valid calendar userId ov w))"
  by (simp add: syncCalendar_call_None)

lemma syncTasks_call_count:
  "fst (syncTasks_call None valid tasks userId ov w) = Inr (fst (syncTasks valid tasks userId ov w))"
  by (simp add: syncTasks_call_None)

lemma syncTeams_call_count:
  "fst (syncTeams_call None valid teams userId ov w) = Inr (fst (syncTeams valid teams userId ov w))"
  by (simp add: syncTeams_call_None)

lemma syncGmail_call_prefix:
  "prefix (items w) (items (snd (syncGmail_call fault valid P G gmail userId ov w)))"
  by (cases fault) (simp_all add: syncGmail_call_None syncGmail_call_Some syncGmail_prefix)

lemma syncCalendar_call_prefix:
  "prefix (items w) (items (snd (syncCalendar_call fault valid calendar userId ov w)))"
  by (cases fault) (simp_all add: syncCalendar_call_None syncCalendar_call_Some syncCalendar_prefix)

lemma syncTasks_call_prefix:
  "prefix (items w) (items (snd (syncTasks_call fault valid tasks userId ov w)))"
  by (cases fault) (simp_all add: syncTasks_call_None syncTasks_call_Some syncTasks_prefix)

lemma syncTeams_call_prefix:
  "prefix (items w) (items (snd (syncTeams_call fault valid teams userId ov w)))"
  by (cases fault) (simp_all add: syncTeams_call_None syncTeams_call_Some syncTeams_prefix)

text \<open>
  C5, as the code has it. A call of a sync entry point rejects exactly when the lookup of
  the user that precedes its \<^verbatim>\<open>try\<close> block rejects, and then with that error and an unchanged
  store; when the lookup resolves the call returns a count. No call ever removes a stored
  item. Every error raised inside the \<^verbatim>\<open>try\<close> block is turned into the return value 0 with
  the world as it was when the error was raised: that holds when the adapter's fetch
  rejects, when the Graph API answers a non-success status, and when the loop body raises
  at a candidate, where the items created for the candidates before it are all still stored
  (as many as the counter had reached).
\<close>

theorem sync_rejects_only_when_user_lookup_rejects:
    "syncGmail_call (Some e0) valid JSON_parse generateContent gmail userId ov w = (Inl e0, w) \<and>
     syncCalendar_call (Some e0) valid calendar userId ov w = (Inl e0, w) \<and>
     syncTasks_call (Some e0) valid tasks userId ov w = (Inl e0, w) \<and>
     syncTeams_call (Some e0) valid teams userId ov w = (Inl e0, w) \<and>
     fst (syncGmail_call None valid JSON_parse generateContent gmail userId ov w)
       = Inr (fst (syncGmail valid JSON_parse generateContent gmail userId ov w)) \<and>
     fst (syncCalendar_call None valid calendar userId ov w)
       = Inr (fst (syncCalendar valid calendar userId ov w)) \<and>
     fst (syncTasks_call None valid tasks userId ov w)
       = Inr (fst (syncTasks valid tasks userId ov w)) \<and>
     fst (syncTeams_call None valid teams userId ov w)
       = Inr (fst (syncTeams valid teams userId ov w)) \<and>
     prefix (items w) (items (snd (syncGmail_call fault valid JSON_parse generateContent gmail userId ov w))) \<and>
     prefix (items w) (items (snd (syncCalendar_call fault valid calendar userId ov w))) \<and>
     prefix (items w) (items (snd (syncTasks_call fault valid tasks userId ov w))) \<and>
     prefix (items w) (items (snd (syncTeams_call fault valid teams userId ov w))) \<and>
     (UserModel_findById userId w = Some u \<and>
      or_else ov (token_of (google_of u) accessToken) = Some tok \<and> tok \<noteq> [] \<longrightarrow>
        (\<forall>e1 w1. syncGmail_try valid JSON_parse generateContent gmail
                     (tok, token_of (google_of u) refreshToken) userId u w = (Inl e1, w1) \<longrightarrow>
                  syncGmail_call None valid JSON_parse generateContent gmail userId ov w = (Inr 0, w1)) \<and>
        (\<forall>e1 w1. syncCalendar_try valid calendar
                     (tok, token_of (google_of u) refreshToken) userId w = (Inl e1, w1) \<longrightarrow>
                  syncCalendar_call None valid calendar userId ov w = (Inr 0, w1)) \<and>
        (\<forall>e1 w1. syncTasks_try valid tasks
                     (tok, token_of (google_of u) refreshToken) userId w = (Inl e1, w1) \<longrightarrow>
                  syncTasks_call None valid tasks userId ov w = (Inr 0, w1)) \<and>
        (messages_list gmail = Inl e \<longrightarrow>
           fst (syncGmail_call None valid JSON_parse generateContent gmail userId ov w) = Inr 0) \<and>
        (calendar = Inl e \<longrightarrow> fst (syncCalendar_call None valid calendar userId ov w) = Inr 0) \<and>
        (tasklists_list tasks = Inl e \<longrightarrow> fst (syncTasks_call None valid tasks userId ov w) = Inr 0) \<and>
        (messages_list gmail = Inr (Some (gpre @ m # gpost)) \<and>
         for_of (gmail_body valid JSON_parse generateContent gmail
                   (tok, token_of (google_of u) refreshToken) userId) gpre 0
           (log_event (GmailMessagesList tok (token_of (google_of u) refreshToken)) w) = (Inr k, wa) \<and>
         gmail_body valid JSON_parse generateContent gmail
           (tok, token_of (google_of u) refreshToken) userId m k wa = (Inl e, wb) \<longrightarrow>
           syncGmail_call None valid JSON_parse generateContent gmail userId ov w = (Inr 0, wb) \<and>
           prefix (items wa) (items wb) \<and> length (items wa) = length (items w) + k) \<and>
        (calendar = Inr (Some (cpre @ ev # cpost)) \<and>
         for_of (calendar_body valid userId) cpre 0
           (log_event (CalendarEventsList tok (token_of (google_of u) refreshToken) (fst (new_Date w)))
              (snd (new_Date w))) = (Inr k, wa) \<and>
         calendar_body valid userId ev k wa = (Inl e, wb) \<longrightarrow>
           syncCalendar_call None valid calendar userId ov w = (Inr 0, wb) \<and>
           prefix (items wa) (items wb) \<and> length (items wa) = length (items w) + k) \<and>
        (tasklists_list tasks = Inr (Some (lpre @ lst # lpost)) \<and>
         for_of (tasklist_body valid tasks (tok, token_of (google_of u) refreshToken) userId) lpre 0
           (log_event (TasklistsList tok (token_of (google_of u) refreshToken)) w) = (Inr k, wa) \<and>
         tasklist_body valid tasks (tok, token_of (google_of u) refreshToken) userId lst k wa
           = (Inl e, wb) \<longrightarrow>
           syncTasks_call None valid tasks userId ov w = (Inr 0, wb) \<and>
           prefix (items wa) (items wb) \<and> length (items wa) = length (items w) + k)) \<and>
     (UserModel_findById userId w = Some u \<and>
      or_else ov (token_of (microsoft_of u) accessToken) = Some tok \<and> tok \<noteq> [] \<longrightarrow>
        (\<forall>e1 w1. syncTeams_try valid teams tok userId u w = (Inl e1, w1) \<longrightarrow>
                  syncTeams_call None valid teams userId ov w = (Inr 0, w1)) \<and>
        (teams = Inl e \<longrightarrow> fst (syncTeams_call None valid teams userId ov w) = Inr 0) \<and>
        (teams = Inr response \<and> \<not> r_ok response \<longrightarrow>
           fst (syncTeams_call None valid teams userId ov w) = Inr 0) \<and>
        (teams = Inr response \<and> r_ok response \<and> r_json response = Inr (Some (tpre @ ch # tpost)) \<and>
         for_of (teams_body valid userId) tpre 0 (log_event (GraphChats tok) w) = (Inr k, wa) \<and>
         teams_body valid userId ch k wa = (Inl e, wb) \<longrightarrow>
           syncTeams_call None valid teams userId ov w = (Inr 0, wb) \<and>
           prefix (items wa) (items wb) \<and> length (items wa) = length (items w) + k))"
proof -
  have G: "UserModel_findById userId w = Some u \<and>
      or_else ov (token_of (google_of u) accessToken) = Some tok \<and> tok \<noteq> [] \<longrightarrow>
        (\<forall>e1 w1. syncGmail_try valid JSON_parse generateContent gmail
                     (tok, token_of (google_of u) refreshToken) userId u w = (Inl e1, w1) \<longrightarrow>
                  syncGmail_call None valid JSON_parse generateContent gmail userId ov w = (Inr 0, w1)) \<and>
        (\<forall>e1 w1. syncCalendar_try valid calendar
                     (tok, token_of (google_of u) refreshToken) userId w = (Inl e1, w1) \<longrightarrow>
                  syncCalendar_call None valid calendar userId ov w = (Inr 0, w1)) \<and>
        (\<forall>e1 w1. syncTasks_try valid tasks
                     (tok, token_of (google_of u) refreshToken) userId w = (Inl e1, w1) \<longrightarrow>
                  syncTasks_call None valid tasks userId ov w = (Inr 0, w1)) \<and>
        (messages_list gmail = Inl e \<longrightarrow>
           fst (syncGmail_call None valid JSON_parse generateContent gmail userId ov w) = Inr 0) \<and>
        (calendar = Inl e \<longrightarrow> fst (syncCalendar_call None valid calendar userId ov w) = Inr 0) \<and>
        (tasklists_list tasks = Inl e \<longrightarrow> fst (syncTasks_call None valid tasks userId ov w) = Inr 0) \<and>
        (messages_list gmail = Inr (Some (gpre @ m # gpost)) \<and>
         for_of (gmail_body valid JSON_parse generateContent gmail
                   (tok, token_of (google_of u) refreshToken) userId) gpre 0
           (log_event (GmailMessagesList tok (token_of (google_of u) refreshToken)) w) = (Inr k, wa) \<and>
         gmail_body valid JSON_parse generateContent gmail
           (tok, token_of (google_of u) refreshToken) userId m k wa = (Inl e, wb) \<longrightarrow>
           syncGmail_call None valid JSON_parse generateContent gmail userId ov w = (Inr 0, wb) \<and>
           prefix (items wa) (items wb) \<and> length (items wa) = length (items w) + k) \<and>
        (calendar = Inr (Some (cpre @ ev # cpost)) \<and>
         for_of (calendar_body valid userId) cpre 0
           (log_event (CalendarEventsList tok (token_of (google_of u) refreshToken) (fst (new_Date w)))
              (snd (new_Date w))) = (Inr k, wa) \<and>
         calendar_body valid userId ev k wa = (Inl e, wb) \<longrightarrow>
           syncCalendar_call None valid calendar userId ov w = (Inr 0, wb) \<and>
           prefix (items wa) (items wb) \<and> length (items wa) = length (items w) + k) \<and>
        (tasklists_list tasks = Inr (Some (lpre @ lst # lpost)) \<and>
         for_of (tasklist_body valid tasks (tok, token_of (google_of u) refreshToken) userId) lpre 0
           (log_event (TasklistsList tok (token_of (google_of u) refreshToken)) w) = (Inr k, wa) \<and>
         tasklist_body valid tasks (tok, token_of (google_of u) refreshToken) userId lst k wa
           = (Inl e, wb) \<longrightarrow>
           syncTasks_call None valid tasks userId ov w = (Inr 0, wb) \<and>
           prefix (items wa) (items wb) \<and> length (items wa) = length (items w) + k)"
  proof (intro impI)
    assume tk: "UserModel_findById userId w = Some u \<and>
      or_else ov (token_of (google_of u) accessToken) = Some tok \<and> tok \<noteq> []"
    then have u: "UserModel_findById userId w = Some u"
      and tk1: "or_else ov (token_of (google_of u) accessToken) = Some tok" and tk2: "tok \<noteq> []"
      by simp_all
    have c1: "\<forall>e1 w1. syncGmail_try valid JSON_parse generateContent gmail
                     (tok, token_of (google_of u) refreshToken) userId u w = (Inl e1, w1) \<longrightarrow>
                  syncGmail_call None valid JSON_parse generateContent gmail userId ov w = (Inr 0, w1)"
      by (simp add: syncGmail_call_None syncGmail_catch[OF u tk1 tk2])
    have c2: "\<forall>e1 w1. syncCalendar_try valid calendar
                     (tok, token_of (google_of u) refreshToken) userId w = (Inl e1, w1) \<longrightarrow>
                  syncCalendar_call None valid calendar userId ov w = (Inr 0, w1)"
      by (simp add: syncCalendar_call_None syncCalendar_catch[OF u tk1 tk2])
    have c3: "\<forall>e1 w1. syncTasks_try valid tasks
                     (tok, token_of (google_of u) refreshToken) userId w = (Inl e1, w1) \<longrightarrow>
                  syncTasks_call None valid tasks userId ov w = (Inr 0, w1)"
      by (simp add: syncTasks_call_None syncTasks_catch[OF u tk1 tk2])
    have c4: "messages_list gmail = Inl e \<longrightarrow>
           fst (syncGmail_call None valid JSON_parse generateContent gmail userId ov w) = Inr 0"
      by (simp add: syncGmail_call_None syncGmail_catch[OF u tk1 tk2] syncGmail_try_def)
    have c5: "calendar = Inl e \<longrightarrow> fst (syncCalendar_call None valid calendar userId ov w) = Inr 0"
      by (simp add: syncCalendar_call_None syncCalendar_catch[OF u tk1 tk2] syncCalendar_try_def new_Date_def)
    have c6: "tasklists_list tasks = Inl e \<longrightarrow> fst (syncTasks_call None valid tasks userId ov w) = Inr 0"
      by (simp add: syncTasks_call_None syncTasks_catch[OF u tk1 tk2] syncTasks_try_def)
    have c7: "messages_list gmail = Inr (Some (gpre @ m # gpost)) \<and>
         for_of (gmail_body valid JSON_parse generateContent gmail
                   (tok, token_of (google_of u) refreshToken) userId) gpre 0
           (log_event (GmailMessagesList tok (token_of (google_of u) refreshToken)) w) = (Inr k, wa) \<and>
         gmail_body valid JSON_parse generateContent gmail
           (tok, token_of (google_of u) refreshToken) userId m k wa = (Inl e, wb) \<longrightarrow>
           syncGmail_call None valid JSON_parse generateContent gmail userId ov w = (Inr 0, wb) \<and>
           prefix (items wa) (items wb) \<and> length (items wa) = length (items w) + k"
      using gmail_error_in_loop[OF u tk1 tk2] by (simp add: syncGmail_call_None) blast
    have c8: "calendar = Inr (Some (cpre @ ev # cpost)) \<and>
         for_of (calendar_body valid userId) cpre 0
           (log_event (CalendarEventsList tok (token_of (google_of u) refreshToken) (fst (new_Date w)))
              (snd (new_Date w))) = (Inr k, wa) \<and>
         calendar_body valid userId ev k wa = (Inl e, wb) \<longrightarrow>
           syncCalendar_call None valid calendar userId ov w = (Inr 0, wb) \<and>
           prefix (items wa) (items wb) \<and> length (items wa) = length (items w) + k"
      using calendar_error_in_loop[OF u tk1 tk2] by (simp add: syncCalendar_call_None) blast
    have c9: "tasklists_list tasks = Inr (Some (lpre @ lst # lpost)) \<and>
         for_of (tasklist_body valid tasks (tok, token_of (google_of u) refreshToken) userId) lpre 0
           (log_event (TasklistsList tok (token_of (google_of u) refreshToken)) w) = (Inr k, wa) \<and>
         tasklist_body valid tasks (tok, token_of (google_of u) refreshToken) userId lst k wa
           = (Inl e, wb) \<longrightarrow>
           syncTasks_call None valid tasks userId ov w = (Inr 0, wb) \<and>
           prefix (items wa) (items wb) \<and> length (items wa) = length (items w) + k"
      using tasks_error_in_loop[OF u tk1 tk2] by (simp add: syncTasks_call_None) blast
    show "(\<forall>e1 w1. syncGmail_try valid JSON_parse generateContent gmail
                     (tok, token_of (google_of u) refreshToken) userId u w = (Inl e1, w1) \<longrightarrow>
                  syncGmail_call None valid JSON_parse generateContent gmail userId ov w = (Inr 0, w1)) \<and>
        (\<forall>e1 w1. syncCalendar_try valid calendar
                     (tok, token_of (google_of u) refreshToken) userId w = (Inl e1, w1) \<longrightarrow>
                  syncCalendar_call None valid calendar userId ov w = (Inr 0, w1)) \<and>
        (\<forall>e1 w1. syncTasks_try valid tasks
                     (tok, token_of (google_of u) refreshToken) userId w = (Inl e1, w1) \<longrightarrow>
                  syncTasks_call None valid tasks userId ov w = (Inr 0, w1)) \<and>
        (messages_list gmail = Inl e \<longrightarrow>
           fst (syncGmail_call None valid JSON_parse generateContent gmail userId ov w) = Inr 0) \<and>
        (calendar = Inl e \<longrightarrow> fst (syncCalendar_call None valid calendar userId ov w) = Inr 0) \<and>
        (tasklists_list tasks = Inl e \<longrightarrow> fst (syncTasks_call None valid tasks userId ov w) = Inr 0) \<and>
        (messages_list gmail = Inr (Some (gpre @ m # gpost)) \<and>
         for_of (gmail_body valid JSON_parse generateContent gmail
                   (tok, token_of (google_of u) refreshToken) userId) gpre 0
           (log_event (GmailMessagesList tok (token_of (google_of u) refreshToken)) w) = (Inr k, wa) \<and>
         gmail_body valid JSON_parse generateContent gmail
           (tok, token_of (google_of u) refreshToken) userId m k wa = (Inl e, wb) \<longrightarrow>
           syncGmail_call None valid JSON_parse generateContent gmail userId ov w = (Inr 0, wb) \<and>
           prefix (items wa) (items wb) \<and> length (items wa) = length (items w) + k) \<and>
        (calendar = Inr (Some (cpre @ ev # cpost)) \<and>
         for_of (calendar_body valid userId) cpre 0
           (log_event (CalendarEventsList tok (token_of (google_of u) refreshToken) (fst (new_Date w)))
              (snd (new_Date w))) = (Inr k, wa) \<and>
         calendar_body valid userId ev k wa = (Inl e, wb) \<longrightarrow>
           syncCalendar_call None valid calendar userId ov w = (Inr 0, wb) \<and>
           prefix (items wa) (items wb) \<and> length (items wa) = length (items w) + k) \<and>
        (tasklists_list tasks = Inr (Some (lpre @ lst # lpost)) \<and>
         for_of (tasklist_body valid tasks (tok, token_of (google_of u) refreshToken) userId) lpre 0
           (log_event (TasklistsList tok (token_of (google_of u) refreshToken)) w) = (Inr k, wa) \<and>
         tasklist_body valid tasks (tok, token_of (google_of u) refreshToken) userId lst k wa
           = (Inl e, wb) \<longrightarrow>
           syncTasks_call None valid tasks userId ov w = (Inr 0, wb) \<and>
           prefix (items wa) (items wb) \<and> length (items wa) = length (items w) + k)"
      by (rule conjI[OF c1 conjI[OF c2 conjI[OF c3 conjI[OF c4 conjI[OF c5 conjI[OF c6
            conjI[OF c7 conjI[OF c8 c9]]]]]]]])
  qed
  have T: "UserModel_findById userId w = Some u \<and>
      or_else ov (token_of (microsoft_of u) accessToken) = Some tok \<and> tok \<noteq> [] \<longrightarrow>
        (\<forall>e1 w1. syncTeams_try valid teams tok userId u w = (Inl e1, w1) \<longrightarrow>
                  syncTeams_call None valid teams userId ov w = (Inr 0, w1)) \<and>
        (teams = Inl e \<longrightarrow> fst (syncTeams_call None valid teams userId ov w) = Inr 0) \<and>
        (teams = Inr response \<and> \<not> r_ok response \<longrightarrow>
           fst (syncTeams_call None valid teams userId ov w) = Inr 0) \<and>
        (teams = Inr response \<and> r_ok response \<and> r_json response = Inr (Some (tpre @ ch # tpost)) \<and>
         for_of (teams_body valid userId) tpre 0 (log_event (GraphChats tok) w) = (Inr k, wa) \<and>
         teams_body valid userId ch k wa = (Inl e, wb) \<longrightarrow>
           syncTeams_call None valid teams userId ov w = (Inr 0, wb) \<and>
           prefix (items wa) (items wb) \<and> length (items wa) = length (items w) + k)"
  proof (intro impI)
    assume tk: "UserModel_findById userId w = Some u \<and>
      or_else ov (token_of (microsoft_of u) accessToken) = Some tok \<and> tok \<noteq> []"
    then have u: "UserModel_findById userId w = Some u"
      and tk1: "or_else ov (token_of (microsoft_of u) accessToken) = Some tok" and tk2: "tok \<noteq> []"
      by simp_all
    have c1: "\<forall>e1 w1. syncTeams_try valid teams tok userId u w = (Inl e1, w1) \<longrightarrow>
                  syncTeams_call None valid teams userId ov w = (Inr 0, w1)"
      by (simp add: syncTeams_call_None syncTeams_catch[OF u tk1 tk2])
    have c2: "teams = Inl e \<longrightarrow> fst (syncTeams_call None valid teams userId ov w) = Inr 0"
      by (simp add: syncTeams_call_None syncTeams_catch[OF u tk1 tk2] syncTeams_try_def)
    have c3: "teams = Inr response \<and> \<not> r_ok response \<longrightarrow>
           fst (syncTeams_call None valid teams userId ov w) = Inr 0"
      by (simp add: syncTeams_call_None syncTeams_catch[OF u tk1 tk2] syncTeams_try_def)
    have c4: "teams = Inr response \<and> r_ok response \<and> r_json response = Inr (Some (tpre @ ch # tpost)) \<and>
         for_of (teams_body valid userId) tpre 0 (log_event (GraphChats tok) w) = (Inr k, wa) \<and>
         teams_body valid userId ch k wa = (Inl e, wb) \<longrightarrow>
           syncTeams_call None valid teams userId ov w = (Inr 0, wb) \<and>
           prefix (items wa) (items wb) \<and> length (items wa) = length (items w) + k"
      using teams_error_in_loop[OF u tk1 tk2] by (simp add: syncTeams_call_None) blast
    show "(\<forall>e1 w1. syncTeams_try valid teams tok userId u w = (Inl e1, w1) \<longrightarrow>
                  syncTeams_call None valid teams userId ov w = (Inr 0, w1)) \<and>
        (teams = Inl e \<longrightarrow> fst (syncTeams_call None valid teams userId ov w) = Inr 0) \<and>
        (teams = Inr response \<and> \<not> r_ok response \<longrightarrow>
           fst (syncTeams_call None valid teams userId ov w) = Inr 0) \<and>
        (teams = Inr response \<and> r_ok response \<and> r_json response = Inr (Some (tpre @ ch # tpost)) \<and>
         for_of (teams_body valid userId) tpre 0 (log_event (GraphChats tok) w) = (Inr k, wa) \<and>
         teams_body valid userId ch k wa = (Inl e, wb) \<longrightarrow>
           syncTeams_call None valid teams userId ov w = (Inr 0, wb) \<and>
           prefix (items wa) (items wb) \<and> length (items wa) = length (items w) + k)"
      by (rule conjI[OF c1 conjI[OF c2 conjI[OF c3 c4]]])
  qed
  show ?thesis
    by (rule conjI[OF syncGmail_call_Some conjI[OF syncCalendar_call_Some
          conjI[OF syncTasks_call_Some conjI[OF syncTeams_call_Some
          conjI[OF syncGmail_call_count conjI[OF syncCalendar_call_count
          conjI[OF syncTasks_call_count conjI[OF syncTeams_call_count
          conjI[OF syncGmail_call_prefix conjI[OF syncCalendar_call_prefix
          conjI[OF syncTasks_call_prefix conjI[OF syncTeams_call_prefix conjI[OF G T]]]]]]]]]]]]])
qed

theorem sync_rejects_only_when_user_lookup_rejects_witness:
  "UserModel_findById ''alice'' alice_world = Some alice \<and>
   or_else None (token_of (google_of alice) accessToken) = Some ''g-token'' \<and>
   or_else None (token_of (microsoft_of alice) accessToken) = Some ''m-token'' \<and>
   fst (syncCalendar_call None schema_valid (Inr (Some [standup, undated])) ''alice'' None alice_world) = Inr 0 \<and>
   map (\<lambda>i. googleId (i_metadata (item_data i)))
     (items (snd (syncCalendar_call None schema_valid (Inr (Some [standup, undated])) ''alice'' None alice_world)))
     = [Some ''ev-1''] \<and>
   fst (syncGmail_call None schema_valid sample_parse always_work flaky_gmail ''alice'' None alice_world) = Inr 0 \<and>
   map (\<lambda>i. googleId (i_metadata (item_data i)))
     (items (snd (syncGmail_call None schema_valid sample_parse always_work flaky_gmail ''alice'' None alice_world)))
     = [Some ''m-1''] \<and>
   fst (syncTasks_call None schema_valid flaky_tasks ''alice'' None alice_world) = Inr 0 \<and>
   map (\<lambda>i. googleId (i_metadata (item_data i)))
     (items (snd (syncTasks_call None schema_valid flaky_tasks ''alice'' None alice_world)))
     = [Some ''task-1''] \<and>
   fst (syncTeams_call None schema_valid (Inr (chats_response [hello_chat, long_chat])) ''alice'' None alice_world) = Inr 0 \<and>
   map (\<lambda>i. microsoftId (i_metadata (item_data i)))
     (items (snd (syncTeams_call None schema_valid (Inr (chats_response [hello_chat, long_chat])) ''alice'' None
                    alice_world)))
     = [Some ''msg-1'']"
proof -
  have u: "UserModel_findById ''alice'' alice_world = Some alice" by code_simp
  have gt: "or_else None (token_of (google_of alice) accessToken) = Some ''g-token''" by code_simp
  have mt: "or_else None (token_of (microsoft_of alice) accessToken) = Some ''m-token''" by code_simp
  have rt: "token_of (google_of alice) refreshToken = Some ''g-refresh''" by code_simp
  have gne: "''g-token'' \<noteq> []" and mne: "''m-token'' \<noteq> []" by simp_all
  \<comment> \<open>Calendar: the second event has no start, and the schema rejects its date.\<close>
  define c0 where "c0 = log_event (CalendarEventsList ''g-token'' (token_of (google_of alice) refreshToken)
                          (fst (new_Date alice_world))) (snd (new_Date alice_world))"
  define ca where "ca = snd (for_of (calendar_body schema_valid ''alice'') [standup] 0 c0)"
  define cb where "cb = snd (calendar_body schema_valid ''alice'' undated 1 ca)"
  have c1: "fst (for_of (calendar_body schema_valid ''alice'') [standup] 0 c0) = Inr 1"
    unfolding c0_def by code_simp
  have c2: "fst (calendar_body schema_valid ''alice'' undated 1 ca) = Inl ValidationFailure"
    unfolding ca_def c0_def by code_simp
  have c3: "map (\<lambda>i. googleId (i_metadata (item_data i))) (items cb) = [Some ''ev-1'']"
    unfolding cb_def ca_def c0_def by code_simp
  have cal: "syncCalendar_call None schema_valid (Inr (Some [standup, undated])) ''alice'' None alice_world = (Inr 0, cb)"
    using sync_rejects_only_when_user_lookup_rejects[where u = alice and userId = "''alice''" and w = alice_world
        and ov = None and tok = "''g-token''"
        and calendar = "Inr (Some ([standup] @ undated # []))" and cpre = "[standup]"
        and ev = undated and cpost = "[]" and valid = schema_valid and k = 1 and wa = ca
        and e = ValidationFailure and wb = cb,
        THEN conjunct2, THEN conjunct2, THEN conjunct2, THEN conjunct2, THEN conjunct2,
        THEN conjunct2, THEN conjunct2, THEN conjunct2, THEN conjunct2, THEN conjunct2,
        THEN conjunct2, THEN conjunct2, THEN conjunct1, THEN mp,
        OF conjI[OF u conjI[OF gt gne]], THEN conjunct2, THEN conjunct2, THEN conjunct2,
        THEN conjunct2, THEN conjunct2, THEN conjunct2, THEN conjunct2, THEN conjunct1]
      c1 c2
    by (simp add: c0_def ca_def cb_def prod_eq_iff)
  \<comment> \<open>Gmail: fetching the second message rejects.\<close>
  define g0 where "g0 = log_event (GmailMessagesList ''g-token'' (token_of (google_of alice) refreshToken))
                          alice_world"
  define ga where "ga = snd (for_of (gmail_body schema_valid sample_parse always_work flaky_gmail
                                (''g-token'', token_of (google_of alice) refreshToken) ''alice'')
                              [Some ''m-1''] 0 g0)"
  define gb where "gb = snd (gmail_body schema_valid sample_parse always_work flaky_gmail
                                (''g-token'', token_of (google_of alice) refreshToken) ''alice''
                                (Some ''m-2'') 1 ga)"
  have g1: "fst (for_of (gmail_body schema_valid sample_parse always_work flaky_gmail
                                (''g-token'', token_of (google_of alice) refreshToken) ''alice'')
                              [Some ''m-1''] 0 g0) = Inr 1"
    unfolding g0_def by code_simp
  have g2: "fst (gmail_body schema_valid sample_parse always_work flaky_gmail
                                (''g-token'', token_of (google_of alice) refreshToken) ''alice''
                                (Some ''m-2'') 1 ga) = Inl (RemoteFailure ''503'')"
    unfolding ga_def g0_def by code_simp
  have g3: "map (\<lambda>i. googleId (i_metadata (item_data i))) (items gb) = [Some ''m-1'']"
    unfolding gb_def ga_def g0_def by code_simp
  have g4: "messages_list flaky_gmail = Inr (Some ([Some ''m-1''] @ Some ''m-2'' # []))"
    by (simp add: flaky_gmail_def)
  have gm: "syncGmail_call None schema_valid sample_parse always_work flaky_gmail ''alice'' None alice_world
              = (Inr 0, gb)"
    using sync_rejects_only_when_user_lookup_rejects[where u = alice and userId = "''alice''" and w = alice_world
        and ov = None and tok = "''g-token''"
        and gmail = flaky_gmail and gpre = "[Some ''m-1'']" and m = "Some ''m-2''" and gpost = "[]"
        and valid = schema_valid and JSON_parse = sample_parse and generateContent = always_work
        and k = 1 and wa = ga and e = "RemoteFailure ''503''" and wb = gb,
        THEN conjunct2, THEN conjunct2, THEN conjunct2, THEN conjunct2, THEN conjunct2,
        THEN conjunct2, THEN conjunct2, THEN conjunct2, THEN conjunct2, THEN conjunct2,
        THEN conjunct2, THEN conjunct2, THEN conjunct1, THEN mp,
        OF conjI[OF u conjI[OF gt gne]], THEN conjunct2, THEN conjunct2, THEN conjunct2,
        THEN conjunct2, THEN conjunct2, THEN conjunct2, THEN conjunct1]
      g1 g2 g4
    by (simp add: g0_def ga_def gb_def prod_eq_iff)
  \<comment> \<open>Tasks: listing the tasks of the second list rejects.\<close>
  define t0 where "t0 = log_event (TasklistsList ''g-token'' (token_of (google_of alice) refreshToken))
                          alice_world"
  define ta where "ta = snd (for_of (tasklist_body schema_valid flaky_tasks
                                (''g-token'', token_of (google_of alice) refreshToken) ''alice'')
                              [inbox_list] 0 t0)"
  define tb where "tb = snd (tasklist_body schema_valid flaky_tasks
                                (''g-token'', token_of (google_of alice) refreshToken) ''alice''
                                broken_list 1 ta)"
  have t1: "fst (for_of (tasklist_body schema_valid flaky_tasks
                                (''g-token'', token_of (google_of alice) refreshToken) ''alice'')
                              [inbox_list] 0 t0) = Inr 1"
    unfolding t0_def by code_simp
  have t2: "fst (tasklist_body schema_valid flaky_tasks
                                (''g-token'', token_of (google_of alice) refreshToken) ''alice''
                                broken_list 1 ta) = Inl (RemoteFailure ''503'')"
    unfolding ta_def t0_def by code_simp
  have t3: "map (\<lambda>i. googleId (i_metadata (item_data i))) (items tb) = [Some ''task-1'']"
    unfolding tb_def ta_def t0_def by code_simp
  have t4: "tasklists_list flaky_tasks = Inr (Some ([inbox_list] @ broken_list # []))"
    by (simp add: flaky_tasks_def)
  have tk: "syncTasks_call None schema_valid flaky_tasks ''alice'' None alice_world = (Inr 0, tb)"
    using sync_rejects_only_when_user_lookup_rejects[where u = alice and userId = "''alice''" and w = alice_world
        and ov = None and tok = "''g-token''"
        and tasks = flaky_tasks and lpre = "[inbox_list]" and lst = broken_list and lpost = "[]"
        and valid = schema_valid and k = 1 and wa = ta and e = "RemoteFailure ''503''" and wb = tb,
        THEN conjunct2, THEN conjunct2, THEN conjunct2, THEN conjunct2, THEN conjunct2,
        THEN conjunct2, THEN conjunct2, THEN conjunct2, THEN conjunct2, THEN conjunct2,
        THEN conjunct2, THEN conjunct2, THEN conjunct1, THEN mp,
        OF conjI[OF u conjI[OF gt gne]], THEN conjunct2, THEN conjunct2, THEN conjunct2,
        THEN conjunct2, THEN conjunct2, THEN conjunct2, THEN conjunct2, THEN conjunct2]
      t1 t2 t4
    by (simp add: t0_def ta_def tb_def prod_eq_iff)
  \<comment> \<open>Teams: the schema rejects the preview of the second chat.\<close>
  define m0 where "m0 = log_event (GraphChats ''m-token'') alice_world"
  define ma where "ma = snd (for_of (teams_body schema_valid ''alice'') [hello_chat] 0 m0)"
  define mb where "mb = snd (teams_body schema_valid ''alice'' long_chat 1 ma)"
  have m1: "fst (for_of (teams_body schema_valid ''alice'') [hello_chat] 0 m0) = Inr 1"
    unfolding m0_def by code_simp
  have m2: "fst (teams_body schema_valid ''alice'' long_chat 1 ma) = Inl ValidationFailure"
    unfolding ma_def m0_def by code_simp
  have m3: "map (\<lambda>i. microsoftId (i_metadata (item_data i))) (items mb) = [Some ''msg-1'']"
    unfolding mb_def ma_def m0_def by code_simp
  have m4: "r_ok (chats_response [hello_chat, long_chat]) \<and>
            r_json (chats_response [hello_chat, long_chat]) = Inr (Some ([hello_chat] @ long_chat # []))"
    by (simp add: chats_response_def)
  have tm: "syncTeams_call None schema_valid (Inr (chats_response [hello_chat, long_chat])) ''alice'' None
              alice_world = (Inr 0, mb)"
    using sync_rejects_only_when_user_lookup_rejects[where u = alice and userId = "''alice''" and w = alice_world
        and ov = None and tok = "''m-token''"
        and teams = "Inr (chats_response [hello_chat, long_chat])"
        and response = "chats_response [hello_chat, long_chat]"
        and tpre = "[hello_chat]" and ch = long_chat and tpost = "[]"
        and valid = schema_valid and k = 1 and wa = ma and e = ValidationFailure and wb = mb,
        THEN conjunct2, THEN conjunct2, THEN conjunct2, THEN conjunct2, THEN conjunct2,
        THEN conjunct2, THEN conjunct2, THEN conjunct2, THEN conjunct2, THEN conjunct2,
        THEN conjunct2, THEN conjunct2, THEN conjunct2, THEN mp,
        OF conjI[OF u conjI[OF mt mne]], THEN conjunct2, THEN conjunct2, THEN conjunct2]
      m1 m2 m4
    by (simp add: m0_def ma_def mb_def prod_eq_iff)
  show ?thesis
    using u gt mt cal c3 gm g3 tk t3 tm m3 by simp
qed

text \<open>
  C5, as the specification words it, fails: an entry point does throw to its caller. The
  lookup of the user is awaited before the \<^verbatim>\<open>try\<close> block, so when the database rejects it
  (here with a lost connection) each of the four calls rejects with that error instead of
  returning 0; the store is as it was.
\<close>

theorem sync_call_rejects_counterexample:
  "syncGmail_call (Some (DatabaseError ''connection lost'')) schema_valid sample_parse always_work
       one_mail_gmail ''alice'' None alice_world
     = (Inl (DatabaseError ''connection lost''), alice_world) \<and>
   syncCalendar_call (Some (DatabaseError ''connection lost'')) schema_valid (Inr (Some [standup]))
       ''alice'' None alice_world
     = (Inl (DatabaseError ''connection lost''), alice_world) \<and>
   syncTasks_call (Some (DatabaseError ''connection lost'')) schema_valid one_list_tasks
       ''alice'' None alice_world
     = (Inl (DatabaseError ''connection lost''), alice_world) \<and>
   syncTeams_call (Some (DatabaseError ''connection lost'')) schema_valid
       (Inr (chats_response [hello_chat])) ''alice'' None alice_world
     = (Inl (DatabaseError ''connection lost''), alice_world) \<and>
   syncGmail_call (Some (DatabaseError ''connection lost'')) schema_valid sample_parse always_work
       one_mail_gmail ''alice'' None alice_world
     \<noteq> (Inr 0, alice_world)"
  by (simp add: syncGmail_call_def syncCalendar_call_def syncTasks_call_def syncTeams_call_def
        UserModel_findById_await_def)

section \<open>Thread priority\<close>

lemma priority_raised_only_nth:
  "priority_raised_only w w' \<longleftrightarrow>
     prefix (items w) (items w') \<and> length (threads w) \<le> length (threads w') \<and>
     (\<forall>n<length (threads w).
        t_id (threads w' ! n) = t_id (threads w ! n) \<and>
        (t_priority (threads w' ! n) = t_priority (threads w ! n) \<or>
         t_priority (threads w' ! n) = ''high'' \<and>
         (\<exists>it\<in>set (drop (length (items w)) (items w')). i_priority (item_data it) = JStr ''high'')))"
  by (auto simp: priority_raised_only_def list_all2_conv_all_nth list_ex_iff)

lemma priority_raised_only_refl: "priority_raised_only w w"
  by (simp add: priority_raised_only_nth)

lemma drop_prefix_mono:
  assumes "prefix b c" and "length a \<le> length b"
  shows "set (drop (length b) c) \<subseteq> set (drop (length a) c)"
  using assms(2) by (simp add: set_drop_subset_set_drop)

lemma drop_prefix_keep:
  assumes "prefix b c"
  shows "set (drop n b) \<subseteq> set (drop n c)"
proof -
  from assms obtain r where "c = b @ r" by (auto simp: prefix_def)
  then show ?thesis by auto
qed

lemma priority_raised_only_trans:
  assumes ab: "priority_raised_only a b" and bc: "priority_raised_only b c"
  shows "priority_raised_only a c"
proof -
  from ab have pab: "prefix (items a) (items b)" and lab: "length (threads a) \<le> length (threads b)"
    by (simp_all add: priority_raised_only_nth)
  from bc have pbc: "prefix (items b) (items c)" and lbc: "length (threads b) \<le> length (threads c)"
    by (simp_all add: priority_raised_only_nth)
  have len: "length (items a) \<le> length (items b)" using pab by (simp add: prefix_length_le)
  have d1: "set (drop (length (items b)) (items c)) \<subseteq> set (drop (length (items a)) (items c))"
    using drop_prefix_mono[OF pbc len] .
  have d2: "set (drop (length (items a)) (items b)) \<subseteq> set (drop (length (items a)) (items c))"
    using drop_prefix_keep[OF pbc] .
  have "\<forall>n<length (threads a).
        t_id (threads c ! n) = t_id (threads a ! n) \<and>
        (t_priority (threads c ! n) = t_priority (threads a ! n) \<or>
         t_priority (threads c ! n) = ''high'' \<and>
         (\<exists>it\<in>set (drop (length (items a)) (items c)). i_priority (item_data it) = JStr ''high''))"
  proof (intro allI impI)
    fix n assume n: "n < length (threads a)"
    then have nb: "n < length (threads b)" using lab by simp
    from ab n have 1: "t_id (threads b ! n) = t_id (threads a ! n)"
      and 2: "t_priority (threads b ! n) = t_priority (threads a ! n) \<or>
         t_priority (threads b ! n) = ''high'' \<and>
         (\<exists>it\<in>set (drop (length (items a)) (items b)). i_priority (item_data it) = JStr ''high'')"
      by (simp_all add: priority_raised_only_nth)
    from bc nb have 3: "t_id (threads c ! n) = t_id (threads b ! n)"
      and 4: "t_priority (threads c ! n) = t_priority (threads b ! n) \<or>
         t_priority (threads c ! n) = ''high'' \<and>
         (\<exists>it\<in>set (drop (length (items b)) (items c)). i_priority (item_data it) = JStr ''high'')"
      by (simp_all add: priority_raised_only_nth)
    show "t_id (threads c ! n) = t_id (threads a ! n) \<and>
        (t_priority (threads c ! n) = t_priority (threads a ! n) \<or>
         t_priority (threads c ! n) = ''high'' \<and>
         (\<exists>it\<in>set (drop (length (items a)) (items c)). i_priority (item_data it) = JStr ''high''))"
      using 1 2 3 4 d1 d2 by auto
  qed
  then show ?thesis
    using pab pbc lab lbc by (simp add: priority_raised_only_nth)
qed

lemma update_first_length [simp]: "length (update_first p f xs) = length xs"
  by (induction xs) auto

lemma update_first_nth:
  "n < length xs \<Longrightarrow> update_first p f xs ! n = xs ! n \<or> update_first p f xs ! n = f (xs ! n)"
proof (induction xs arbitrary: n)
  case Nil
  then show ?case by simp
next
  case (Cons x xs)
  then show ?case by (cases n) auto
qed

lemma materialize_priority:
  assumes esc: "esc \<longrightarrow> (\<forall>tid d. i_priority (mk tid d) = JStr ''high'')"
    and run: "materialize valid userId ts mk esc count w = (r, w')"
  shows "priority_raised_only w w'"
proof -
  obtain tid w1 where g: "getOrCreateExternalThread userId w = (tid, w1)"
    by (cases "getOrCreateExternalThread userId w")
  have th1: "threads w1 = threads w \<or> (\<exists>t. threads w1 = threads w @ [t])"
    and it1: "items w1 = items w"
    using g by (auto simp: prim_defs split: option.splits)
  have pre: "prefix (items w) (items w')" using materialize_prefix[OF run] .
  show ?thesis
  proof (cases r)
    case (Inl e)
    with run have "threads w' = threads w1"
      using materialize_same_threads_Inl[of valid userId ts mk esc count w e w'] g by simp
    with th1 pre show ?thesis
      by (auto simp: priority_raised_only_nth nth_append)
  next
    case (Inr k)
    with run obtain upd where
      thr: "threads w' = update_first (\<lambda>t. t_id t = tid) (apply_update upd) (threads w1)"
      and upd: "set_priority upd = (if esc then Some ''high'' else None)"
      and new: "items w' = items w @ [\<lparr>item_id = next_id w' - 1,
                  item_data = mk (import_thread userId w) (import_date userId ts w)\<rparr>]"
      using g by (auto simp: materialize_def prim_defs import_thread_def import_date_def
          split: prod.splits option.splits sum.splits if_splits)
    have len: "length (threads w) \<le> length (threads w')" using thr th1 by auto
    have "\<forall>n<length (threads w).
        t_id (threads w' ! n) = t_id (threads w ! n) \<and>
        (t_priority (threads w' ! n) = t_priority (threads w ! n) \<or>
         t_priority (threads w' ! n) = ''high'' \<and>
         (\<exists>it\<in>set (drop (length (items w)) (items w')). i_priority (item_data it) = JStr ''high''))"
    proof (intro allI impI)
      fix n assume n: "n < length (threads w)"
      then have n1: "n < length (threads w1)" and same: "threads w1 ! n = threads w ! n"
        using th1 by (auto simp: nth_append)
      from update_first_nth[OF n1, of "\<lambda>t. t_id t = tid" "apply_update upd"] thr
      have "threads w' ! n = threads w ! n \<or> threads w' ! n = apply_update upd (threads w ! n)"
        using same by simp
      then show "t_id (threads w' ! n) = t_id (threads w ! n) \<and>
        (t_priority (threads w' ! n) = t_priority (threads w ! n) \<or>
         t_priority (threads w' ! n) = ''high'' \<and>
         (\<exists>it\<in>set (drop (length (items w)) (items w')). i_priority (item_data it) = JStr ''high''))"
        using upd esc new by (auto simp: apply_update_def)
    qed
    with pre len show ?thesis by (simp add: priority_raised_only_nth)
  qed
qed

lemma priority_same_db:
  "items w' = items w \<Longrightarrow> threads w' = threads w \<Longrightarrow> priority_raised_only w w'"
  by (simp add: priority_raised_only_nth)

lemma for_of_priority:
  assumes "\<forall>c\<in>set cs. \<forall>k w r w'. body c k w = (r, w') \<longrightarrow> priority_raised_only w w'"
    and "for_of body cs k w = (r, w')"
  shows "priority_raised_only w w'"
  using for_of_rel[where R = priority_raised_only, OF _ _ assms]
    priority_raised_only_refl priority_raised_only_trans by blast

lemma priority_log [simp]:
  "priority_raised_only (log_event e w) w' = priority_raised_only w w'"
  "priority_raised_only w (log_event e w') = priority_raised_only w w'"
  by (simp_all add: priority_raised_only_nth log_event_def)

lemma priority_left:
  "items w0 = items w \<Longrightarrow> threads w0 = threads w \<Longrightarrow> priority_raised_only w w' \<Longrightarrow>
     priority_raised_only w0 w'"
  by (simp add: priority_raised_only_nth)

lemma priority_right:
  "items w2 = items w' \<Longrightarrow> threads w2 = threads w' \<Longrightarrow> priority_raised_only w w' \<Longrightarrow>
     priority_raised_only w w2"
  by (simp add: priority_raised_only_nth)

lemma materialize_priority_plain:
  "materialize valid userId ts mk False count w = (r, w') \<Longrightarrow> priority_raised_only w w'"
  using materialize_priority[of False mk valid userId ts count w r w'] by simp

lemma calendar_body_priority:
  "calendar_body valid userId ev count w = (r, w') \<Longrightarrow> priority_raised_only w w'"
  by (auto simp: calendar_body_def WorkItemModel_findOne_def priority_raised_only_refl
      split: prod.splits option.splits dest!: materialize_priority_plain)

lemma task_body_priority:
  "task_body valid userId lst tk count w = (r, w') \<Longrightarrow> priority_raised_only w w'"
  by (auto simp: task_body_def WorkItemModel_findOne_def priority_raised_only_refl
      split: prod.splits option.splits dest!: materialize_priority_plain)

lemma teams_body_priority:
  "teams_body valid userId ch count w = (r, w') \<Longrightarrow> priority_raised_only w w'"
  by (auto simp: teams_body_def WorkItemModel_findOne_def priority_raised_only_refl
      split: prod.splits option.splits if_splits dest!: materialize_priority_plain)

lemma gmail_body_priority:
  assumes run: "gmail_body valid P G gmail auth userId msg count w = (r, w')"
  shows "priority_raised_only w w'"
proof (cases "messages_get gmail msg")
  case (Inl e)
  with run show ?thesis by (auto simp: gmail_body_def priority_raised_only_refl)
next
  case (Inr details)
  define subject where "subject = or_default (header_value (d_headers details) ''Subject'') ''No Subject''"
  define sender where "sender = or_default (header_value (d_headers details) ''From'') ''Unknown''"
  define snippet where "snippet = or_default (d_snippet details) []"
  define analysis where "analysis = classify P G subject sender snippet"
  define w3 where "w3 = log_event (GenerateContent subject sender snippet)
        (log_event (FindOneWorkItem userId GoogleId msg)
           (log_event (GmailMessagesGet (fst auth) (snd auth) msg) w))"
  define mk where "mk = (\<lambda>externalThreadId timestamp.
                                \<lparr>i_userId = userId,
                                 i_type = Email,
                                 i_title = subject,
                                 i_source = ''Gmail: '' @ sender,
                                 i_timestamp = timestamp,
                                 i_preview = snippet,
                                 i_isRead = False,
                                 i_priority = get_prop analysis ''priority'',
                                 i_threadId = externalThreadId,
                                 i_metadata =
                                   \<lparr>googleId = msg,
                                    microsoftId = None,
                                    extra = [(''threadId'', opt_str (d_threadId details)),
                                             (''aiReason'', get_prop analysis ''reason'')]\<rparr>\<rparr>)"
  have body: "gmail_body valid P G gmail auth userId msg count w =
     (case find (\<lambda>i. i_userId (item_data i) = userId \<and> md_key GoogleId i = msg) (items w) of
        Some existing \<Rightarrow> (Inr count, log_event (FindOneWorkItem userId GoogleId msg)
           (log_event (GmailMessagesGet (fst auth) (snd auth) msg) w))
      | None \<Rightarrow>
          if \<not> truthy analysis \<or> \<not> truthy (get_prop analysis ''isWork'') then (Inr count, w3)
          else materialize valid userId (Some (DateOfMillis (d_internalDate details))) mk
                 (get_prop analysis ''priority'' = JStr ''high'') count w3)"
    using Inr
    by (simp add: gmail_body_def WorkItemModel_findOne_def Let_def
        subject_def sender_def snippet_def analysis_def w3_def mk_def split: option.splits)
  have mkp: "get_prop analysis ''priority'' = JStr ''high'' \<longrightarrow>
               (\<forall>tid d. i_priority (mk tid d) = JStr ''high'')"
    by (simp add: mk_def)
  show ?thesis
  proof (cases "find (\<lambda>i. i_userId (item_data i) = userId \<and> md_key GoogleId i = msg) (items w)")
    case (Some existing)
    with run body show ?thesis by (auto simp: priority_raised_only_refl)
  next
    case None
    show ?thesis
    proof (cases "\<not> truthy analysis \<or> \<not> truthy (get_prop analysis ''isWork'')")
      case True
      with run body None show ?thesis by (auto simp: w3_def priority_raised_only_refl)
    next
      case False
      with run body None have "materialize valid userId (Some (DateOfMillis (d_internalDate details))) mk
                 (get_prop analysis ''priority'' = JStr ''high'') count w3 = (r, w')" by simp
      from materialize_priority[OF mkp this] show ?thesis by (simp add: w3_def)
    qed
  qed
qed

lemma tasklist_body_priority:
  "tasklist_body valid tasks auth userId lst count w = (r, w') \<Longrightarrow> priority_raised_only w w'"
  by (auto simp: tasklist_body_def priority_raised_only_refl split: sum.splits
      dest!: for_of_priority[rotated] dest: task_body_priority)

lemma priority_frame [simp]:
  "priority_raised_only (snd (new_Date w)) w' = priority_raised_only w w'"
  "priority_raised_only w (snd (new_Date w')) = priority_raised_only w w'"
  "priority_raised_only (update_user userId f w) w' = priority_raised_only w w'"
  "priority_raised_only w (update_user userId f w') = priority_raised_only w w'"
  by (simp_all add: priority_raised_only_nth new_Date_def update_user_def)

lemma log_event_threads [simp]: "threads (log_event e w) = threads w"
  by (simp add: log_event_def)

lemma new_Date_threads [simp]: "threads (snd (new_Date w)) = threads w"
  by (simp add: new_Date_def)

lemma update_user_threads [simp]: "threads (update_user userId f w) = threads w"
  by (simp add: update_user_def)

lemma for_of_priority_snd:
  assumes "\<And>c k w. priority_raised_only w (snd (body c k w))"
    and "items w0 = items w" and "threads w0 = threads w"
  shows "priority_raised_only w0 (snd (for_of body cs k w))"
proof -
  have "\<forall>c\<in>set cs. \<forall>k w r w'. body c k w = (r, w') \<longrightarrow> priority_raised_only w w'"
    using assms(1) by (metis snd_conv)
  then have "priority_raised_only w (snd (for_of body cs k w))"
    using for_of_priority[of cs body k w "fst (for_of body cs k w)" "snd (for_of body cs k w)"]
    by simp
  then show ?thesis using assms(2,3) priority_left by blast
qed

lemma syncCalendar_try_priority:
  "priority_raised_only w (snd (syncCalendar_try valid calendar auth userId w))"
proof -
  have b: "\<And>c k w. priority_raised_only w (snd (calendar_body valid userId c k w))"
    using calendar_body_priority by (metis prod.collapse)
  show ?thesis
    using for_of_priority_snd[of "calendar_body valid userId", OF b]
    by (simp add: syncCalendar_try_def case_prod_unfold priority_raised_only_refl split: sum.splits)
qed

lemma syncTasks_try_priority:
  "priority_raised_only w (snd (syncTasks_try valid tasks auth userId w))"
proof -
  have b: "\<And>c k w. priority_raised_only w (snd (tasklist_body valid tasks auth userId c k w))"
    using tasklist_body_priority by (metis prod.collapse)
  show ?thesis
    using for_of_priority_snd[of "tasklist_body valid tasks auth userId", OF b]
    by (simp add: syncTasks_try_def case_prod_unfold priority_raised_only_refl split: sum.splits)
qed

lemma syncGmail_try_priority:
  "priority_raised_only w (snd (syncGmail_try valid P G gmail auth userId u w))"
proof -
  have b: "\<And>c k w. priority_raised_only w (snd (gmail_body valid P G gmail auth userId c k w))"
    using gmail_body_priority by (metis prod.collapse)
  show ?thesis
    using for_of_priority_snd[of "gmail_body valid P G gmail auth userId", OF b]
    by (simp add: syncGmail_try_def case_prod_unfold priority_raised_only_refl
        split: sum.splits option.splits)
qed

lemma syncTeams_try_priority:
  "priority_raised_only w (snd (syncTeams_try valid teams tok userId u w))"
proof -
  have b: "\<And>c k w. priority_raised_only w (snd (teams_body valid userId c k w))"
    using teams_body_priority by (metis prod.collapse)
  show ?thesis
    using for_of_priority_snd[of "teams_body valid userId", OF b]
    by (simp add: syncTeams_try_def case_prod_unfold priority_raised_only_refl
        split: sum.splits option.splits)
qed

lemma syncCalendar_priority: "priority_raised_only w (snd (syncCalendar valid calendar userId ov w))"
  using syncCalendar_try_priority
  by (simp add: syncCalendar_def case_prod_unfold priority_raised_only_refl
      split: option.splits sum.splits)

lemma syncTasks_priority: "priority_raised_only w (snd (syncTasks valid tasks userId ov w))"
  using syncTasks_try_priority
  by (simp add: syncTasks_def case_prod_unfold priority_raised_only_refl
      split: option.splits sum.splits)

lemma syncGmail_priority: "priority_raised_only w (snd (syncGmail valid P G gmail userId ov w))"
  using syncGmail_try_priority
  by (simp add: syncGmail_def case_prod_unfold priority_raised_only_refl
      split: option.splits sum.splits)

lemma syncTeams_priority: "priority_raised_only w (snd (syncTeams valid teams userId ov w))"
  using syncTeams_try_priority
  by (simp add: syncTeams_def case_prod_unfold priority_raised_only_refl
      split: option.splits sum.splits)

text \<open>
  C9. No sync cycle lowers the priority of a thread. After any of the four entry points,
  every thread that was stored before is still at its place with its id, and its priority
  is what it was or is \<^verbatim>\<open>high\<close>; in the second case the cycle has stored a new item
  whose priority is \<^verbatim>\<open>high\<close>.
\<close>

theorem thread_priority_only_raised:
  "priority_raised_only w (snd (syncGmail valid JSON_parse generateContent gmail userId ov w)) \<and>
   priority_raised_only w (snd (syncCalendar valid calendar userId ov w)) \<and>
   priority_raised_only w (snd (syncTasks valid tasks userId ov w)) \<and>
   priority_raised_only w (snd (syncTeams valid teams userId ov w))"
  using syncGmail_priority syncCalendar_priority syncTasks_priority syncTeams_priority
  by simp

theorem thread_priority_only_raised_witness:
  "priority_raised_only busy_world
     (snd (syncGmail schema_valid sample_parse always_work one_mail_gmail ''alice'' None busy_world)) \<and>
   map t_priority (threads busy_world) = [''low'', ''medium''] \<and>
   map t_priority
     (threads (snd (syncGmail schema_valid sample_parse always_work one_mail_gmail ''alice'' None
                      busy_world))) = [''high'', ''medium''] \<and>
   map (\<lambda>i. i_priority (item_data i))
     (items (snd (syncGmail schema_valid sample_parse always_work one_mail_gmail ''alice'' None
                      busy_world))) = [JStr ''high''] \<and>
   map t_priority
     (threads (snd (syncCalendar schema_valid (Inr (Some [standup])) ''alice'' None busy_world)))
     = [''low'', ''medium'']"
proof -
  have a: "map t_priority (threads busy_world) = [''low'', ''medium'']" by code_simp
  have b: "map t_priority
     (threads (snd (syncGmail schema_valid sample_parse always_work one_mail_gmail ''alice'' None
                      busy_world))) = [''high'', ''medium'']" by code_simp
  have c: "map (\<lambda>i. i_priority (item_data i))
     (items (snd (syncGmail schema_valid sample_parse always_work one_mail_gmail ''alice'' None
                      busy_world))) = [JStr ''high'']" by code_simp
  have d: "map t_priority
     (threads (snd (syncCalendar schema_valid (Inr (Some [standup])) ''alice'' None busy_world)))
     = [''low'', ''medium'']" by code_simp
  show ?thesis
    using thread_priority_only_raised[of busy_world schema_valid sample_parse always_work
        one_mail_gmail "''alice''" None] a b c d
    by simp
qed

section \<open>The import thread\<close>

lemma find_update_first:
  assumes "\<And>x. p (f x) = p x"
  shows "find p (update_first p f xs) = map_option f (find p xs)"
  by (induction xs) (auto simp: assms)

lemma find_by_id_distinct:
  "distinct (map t_id ts) \<Longrightarrow> th \<in> set ts \<Longrightarrow> find (\<lambda>t. t_id t = t_id th) ts = Some th"
proof (induction ts)
  case Nil
  then show ?case by simp
next
  case (Cons a ts)
  then show ?case by (auto simp: image_iff)
qed

lemma find_Some_set: "find p xs = Some x \<Longrightarrow> x \<in> set xs \<and> p x"
  by (induction xs) (auto split: if_splits)

lemma find_None_iff': "find p xs = None \<longleftrightarrow> (\<forall>x\<in>set xs. \<not> p x)"
  by (induction xs) auto

lemma getOrCreate_thread:
  assumes wf: "well_formed w" and g: "getOrCreateExternalThread userId w = (tid, w1)"
  shows "\<exists>th0. find (\<lambda>t. t_id t = tid) (threads w1) = Some th0 \<and> t_userId th0 = userId \<and>
           t_title th0 = ''External Imports'' \<and>
           (\<forall>i\<in>set (t_itemIds th0). i < next_id w1)"
proof (cases "find (\<lambda>t. t_userId t = userId \<and> t_title t = ''External Imports'') (threads w)")
  case (Some th0)
  with g have eq: "tid = t_id th0" "w1 = w" by (simp_all add: getOrCreateExternalThread_def)
  from find_Some_set[OF Some] have m: "th0 \<in> set (threads w)" and p: "t_userId th0 = userId"
    "t_title th0 = ''External Imports''" by simp_all
  from wf have d: "distinct (map t_id (threads w))" by (simp add: well_formed_def)
  from wf m have "\<forall>i\<in>set (t_itemIds th0). i < next_id w"
    by (auto simp: well_formed_def list_all_iff)
  with find_by_id_distinct[OF d m] eq p show ?thesis by auto
next
  case None
  with g have tid: "tid = next_id w"
    and th: "threads w1 = threads w @
                      [\<lparr>t_id = next_id w,
                        t_userId = userId,
                        t_title = ''External Imports'',
                        t_description =
                          ''Automatically imported items from Google Workspace and other integrations.'',
                        t_priority = ''medium'',
                        t_progress = 0,
                        t_lastActivity = clock w,
                        t_itemIds = []\<rparr>]"
    by (auto simp: getOrCreateExternalThread_def new_Date_def)
  from wf have "\<forall>t\<in>set (threads w). t_id t \<noteq> next_id w"
    by (auto simp: well_formed_def list_all_iff)
  then have "find (\<lambda>t. t_id t = tid) (threads w) = None"
    using tid by (simp add: find_None_iff')
  then show ?thesis using th tid by (simp add: find_app)
qed

lemma getOrCreate_frame:
  "getOrCreateExternalThread userId w = (tid, w1) \<Longrightarrow>
     items w1 = items w \<and> next_id w \<le> next_id w1 \<and> clock w \<le> clock w1"
  by (auto simp: getOrCreateExternalThread_def new_Date_def split: option.splits)

lemma count_list_append_fresh:
  "x \<notin> set xs \<Longrightarrow> count_list (xs @ [x]) x = 1"
  by (induction xs) auto

lemma materialize_Inr_threads:
  assumes "materialize valid userId ts mk esc count w = (Inr k, w')"
  shows "threads w' =
           update_first (\<lambda>t. t_id t = import_thread userId w)
             (apply_update
                \<lparr>addToSet_itemIds = next_id (snd (getOrCreateExternalThread userId w)),
                 set_lastActivity = clock w' - 1,
                 set_priority = (if esc then Some ''high'' else None)\<rparr>)
             (threads (snd (getOrCreateExternalThread userId w))) \<and>
         clock (snd (getOrCreateExternalThread userId w)) \<le> clock w' - 1 \<and> 0 < clock w'"
  using assms
  by (auto simp: materialize_def createItem_def new_Date_def WorkThreadModel_findByIdAndUpdate_def
      import_thread_def split: prod.splits option.splits sum.splits if_splits)

lemma materialize_filed:
  assumes wf: "well_formed w"
    and run: "materialize valid userId ts mk esc count w = (Inr k, w')"
    and mkt: "\<And>tid d. i_threadId (mk tid d) = tid \<and> i_userId (mk tid d) = userId"
  shows "item_filed userId w w'"
proof -
  obtain tid w1 where g: "getOrCreateExternalThread userId w = (tid, w1)"
    by (cases "getOrCreateExternalThread userId w")
  then have tid: "import_thread userId w = tid" and w1: "snd (getOrCreateExternalThread userId w) = w1"
    by (simp_all add: import_thread_def)
  from getOrCreate_thread[OF wf g] obtain th0 where
    f: "find (\<lambda>t. t_id t = tid) (threads w1) = Some th0" and u: "t_userId th0 = userId"
    and t: "t_title th0 = ''External Imports''" and fresh: "\<forall>i\<in>set (t_itemIds th0). i < next_id w1"
    by blast
  note fr = getOrCreate_frame[OF g]
  define upd where "upd = \<lparr>addToSet_itemIds = next_id w1, set_lastActivity = clock w' - 1,
                 set_priority = (if esc then Some ''high'' else None)\<rparr>"
  from materialize_Inr_threads[OF run] have
    thr: "threads w' = update_first (\<lambda>t. t_id t = tid) (apply_update upd) (threads w1)"
    and clk: "clock w1 \<le> clock w' - 1" "0 < clock w'"
    by (simp_all add: tid w1 upd_def)
  from materialize_Inr[OF run] have
    new: "items w' = items w @ [\<lparr>item_id = next_id w1,
              item_data = mk tid (import_date userId ts w)\<rparr>]"
    by (simp add: tid w1)
  have idp: "\<And>x. (t_id (apply_update upd x) = tid) = (t_id x = tid)"
    by (simp add: apply_update_def)
  have found: "WorkThreadModel_findById tid w' = Some (apply_update upd th0)"
    using find_update_first[of "\<lambda>t. t_id t = tid" "apply_update upd" "threads w1", OF idp] f thr
    by (simp add: WorkThreadModel_findById_def)
  have nin: "next_id w1 \<notin> set (t_itemIds th0)" using fresh by auto
  have cnt: "count_list (t_itemIds (apply_update upd th0)) (next_id w1) = 1"
    using nin by (simp add: apply_update_def upd_def count_list_append_fresh)
  have la: "t_lastActivity (apply_update upd th0) = clock w' - 1"
    by (simp add: apply_update_def upd_def)
  show ?thesis
    using new found cnt u t clk fr mkt la
    by (simp add: item_filed_def apply_update_def)
qed

lemma update_first_map_id:
  "map t_id (update_first p (apply_update upd) xs) = map t_id xs"
  by (induction xs) (auto simp: apply_update_def)

lemma update_first_list_all:
  "list_all P xs \<Longrightarrow> (\<And>x. P x \<Longrightarrow> P (f x)) \<Longrightarrow> list_all P (update_first p f xs)"
  by (induction xs) auto

lemma list_all_mono': "list_all P xs \<Longrightarrow> (\<And>x. P x \<Longrightarrow> Q x) \<Longrightarrow> list_all Q xs"
  by (induction xs) auto

lemma getOrCreate_wf:
  assumes "well_formed w"
  shows "well_formed (snd (getOrCreateExternalThread userId w))"
proof (cases "find (\<lambda>t. t_userId t = userId \<and> t_title t = ''External Imports'') (threads w)")
  case (Some a)
  with assms show ?thesis by (simp add: getOrCreateExternalThread_def)
next
  case None
  from assms have d: "distinct (map t_id (threads w))"
    and t: "list_all (\<lambda>t. t_id t < next_id w \<and> list_all (\<lambda>i. i < next_id w) (t_itemIds t)) (threads w)"
    and i: "list_all (\<lambda>i. item_id i < next_id w) (items w)"
    by (simp_all add: well_formed_def)
  from t have fresh: "next_id w \<notin> t_id ` set (threads w)" by (auto simp: list_all_iff)
  have t': "list_all (\<lambda>t. t_id t < Suc (next_id w) \<and> list_all (\<lambda>i. i < Suc (next_id w)) (t_itemIds t))
              (threads w)"
    using t by (rule list_all_mono') (auto simp: list_all_iff)
  have i': "list_all (\<lambda>i. item_id i < Suc (next_id w)) (items w)"
    using i by (rule list_all_mono') simp
  show ?thesis
    using None d fresh t' i'
    by (simp add: getOrCreateExternalThread_def new_Date_def well_formed_def)
qed

lemma wf_frame:
  "threads w' = threads w \<Longrightarrow> items w' = items w \<Longrightarrow> next_id w' = next_id w \<Longrightarrow>
     well_formed w' = well_formed w"
  by (simp add: well_formed_def)

lemma materialize_wf:
  assumes wf: "well_formed w" and run: "materialize valid userId ts mk esc count w = (r, w')"
  shows "well_formed w'"
proof -
  define w1 where "w1 = snd (getOrCreateExternalThread userId w)"
  have wf1: "well_formed w1" using getOrCreate_wf[OF wf] by (simp add: w1_def)
  show ?thesis
  proof (cases r)
    case (Inl e)
    with run have "threads w' = threads w1 \<and> items w' = items w1 \<and> next_id w' = next_id w1"
      by (auto simp: materialize_def createItem_def new_Date_def w1_def
          split: prod.splits option.splits sum.splits if_splits)
    with wf1 show ?thesis using wf_frame by blast
  next
    case (Inr k)
    with run have r: "materialize valid userId ts mk esc count w = (Inr k, w')" by simp
    from materialize_Inr_threads[OF r] obtain upd where
      thr: "threads w' = update_first (\<lambda>t. t_id t = import_thread userId w) (apply_update upd) (threads w1)"
      and upd: "addToSet_itemIds upd = next_id w1"
      by (auto simp: w1_def)
    from materialize_Inr[OF r] have
      nid: "next_id w' = Suc (next_id w1)"
      and its: "items w' = items w @ [\<lparr>item_id = next_id w1,
              item_data = mk (import_thread userId w) (import_date userId ts w)\<rparr>]"
      by (simp_all add: w1_def)
    have iw1: "items w1 = items w"
      by (simp add: w1_def getOrCreateExternalThread_def new_Date_def split: option.splits)
    from wf1 have d: "distinct (map t_id (threads w1))"
      and t: "list_all (\<lambda>t. t_id t < next_id w1 \<and> list_all (\<lambda>i. i < next_id w1) (t_itemIds t)) (threads w1)"
      and i: "list_all (\<lambda>i. item_id i < next_id w1) (items w1)"
      by (simp_all add: well_formed_def)
    have t1: "list_all (\<lambda>t. t_id t < Suc (next_id w1) \<and> list_all (\<lambda>i. i < Suc (next_id w1)) (t_itemIds t))
              (threads w1)"
      using t by (rule list_all_mono') (auto simp: list_all_iff)
    have t2: "list_all (\<lambda>t. t_id t < Suc (next_id w1) \<and> list_all (\<lambda>i. i < Suc (next_id w1)) (t_itemIds t))
              (threads w')"
      unfolding thr using t1
      by (rule update_first_list_all) (auto simp: apply_update_def upd list_all_iff)
    have i1: "list_all (\<lambda>i. item_id i < Suc (next_id w1)) (items w)"
      using i unfolding iw1 by (rule list_all_mono') simp
    show ?thesis
      using d t2 i1 by (simp add: well_formed_def thr update_first_map_id nid its)
  qed
qed

lemma wf_log [simp]: "well_formed (log_event e w) = well_formed w"
  by (simp add: well_formed_def log_event_def)

lemma wf_new_Date [simp]: "well_formed (snd (new_Date w)) = well_formed w"
  by (simp add: well_formed_def new_Date_def)

lemma wf_update_user [simp]: "well_formed (update_user userId f w) = well_formed w"
  by (simp add: well_formed_def update_user_def)

lemma filed_log [simp]:
  "item_filed userId (log_event e w) w' = item_filed userId w w'"
  by (simp add: item_filed_def log_event_def cong: list.case_cong option.case_cong)

lemma calendar_body_wf:
  "well_formed w \<Longrightarrow> calendar_body valid userId ev count w = (r, w') \<Longrightarrow> well_formed w'"
  by (auto simp: calendar_body_def WorkItemModel_findOne_def
      split: prod.splits option.splits dest!: materialize_wf[rotated])

lemma task_body_wf:
  "well_formed w \<Longrightarrow> task_body valid userId lst tk count w = (r, w') \<Longrightarrow> well_formed w'"
  by (auto simp: task_body_def WorkItemModel_findOne_def
      split: prod.splits option.splits dest!: materialize_wf[rotated])

lemma teams_body_wf:
  "well_formed w \<Longrightarrow> teams_body valid userId ch count w = (r, w') \<Longrightarrow> well_formed w'"
  by (auto simp: teams_body_def WorkItemModel_findOne_def
      split: prod.splits option.splits if_splits dest!: materialize_wf[rotated])

lemma gmail_body_wf:
  "well_formed w \<Longrightarrow> gmail_body valid P G gmail auth userId msg count w = (r, w') \<Longrightarrow> well_formed w'"
  by (auto simp: gmail_body_def WorkItemModel_findOne_def Let_def
      split: prod.splits option.splits if_splits sum.splits dest!: materialize_wf[rotated])

lemma calendar_body_filed:
  "well_formed w \<Longrightarrow> calendar_body valid userId ev count w = (Inr (Suc count), w') \<Longrightarrow>
     item_filed userId w w'"
  by (auto simp: calendar_body_def WorkItemModel_findOne_def
      split: prod.splits option.splits dest!: materialize_filed[rotated])

lemma task_body_filed:
  "well_formed w \<Longrightarrow> task_body valid userId lst tk count w = (Inr (Suc count), w') \<Longrightarrow>
     item_filed userId w w'"
  by (auto simp: task_body_def WorkItemModel_findOne_def
      split: prod.splits option.splits dest!: materialize_filed[rotated])

lemma teams_body_filed:
  "well_formed w \<Longrightarrow> teams_body valid userId ch count w = (Inr (Suc count), w') \<Longrightarrow>
     item_filed userId w w'"
  by (auto simp: teams_body_def WorkItemModel_findOne_def
      split: prod.splits option.splits if_splits dest!: materialize_filed[rotated])

lemma gmail_body_filed:
  "well_formed w \<Longrightarrow> gmail_body valid P G gmail auth userId msg count w = (Inr (Suc count), w') \<Longrightarrow>
     item_filed userId w w'"
  by (auto simp: gmail_body_def WorkItemModel_findOne_def Let_def
      split: prod.splits option.splits if_splits sum.splits dest!: materialize_filed[rotated])

lemma for_of_wf:
  assumes "\<forall>c\<in>set cs. \<forall>k w r w'. body c k w = (r, w') \<longrightarrow> (well_formed w \<longrightarrow> well_formed w')"
    and "for_of body cs k w = (r, w')" and "well_formed w"
  shows "well_formed w'"
  using for_of_rel[where R = "\<lambda>w w'. well_formed w \<longrightarrow> well_formed w'", OF _ _ assms(1,2)] assms(3)
  by simp

lemma tasklist_body_wf:
  "well_formed w \<Longrightarrow> tasklist_body valid tasks auth userId lst count w = (r, w') \<Longrightarrow> well_formed w'"
  by (auto simp: tasklist_body_def split: sum.splits
      dest!: for_of_wf[rotated] dest: task_body_wf)

lemma for_of_wf_snd:
  assumes "\<And>c k w. well_formed w \<Longrightarrow> well_formed (snd (body c k w))"
    and "well_formed w"
  shows "well_formed (snd (for_of body cs k w))"
proof -
  have "\<forall>c\<in>set cs. \<forall>k w r w'. body c k w = (r, w') \<longrightarrow> (well_formed w \<longrightarrow> well_formed w')"
    using assms(1) by (metis snd_conv)
  then show ?thesis
    using for_of_wf[of cs body k w "fst (for_of body cs k w)" "snd (for_of body cs k w)"] assms(2)
    by simp
qed

lemma syncCalendar_wf:
  assumes "well_formed w"
  shows "well_formed (snd (syncCalendar valid calendar userId ov w))"
proof -
  have b: "\<And>c k w. well_formed w \<Longrightarrow> well_formed (snd (calendar_body valid userId c k w))"
    using calendar_body_wf by (metis prod.collapse)
  have "\<And>auth. well_formed (snd (syncCalendar_try valid calendar auth userId w))"
    using for_of_wf_snd[of "calendar_body valid userId", OF b] assms
    by (simp add: syncCalendar_try_def case_prod_unfold split: sum.splits)
  then show ?thesis
    using assms by (simp add: syncCalendar_def case_prod_unfold split: option.splits sum.splits)
qed

lemma syncTasks_wf:
  assumes "well_formed w"
  shows "well_formed (snd (syncTasks valid tasks userId ov w))"
proof -
  have b: "\<And>auth c k w. well_formed w \<Longrightarrow>
             well_formed (snd (tasklist_body valid tasks auth userId c k w))"
    using tasklist_body_wf by (metis prod.collapse)
  have "\<And>auth. well_formed (snd (syncTasks_try valid tasks auth userId w))"
    using for_of_wf_snd[of "tasklist_body valid tasks _ userId", OF b] assms
    by (simp add: syncTasks_try_def case_prod_unfold split: sum.splits)
  then show ?thesis
    using assms by (simp add: syncTasks_def case_prod_unfold split: option.splits sum.splits)
qed

lemma syncGmail_wf:
  assumes "well_formed w"
  shows "well_formed (snd (syncGmail valid P G gmail userId ov w))"
proof -
  have b: "\<And>auth c k w. well_formed w \<Longrightarrow>
             well_formed (snd (gmail_body valid P G gmail auth userId c k w))"
    using gmail_body_wf by (metis prod.collapse)
  have "\<And>auth u. well_formed (snd (syncGmail_try valid P G gmail auth userId u w))"
    using for_of_wf_snd[of "gmail_body valid P G gmail _ userId", OF b] assms
    by (simp add: syncGmail_try_def case_prod_unfold split: sum.splits option.splits)
  then show ?thesis
    using assms by (simp add: syncGmail_def case_prod_unfold split: option.splits sum.splits)
qed

lemma syncTeams_wf:
  assumes "well_formed w"
  shows "well_formed (snd (syncTeams valid teams userId ov w))"
proof -
  have b: "\<And>c k w. well_formed w \<Longrightarrow> well_formed (snd (teams_body valid userId c k w))"
    using teams_body_wf by (metis prod.collapse)
  have "\<And>tok u. well_formed (snd (syncTeams_try valid teams tok userId u w))"
    using for_of_wf_snd[of "teams_body valid userId", OF b] assms
    by (simp add: syncTeams_try_def case_prod_unfold split: sum.splits option.splits)
  then show ?thesis
    using assms by (simp add: syncTeams_def case_prod_unfold split: option.splits sum.splits)
qed

lemma update_first_twice:
  assumes "\<And>x. p (f x) = p x"
  shows "update_first p g (update_first p f xs) = update_first p (g \<circ> f) xs"
  by (induction xs) (auto simp: assms)

lemma addToSet_twice:
  "map t_itemIds
     (threads (WorkThreadModel_findByIdAndUpdate tid (upd\<lparr>set_lastActivity := later\<rparr>)
                 (WorkThreadModel_findByIdAndUpdate tid upd w)))
   = map t_itemIds (threads (WorkThreadModel_findByIdAndUpdate tid upd w))"
proof -
  have idp: "\<And>x. (t_id (apply_update upd x) = tid) = (t_id x = tid)"
    by (simp add: apply_update_def)
  have m: "\<And>xs. map t_itemIds (update_first (\<lambda>t. t_id t = tid)
                      (apply_update (upd\<lparr>set_lastActivity := later\<rparr>) \<circ> apply_update upd) xs)
               = map t_itemIds (update_first (\<lambda>t. t_id t = tid) (apply_update upd) xs)"
  proof -
    fix xs show "map t_itemIds (update_first (\<lambda>t. t_id t = tid)
                      (apply_update (upd\<lparr>set_lastActivity := later\<rparr>) \<circ> apply_update upd) xs)
               = map t_itemIds (update_first (\<lambda>t. t_id t = tid) (apply_update upd) xs)"
      by (induction xs) (auto simp: apply_update_def)
  qed
  show ?thesis
    using update_first_twice[of "\<lambda>t. t_id t = tid" "apply_update upd"
        "apply_update (upd\<lparr>set_lastActivity := later\<rparr>)", OF idp] m
    by (simp add: WorkThreadModel_findByIdAndUpdate_def)
qed

text \<open>
  C8. In a world whose document ids are fresh, whenever the body of one of the four loops
  has created an item (it returns the counter plus one), exactly one item was added, it
  belongs to the user, and the thread its \<^verbatim>\<open>threadId\<close> names is stored, is the user's
  External Imports thread, lists the new item's id exactly once, and has a
  \<^verbatim>\<open>lastActivity\<close> read from the clock while the candidate was processed: not before the
  body started and before it ended. The world stays one whose ids are fresh, after each body
  and after each whole cycle. Running the thread update a second time with the same id
  leaves every thread's \<^verbatim>\<open>itemIds\<close> as they are.
\<close>

theorem new_item_filed_once:
  assumes "well_formed w"
  shows
    "(gmail_body valid JSON_parse generateContent gmail auth userId msg count w = (Inr (Suc count), w')
        \<longrightarrow> item_filed userId w w' \<and> well_formed w') \<and>
     (calendar_body valid userId ev count w = (Inr (Suc count), w')
        \<longrightarrow> item_filed userId w w' \<and> well_formed w') \<and>
     (task_body valid userId lst tk count w = (Inr (Suc count), w')
        \<longrightarrow> item_filed userId w w' \<and> well_formed w') \<and>
     (teams_body valid userId ch count w = (Inr (Suc count), w')
        \<longrightarrow> item_filed userId w w' \<and> well_formed w') \<and>
     well_formed (snd (syncGmail valid JSON_parse generateContent gmail userId ov w)) \<and>
     well_formed (snd (syncCalendar valid calendar userId ov w)) \<and>
     well_formed (snd (syncTasks valid tasks userId ov w)) \<and>
     well_formed (snd (syncTeams valid teams userId ov w)) \<and>
     map t_itemIds
       (threads (WorkThreadModel_findByIdAndUpdate tid (upd\<lparr>set_lastActivity := later\<rparr>)
                   (WorkThreadModel_findByIdAndUpdate tid upd w)))
     = map t_itemIds (threads (WorkThreadModel_findByIdAndUpdate tid upd w))"
proof (intro conjI impI)
  assume a: "gmail_body valid JSON_parse generateContent gmail auth userId msg count w = (Inr (Suc count), w')"
  show "item_filed userId w w'" using gmail_body_filed[OF assms a] .
  show "well_formed w'" using gmail_body_wf[OF assms a] .
next
  assume a: "calendar_body valid userId ev count w = (Inr (Suc count), w')"
  show "item_filed userId w w'" using calendar_body_filed[OF assms a] .
  show "well_formed w'" using calendar_body_wf[OF assms a] .
next
  assume a: "task_body valid userId lst tk count w = (Inr (Suc count), w')"
  show "item_filed userId w w'" using task_body_filed[OF assms a] .
  show "well_formed w'" using task_body_wf[OF assms a] .
next
  assume a: "teams_body valid userId ch count w = (Inr (Suc count), w')"
  show "item_filed userId w w'" using teams_body_filed[OF assms a] .
  show "well_formed w'" using teams_body_wf[OF assms a] .
next
  show "well_formed (snd (syncGmail valid JSON_parse generateContent gmail userId ov w))"
    using syncGmail_wf[OF assms] .
  show "well_formed (snd (syncCalendar valid calendar userId ov w))"
    using syncCalendar_wf[OF assms] .
  show "well_formed (snd (syncTasks valid tasks userId ov w))"
    using syncTasks_wf[OF assms] .
  show "well_formed (snd (syncTeams valid teams userId ov w))"
    using syncTeams_wf[OF assms] .
  show "map t_itemIds
       (threads (WorkThreadModel_findByIdAndUpdate tid (upd\<lparr>set_lastActivity := later\<rparr>)
                   (WorkThreadModel_findByIdAndUpdate tid upd w)))
     = map t_itemIds (threads (WorkThreadModel_findByIdAndUpdate tid upd w))"
    using addToSet_twice .
qed

theorem new_item_filed_once_witness:
  "well_formed busy_world \<and>
   fst (gmail_body schema_valid sample_parse always_work one_mail_gmail (''g-token'', None) ''alice''
          (Some ''m-1'') 0 busy_world) = Inr (Suc 0) \<and>
   item_filed ''alice'' busy_world
     (snd (gmail_body schema_valid sample_parse always_work one_mail_gmail (''g-token'', None) ''alice''
             (Some ''m-1'') 0 busy_world)) \<and>
   map item_id (items (snd (gmail_body schema_valid sample_parse always_work one_mail_gmail
             (''g-token'', None) ''alice'' (Some ''m-1'') 0 busy_world))) = [100] \<and>
   map (\<lambda>t. (t_title t, t_itemIds t, t_lastActivity t))
     (threads (snd (gmail_body schema_valid sample_parse always_work one_mail_gmail
             (''g-token'', None) ''alice'' (Some ''m-1'') 0 busy_world)))
     = [(''External Imports'', [100], 10), (''Roadmap'', [], 4)] \<and>
   fst (calendar_body schema_valid ''alice'' standup 0 alice_world) = Inr (Suc 0) \<and>
   item_filed ''alice'' alice_world (snd (calendar_body schema_valid ''alice'' standup 0 alice_world))"
proof -
  have wb: "well_formed busy_world" by code_simp
  have wa: "well_formed alice_world" by code_simp
  define g where "g = gmail_body schema_valid sample_parse always_work one_mail_gmail
                        (''g-token'', None) ''alice'' (Some ''m-1'') 0 busy_world"
  define c where "c = calendar_body schema_valid ''alice'' standup 0 alice_world"
  have g1: "fst g = Inr (Suc 0)" unfolding g_def by code_simp
  have c1: "fst c = Inr (Suc 0)" unfolding c_def by code_simp
  have g2: "map item_id (items (snd g)) = [100]" unfolding g_def by code_simp
  have g3: "map (\<lambda>t. (t_title t, t_itemIds t, t_lastActivity t)) (threads (snd g))
              = [(''External Imports'', [100], 10), (''Roadmap'', [], 4)]"
    unfolding g_def by code_simp
  have gf: "item_filed ''alice'' busy_world (snd g)"
    using new_item_filed_once[OF wb, where valid = schema_valid and JSON_parse = sample_parse
        and generateContent = always_work and gmail = one_mail_gmail and auth = "(''g-token'', None)"
        and userId = "''alice''" and msg = "Some ''m-1''" and count = 0 and w' = "snd g"] g1
    by (simp add: g_def prod_eq_iff)
  have cf: "item_filed ''alice'' alice_world (snd c)"
    using new_item_filed_once[OF wa, where valid = schema_valid and userId = "''alice''"
        and ev = standup and count = 0 and w' = "snd c"] c1
    by (simp add: c_def prod_eq_iff)
  show ?thesis
    using wb g1 g2 g3 gf c1 cf by (simp add: g_def c_def)
qed

section \<open>One item per remote identifier\<close>

lemma key_pairs_append:
  "items w' = items w @ [it] \<Longrightarrow>
     key_pairs f w' = key_pairs f w @
       (case md_key f it of None \<Rightarrow> [] | Some k \<Rightarrow> [(i_userId (item_data it), k)])"
  by (simp add: key_pairs_def List.map_filter_def split: option.splits)

lemma set_map_filter: "set (List.map_filter h xs) = {y. \<exists>x\<in>set xs. h x = Some y}"
  by (induction xs) (auto simp: List.map_filter_simps split: option.splits)

lemma key_pairs_set:
  "set (key_pairs f w) =
     {(i_userId (item_data i), k) | i k. i \<in> set (items w) \<and> md_key f i = Some k}"
  by (auto simp: key_pairs_def set_map_filter)

lemma unique_frame: "items w' = items w \<Longrightarrow> unique_ids w' = unique_ids w"
  by (simp add: unique_ids_def key_pairs_def)

lemma unique_log [simp]: "unique_ids (log_event e w) = unique_ids w"
  by (simp add: unique_ids_def key_pairs_def)

lemma unique_new_Date [simp]: "unique_ids (snd (new_Date w)) = unique_ids w"
  by (simp add: unique_ids_def key_pairs_def)

lemma unique_update_user [simp]: "unique_ids (update_user userId f w) = unique_ids w"
  by (simp add: unique_ids_def key_pairs_def)

lemma materialize_unique:
  assumes u: "unique_ids w"
    and run: "materialize valid userId ts mk esc count w = (r, w')"
    and mk: "\<And>tid d. i_userId (mk tid d) = userId \<and> googleId (i_metadata (mk tid d)) = g \<and>
                      microsoftId (i_metadata (mk tid d)) = m"
    and new: "(f = GoogleId \<and> key = g \<and> m = None) \<or> (f = MicrosoftId \<and> key = m \<and> g = None)"
    and absent: "find (\<lambda>i. i_userId (item_data i) = userId \<and> md_key f i = key) (items w) = None"
  shows "unique_ids w'"
proof (cases r)
  case (Inl e)
  with run have "items w' = items w" using materialize_Inl by simp
  with u show ?thesis using unique_frame by blast
next
  case (Inr k)
  with run have r: "materialize valid userId ts mk esc count w = (Inr k, w')" by simp
  define it where "it = \<lparr>item_id = next_id (snd (getOrCreateExternalThread userId w)),
                             item_data = mk (import_thread userId w) (import_date userId ts w)\<rparr>"
  from materialize_Inr[OF r] have its: "items w' = items w @ [it]" by (simp add: it_def)
  have kg: "md_key GoogleId it = g" and km: "md_key MicrosoftId it = m"
    and ku: "i_userId (item_data it) = userId"
    using mk by (simp_all add: it_def md_key_def)
  from absent have no: "\<forall>i\<in>set (items w). \<not> (i_userId (item_data i) = userId \<and> md_key f i = key)"
    by (simp add: find_None_iff')
  from new show ?thesis
  proof
    assume a: "f = GoogleId \<and> key = g \<and> m = None"
    have "\<And>k. g = Some k \<Longrightarrow> (userId, k) \<notin> set (key_pairs GoogleId w)"
      using no a by (auto simp: key_pairs_set)
    then show ?thesis
      using u a kg km ku
      by (auto simp: unique_ids_def key_pairs_append[OF its] split: option.splits)
  next
    assume a: "f = MicrosoftId \<and> key = m \<and> g = None"
    have "\<And>k. m = Some k \<Longrightarrow> (userId, k) \<notin> set (key_pairs MicrosoftId w)"
      using no a by (auto simp: key_pairs_set)
    then show ?thesis
      using u a kg km ku
      by (auto simp: unique_ids_def key_pairs_append[OF its] split: option.splits)
  qed
qed

lemma calendar_body_unique:
  "unique_ids w \<Longrightarrow> calendar_body valid userId ev count w = (r, w') \<Longrightarrow> unique_ids w'"
  by (auto simp: calendar_body_def WorkItemModel_findOne_def
      split: prod.splits option.splits
      elim!: materialize_unique[rotated, where f = GoogleId and g = "e_id ev" and m = None
                and key = "e_id ev"])

lemma task_body_unique:
  "unique_ids w \<Longrightarrow> task_body valid userId lst tk count w = (r, w') \<Longrightarrow> unique_ids w'"
  by (auto simp: task_body_def WorkItemModel_findOne_def
      split: prod.splits option.splits
      elim!: materialize_unique[rotated, where f = GoogleId and g = "k_id tk" and m = None
                and key = "k_id tk"])

lemma teams_body_unique:
  "unique_ids w \<Longrightarrow> teams_body valid userId ch count w = (r, w') \<Longrightarrow> unique_ids w'"
  by (auto simp: teams_body_def WorkItemModel_findOne_def
      split: prod.splits option.splits if_splits
      elim!: materialize_unique[rotated, where f = MicrosoftId and g = None
                and m = "p_id (the (c_lastMessagePreview ch))"
                and key = "p_id (the (c_lastMessagePreview ch))"])

lemma gmail_body_unique:
  "unique_ids w \<Longrightarrow> gmail_body valid P G gmail auth userId msg count w = (r, w') \<Longrightarrow> unique_ids w'"
  by (auto simp: gmail_body_def WorkItemModel_findOne_def Let_def
      split: prod.splits option.splits if_splits sum.splits
      elim!: materialize_unique[rotated, where f = GoogleId and g = msg and m = None and key = msg])

lemma for_of_inv_snd:
  assumes "\<And>c k w. I w \<Longrightarrow> I (snd (body c k w))" and "I w"
  shows "I (snd (for_of body cs k w))"
proof -
  have "\<forall>c\<in>set cs. \<forall>k w r w'. body c k w = (r, w') \<longrightarrow> (I w \<longrightarrow> I w')"
    using assms(1) by (metis snd_conv)
  then have "I w \<longrightarrow> I (snd (for_of body cs k w))"
    using for_of_rel[where R = "\<lambda>w w'. I w \<longrightarrow> I w'" and cs = cs and body = body and k = k
        and w = w and r = "fst (for_of body cs k w)" and w' = "snd (for_of body cs k w)"]
    by simp
  with assms(2) show ?thesis by simp
qed

lemma tasklist_body_unique:
  assumes "unique_ids w"
  shows "unique_ids (snd (tasklist_body valid tasks auth userId lst count w))"
proof -
  have b: "\<And>c k w. unique_ids w \<Longrightarrow> unique_ids (snd (task_body valid userId lst c k w))"
    using task_body_unique by (metis prod.collapse)
  show ?thesis
    using for_of_inv_snd[of unique_ids "task_body valid userId lst", OF b] assms
    by (simp add: tasklist_body_def split: sum.splits)
qed

lemma syncCalendar_unique:
  assumes "unique_ids w"
  shows "unique_ids (snd (syncCalendar valid calendar userId ov w))"
proof -
  have b: "\<And>c k w. unique_ids w \<Longrightarrow> unique_ids (snd (calendar_body valid userId c k w))"
    using calendar_body_unique by (metis prod.collapse)
  have "\<And>auth. unique_ids (snd (syncCalendar_try valid calendar auth userId w))"
    using for_of_inv_snd[of unique_ids "calendar_body valid userId", OF b] assms
    by (simp add: syncCalendar_try_def case_prod_unfold split: sum.splits)
  then show ?thesis
    using assms by (simp add: syncCalendar_def case_prod_unfold split: option.splits sum.splits)
qed

lemma syncTasks_unique:
  assumes "unique_ids w"
  shows "unique_ids (snd (syncTasks valid tasks userId ov w))"
proof -
  have "\<And>auth. unique_ids (snd (syncTasks_try valid tasks auth userId w))"
    using for_of_inv_snd[of unique_ids "tasklist_body valid tasks _ userId", OF tasklist_body_unique]
      assms
    by (simp add: syncTasks_try_def case_prod_unfold split: sum.splits)
  then show ?thesis
    using assms by (simp add: syncTasks_def case_prod_unfold split: option.splits sum.splits)
qed

lemma syncGmail_unique:
  assumes "unique_ids w"
  shows "unique_ids (snd (syncGmail valid P G gmail userId ov w))"
proof -
  have b: "\<And>auth c k w. unique_ids w \<Longrightarrow>
             unique_ids (snd (gmail_body valid P G gmail auth userId c k w))"
    using gmail_body_unique by (metis prod.collapse)
  have "\<And>auth u. unique_ids (snd (syncGmail_try valid P G gmail auth userId u w))"
    using for_of_inv_snd[of unique_ids "gmail_body valid P G gmail _ userId", OF b] assms
    by (simp add: syncGmail_try_def case_prod_unfold split: sum.splits option.splits)
  then show ?thesis
    using assms by (simp add: syncGmail_def case_prod_unfold split: option.splits sum.splits)
qed

lemma syncTeams_unique:
  assumes "unique_ids w"
  shows "unique_ids (snd (syncTeams valid teams userId ov w))"
proof -
  have b: "\<And>c k w. unique_ids w \<Longrightarrow> unique_ids (snd (teams_body valid userId c k w))"
    using teams_body_unique by (metis prod.collapse)
  have "\<And>tok u. unique_ids (snd (syncTeams_try valid teams tok userId u w))"
    using for_of_inv_snd[of unique_ids "teams_body valid userId", OF b] assms
    by (simp add: syncTeams_try_def case_prod_unfold split: sum.splits option.splits)
  then show ?thesis
    using assms by (simp add: syncTeams_def case_prod_unfold split: option.splits sum.splits)
qed

lemma run_unique: "unique_ids w \<Longrightarrow> unique_ids (snd (run i w))"
  by (cases i) (simp_all add: syncGmail_unique syncCalendar_unique syncTasks_unique syncTeams_unique)

lemma run_all_unique: "unique_ids w \<Longrightarrow> unique_ids (run_all invs w)"
  by (induction invs arbitrary: w) (simp_all add: run_unique)

lemma unique_no_items: "items w = [] \<Longrightarrow> unique_ids w"
  by (simp add: unique_ids_def key_pairs_def List.map_filter_simps)

lemma distinct_map_filter_nth:
  "distinct (List.map_filter h xs) \<longleftrightarrow>
     (\<forall>m n. m < n \<longrightarrow> n < length xs \<longrightarrow> h (xs ! m) = None \<or> h (xs ! m) \<noteq> h (xs ! n))"
proof (induction xs)
  case Nil
  then show ?case by (simp add: List.map_filter_simps)
next
  case (Cons x xs)
  have split: "(\<forall>m n. m < n \<longrightarrow> n < length (x # xs) \<longrightarrow>
                  h ((x # xs) ! m) = None \<or> h ((x # xs) ! m) \<noteq> h ((x # xs) ! n)) \<longleftrightarrow>
               (\<forall>n<length xs. h x = None \<or> h x \<noteq> h (xs ! n)) \<and>
               (\<forall>m n. m < n \<longrightarrow> n < length xs \<longrightarrow> h (xs ! m) = None \<or> h (xs ! m) \<noteq> h (xs ! n))"
    (is "?L \<longleftrightarrow> ?A \<and> ?B")
  proof
    assume l: ?L
    have ?A
    proof (intro allI impI)
      fix n assume "n < length xs"
      with l[rule_format, of 0 "Suc n"] show "h x = None \<or> h x \<noteq> h (xs ! n)" by simp
    qed
    moreover have ?B
    proof (intro allI impI)
      fix m n assume "m < n" "n < length xs"
      with l[rule_format, of "Suc m" "Suc n"] show "h (xs ! m) = None \<or> h (xs ! m) \<noteq> h (xs ! n)"
        by simp
    qed
    ultimately show "?A \<and> ?B" by simp
  next
    assume ab: "?A \<and> ?B"
    show ?L
    proof (intro allI impI)
      fix m n assume mn: "m < n" and n: "n < length (x # xs)"
      then obtain n' where n': "n = Suc n'" by (cases n) auto
      show "h ((x # xs) ! m) = None \<or> h ((x # xs) ! m) \<noteq> h ((x # xs) ! n)"
      proof (cases m)
        case 0
        with ab n n' show ?thesis by simp
      next
        case (Suc m')
        with ab mn n n' show ?thesis by simp
      qed
    qed
  qed
  have mem: "\<And>y. y \<notin> set (List.map_filter h xs) \<longleftrightarrow> (\<forall>n<length xs. h (xs ! n) \<noteq> Some y)"
    by (simp add: set_map_filter) (metis in_set_conv_nth)
  show ?case
    unfolding split using Cons.IH mem
    by (cases "h x") (auto simp: List.map_filter_simps)
qed

lemma key_pairs_distinct_nth:
  "distinct (key_pairs f w) \<longleftrightarrow>
     (\<forall>m n. m < n \<longrightarrow> n < length (items w) \<longrightarrow>
        md_key f (items w ! m) = None \<or>
        \<not> (i_userId (item_data (items w ! m)) = i_userId (item_data (items w ! n)) \<and>
           md_key f (items w ! m) = md_key f (items w ! n)))"
proof -
  have pt: "\<And>a b. (map_option (Pair (i_userId (item_data a))) (md_key f a) = None \<or>
                   map_option (Pair (i_userId (item_data a))) (md_key f a) \<noteq>
                   map_option (Pair (i_userId (item_data b))) (md_key f b)) \<longleftrightarrow>
                 (md_key f a = None \<or>
                  \<not> (i_userId (item_data a) = i_userId (item_data b) \<and> md_key f a = md_key f b))"
  proof -
    fix a b
    show "(map_option (Pair (i_userId (item_data a))) (md_key f a) = None \<or>
                   map_option (Pair (i_userId (item_data a))) (md_key f a) \<noteq>
                   map_option (Pair (i_userId (item_data b))) (md_key f b)) \<longleftrightarrow>
                 (md_key f a = None \<or>
                  \<not> (i_userId (item_data a) = i_userId (item_data b) \<and> md_key f a = md_key f b))"
      by (cases "md_key f a"; cases "md_key f b"; auto)
  qed
  show ?thesis
    unfolding key_pairs_def distinct_map_filter_nth pt ..
qed

lemma unique_ids_nth:
  "unique_ids w \<longleftrightarrow>
     (\<forall>f m n. m < n \<longrightarrow> n < length (items w) \<longrightarrow>
        md_key f (items w ! m) = None \<or>
        \<not> (i_userId (item_data (items w ! m)) = i_userId (item_data (items w ! n)) \<and>
           md_key f (items w ! m) = md_key f (items w ! n)))"
proof -
  have "unique_ids w \<longleftrightarrow> (\<forall>f. distinct (key_pairs f w))"
  proof
    assume u: "unique_ids w"
    show "\<forall>f. distinct (key_pairs f w)"
    proof
      fix f show "distinct (key_pairs f w)" using u by (cases f) (simp_all add: unique_ids_def)
    qed
  next
    assume "\<forall>f. distinct (key_pairs f w)"
    then show "unique_ids w" by (simp add: unique_ids_def)
  qed
  then show ?thesis unfolding key_pairs_distinct_nth .
qed

text \<open>
  C2. At most one work item per remote identifier. If no two stored items of a world share
  the same \<open>(userId, metadata.googleId)\<close> or the same \<open>(userId, metadata.microsoftId)\<close>
  (items without an id under the field aside), that is still so after each of the four
  entry points, and after any sequence of them run one after the other; a store without
  items is such a world. Spelled out for the world a sequence leaves: for either field,
  two items at different places that both belong to one user do not carry the same id.
\<close>

theorem one_item_per_remote_id:
  assumes "unique_ids w"
  shows
    "unique_ids (snd (syncGmail valid JSON_parse generateContent gmail userId ov w)) \<and>
     unique_ids (snd (syncCalendar valid calendar userId ov w)) \<and>
     unique_ids (snd (syncTasks valid tasks userId ov w)) \<and>
     unique_ids (snd (syncTeams valid teams userId ov w)) \<and>
     unique_ids (run_all invs w) \<and>
     (\<forall>f m n. m < n \<longrightarrow> n < length (items (run_all invs w)) \<longrightarrow>
        md_key f (items (run_all invs w) ! m) = None \<or>
        \<not> (i_userId (item_data (items (run_all invs w) ! m))
             = i_userId (item_data (items (run_all invs w) ! n)) \<and>
           md_key f (items (run_all invs w) ! m) = md_key f (items (run_all invs w) ! n))) \<and>
     (items w0 = [] \<longrightarrow> unique_ids (run_all invs w0))"
proof (intro conjI)
  show "unique_ids (snd (syncGmail valid JSON_parse generateContent gmail userId ov w))"
    using syncGmail_unique[OF assms] .
  show "unique_ids (snd (syncCalendar valid calendar userId ov w))"
    using syncCalendar_unique[OF assms] .
  show "unique_ids (snd (syncTasks valid tasks userId ov w))"
    using syncTasks_unique[OF assms] .
  show "unique_ids (snd (syncTeams valid teams userId ov w))"
    using syncTeams_unique[OF assms] .
  show "unique_ids (run_all invs w)"
    using run_all_unique[OF assms] .
  show "\<forall>f m n. m < n \<longrightarrow> n < length (items (run_all invs w)) \<longrightarrow>
        md_key f (items (run_all invs w) ! m) = None \<or>
        \<not> (i_userId (item_data (items (run_all invs w) ! m))
             = i_userId (item_data (items (run_all invs w) ! n)) \<and>
           md_key f (items (run_all invs w) ! m) = md_key f (items (run_all invs w) ! n))"
    using run_all_unique[OF assms, of invs] unfolding unique_ids_nth .
  show "items w0 = [] \<longrightarrow> unique_ids (run_all invs w0)"
    using run_all_unique[OF unique_no_items] by blast
qed

theorem one_item_per_remote_id_witness:
  "unique_ids alice_world \<and>
   key_pairs GoogleId
     (run_all [SyncCalendar schema_valid (Inr (Some [standup, standup])) ''alice'' None,
               SyncGmail schema_valid sample_parse always_work one_mail_gmail ''alice'' None,
               SyncCalendar schema_valid (Inr (Some [standup])) ''alice'' None,
               SyncTeams schema_valid (Inr (chats_response [hello_chat, hello_chat])) ''alice'' None,
               SyncGmail schema_valid sample_parse always_work one_mail_gmail ''alice'' None]
        alice_world)
     = [(''alice'', ''ev-1''), (''alice'', ''m-1'')] \<and>
   key_pairs MicrosoftId
     (run_all [SyncCalendar schema_valid (Inr (Some [standup, standup])) ''alice'' None,
               SyncGmail schema_valid sample_parse always_work one_mail_gmail ''alice'' None,
               SyncCalendar schema_valid (Inr (Some [standup])) ''alice'' None,
               SyncTeams schema_valid (Inr (chats_response [hello_chat, hello_chat])) ''alice'' None,
               SyncGmail schema_valid sample_parse always_work one_mail_gmail ''alice'' None]
        alice_world)
     = [(''alice'', ''msg-1'')] \<and>
   unique_ids
     (run_all [SyncCalendar schema_valid (Inr (Some [standup, standup])) ''alice'' None,
               SyncGmail schema_valid sample_parse always_work one_mail_gmail ''alice'' None,
               SyncCalendar schema_valid (Inr (Some [standup])) ''alice'' None,
               SyncTeams schema_valid (Inr (chats_response [hello_chat, hello_chat])) ''alice'' None,
               SyncGmail schema_valid sample_parse always_work one_mail_gmail ''alice'' None]
        alice_world)"
proof -
  have u: "unique_ids alice_world" by code_simp
  have g: "key_pairs GoogleId
     (run_all [SyncCalendar schema_valid (Inr (Some [standup, standup])) ''alice'' None,
               SyncGmail schema_valid sample_parse always_work one_mail_gmail ''alice'' None,
               SyncCalendar schema_valid (Inr (Some [standup])) ''alice'' None,
               SyncTeams schema_valid (Inr (chats_response [hello_chat, hello_chat])) ''alice'' None,
               SyncGmail schema_valid sample_parse always_work one_mail_gmail ''alice'' None]
        alice_world)
     = [(''alice'', ''ev-1''), (''alice'', ''m-1'')]" by code_simp
  have m: "key_pairs MicrosoftId
     (run_all [SyncCalendar schema_valid (Inr (Some [standup, standup])) ''alice'' None,
               SyncGmail schema_valid sample_parse always_work one_mail_gmail ''alice'' None,
               SyncCalendar schema_valid (Inr (Some [standup])) ''alice'' None,
               SyncTeams schema_valid (Inr (chats_response [hello_chat, hello_chat])) ''alice'' None,
               SyncGmail schema_valid sample_parse always_work one_mail_gmail ''alice'' None]
        alice_world)
     = [(''alice'', ''msg-1'')]" by code_simp
  show ?thesis
    using one_item_per_remote_id[OF u, where invs =
        "[SyncCalendar schema_valid (Inr (Some [standup, standup])) ''alice'' None,
               SyncGmail schema_valid sample_parse always_work one_mail_gmail ''alice'' None,
               SyncCalendar schema_valid (Inr (Some [standup])) ''alice'' None,
               SyncTeams schema_valid (Inr (chats_response [hello_chat, hello_chat])) ''alice'' None,
               SyncGmail schema_valid sample_parse always_work one_mail_gmail ''alice'' None]"]
      u g m
    by blast
qed

section \<open>A second run of a cycle\<close>

lemma same_db_refl [simp]: "same_db w w"
  by (simp add: same_db_def)


lemma same_db_sym: "same_db a b \<Longrightarrow> same_db b a"
  by (simp add: same_db_def)

lemma same_db_log [simp]:
  "same_db (log_event e w) w' = same_db w w'" "same_db w (log_event e w') = same_db w w'"
  by (simp_all add: same_db_def log_event_def)

lemma same_db_frame [simp]:
  "same_db (snd (new_Date w)) w' = same_db w w'" "same_db w (snd (new_Date w')) = same_db w w'"
  "same_db (update_user userId f w) w' = same_db w w'"
  "same_db w (update_user userId f w') = same_db w w'"
  by (simp_all add: same_db_def new_Date_def update_user_def)













































end
